theory Spec2Isabelle
  imports Main "HOL-Library.Word"
begin

unbundle bit_operations_syntax

section \<open>The dispatch engine of dlls/mshtml/dispex.c\<close>

text \<open>
  The development follows \<^verbatim>\<open>src/dlls/mshtml/dispex.c\<close>. C structures are records, out
  parameters are returned next to the \<^verbatim>\<open>HRESULT\<close>, and every COM collaborator the file
  calls but does not implement (the interfaces of the target object, the type library,
  \<^verbatim>\<open>oleaut32\<close>) is a field of the record \<open>externals\<close>. Objects live in a store indexed by
  address, because an instance and its prototype are two objects linked by a pointer.

  Conventions:
  \<^item> \<^verbatim>\<open>HRESULT\<close> and \<^verbatim>\<open>DISPID\<close> are the signed values of the 32-bit codes, as \<open>int\<close>;
    \<^verbatim>\<open>FAILED\<close> is "negative". Where the C arithmetic can wrap it is written with \<open>mod\<close>.
  \<^item> \<^verbatim>\<open>VARTYPE\<close> and the \<^verbatim>\<open>DISPATCH_*\<close> flag words are 16-bit words.
  \<^item> A \<^verbatim>\<open>WCHAR\<close> string is a list of characters; \<^verbatim>\<open>!wcscmp(a, b)\<close> is \<open>a = b\<close>.
  \<^item> A pointer is an address (\<open>nat\<close>) in an \<open>option\<close>; \<open>None\<close> is \<^verbatim>\<open>NULL\<close>.
  \<^item> Memory allocation is taken to succeed: the exits with \<^verbatim>\<open>E_OUTOFMEMORY\<close> behind a
    failed \<^verbatim>\<open>malloc\<close>, \<^verbatim>\<open>calloc\<close>, \<^verbatim>\<open>realloc\<close>, \<^verbatim>\<open>wcsdup\<close> or \<^verbatim>\<open>SysAllocString\<close> are the one
    family of branches the model leaves out.
\<close>

subsection \<open>Result codes, identifiers and flag words\<close>

type_synonym HRESULT = int
type_synonym DISPID = int
type_synonym VARTYPE = "16 word"
type_synonym WORD = "16 word"
type_synonym addr = nat
type_synonym tid_t = nat
type_synonym IID = nat

abbreviation S_OK :: HRESULT where "S_OK \<equiv> 0"
abbreviation S_FALSE :: HRESULT where "S_FALSE \<equiv> 1"
abbreviation E_NOTIMPL :: HRESULT where "E_NOTIMPL \<equiv> 0x80004001 - 0x100000000"
abbreviation E_FAIL :: HRESULT where "E_FAIL \<equiv> 0x80004005 - 0x100000000"
abbreviation E_UNEXPECTED :: HRESULT where "E_UNEXPECTED \<equiv> 0x8000FFFF - 0x100000000"
abbreviation E_ACCESSDENIED :: HRESULT where "E_ACCESSDENIED \<equiv> 0x80070005 - 0x100000000"
abbreviation E_INVALIDARG :: HRESULT where "E_INVALIDARG \<equiv> 0x80070057 - 0x100000000"
abbreviation DISP_E_MEMBERNOTFOUND :: HRESULT where "DISP_E_MEMBERNOTFOUND \<equiv> 0x80020003 - 0x100000000"
abbreviation DISP_E_UNKNOWNNAME :: HRESULT where "DISP_E_UNKNOWNNAME \<equiv> 0x80020006 - 0x100000000"
abbreviation CTL_E_ILLEGALFUNCTIONCALL :: HRESULT where "CTL_E_ILLEGALFUNCTIONCALL \<equiv> 0x800A0005 - 0x100000000"
abbreviation MSHTML_E_INVALID_PROPERTY :: HRESULT where "MSHTML_E_INVALID_PROPERTY \<equiv> 0x800A01B6 - 0x100000000"

definition FAILED :: "HRESULT \<Rightarrow> bool" where
  "FAILED hr = (hr < 0)"

definition SUCCEEDED :: "HRESULT \<Rightarrow> bool" where
  "SUCCEEDED hr = (0 \<le> hr)"

abbreviation DISPID_VALUE :: DISPID where "DISPID_VALUE \<equiv> 0"
abbreviation DISPID_UNKNOWN :: DISPID where "DISPID_UNKNOWN \<equiv> - 1"
abbreviation DISPID_STARTENUM :: DISPID where "DISPID_STARTENUM \<equiv> - 1"
abbreviation DISPID_PROPERTYPUT :: DISPID where "DISPID_PROPERTYPUT \<equiv> - 3"
abbreviation DISPID_DYNPROP_0 :: DISPID where "DISPID_DYNPROP_0 \<equiv> 0x50000000"
abbreviation DISPID_DYNPROP_MAX :: DISPID where "DISPID_DYNPROP_MAX \<equiv> 0x5fffffff"
abbreviation MSHTML_DISPID_CUSTOM_MIN :: DISPID where "MSHTML_DISPID_CUSTOM_MIN \<equiv> 0x60000000"
abbreviation MSHTML_DISPID_CUSTOM_MAX :: DISPID where "MSHTML_DISPID_CUSTOM_MAX \<equiv> 0x6fffffff"

abbreviation DISPATCH_METHOD :: WORD where "DISPATCH_METHOD \<equiv> 1"
abbreviation DISPATCH_PROPERTYGET :: WORD where "DISPATCH_PROPERTYGET \<equiv> 2"
abbreviation DISPATCH_PROPERTYPUT :: WORD where "DISPATCH_PROPERTYPUT \<equiv> 4"
abbreviation DISPATCH_PROPERTYPUTREF :: WORD where "DISPATCH_PROPERTYPUTREF \<equiv> 8"
abbreviation DISPATCH_CONSTRUCT :: WORD where "DISPATCH_CONSTRUCT \<equiv> 0x4000"

abbreviation VT_EMPTY :: VARTYPE where "VT_EMPTY \<equiv> 0"
abbreviation VT_NULL :: VARTYPE where "VT_NULL \<equiv> 1"
abbreviation VT_I2 :: VARTYPE where "VT_I2 \<equiv> 2"
abbreviation VT_I4 :: VARTYPE where "VT_I4 \<equiv> 3"
abbreviation VT_R4 :: VARTYPE where "VT_R4 \<equiv> 4"
abbreviation VT_BSTR :: VARTYPE where "VT_BSTR \<equiv> 8"
abbreviation VT_DISPATCH :: VARTYPE where "VT_DISPATCH \<equiv> 9"
abbreviation VT_BOOL :: VARTYPE where "VT_BOOL \<equiv> 11"
abbreviation VT_VARIANT :: VARTYPE where "VT_VARIANT \<equiv> 12"
abbreviation VT_UNKNOWN :: VARTYPE where "VT_UNKNOWN \<equiv> 13"
abbreviation VT_UI2 :: VARTYPE where "VT_UI2 \<equiv> 18"
abbreviation VT_UI4 :: VARTYPE where "VT_UI4 \<equiv> 19"
abbreviation VT_UI8 :: VARTYPE where "VT_UI8 \<equiv> 21"
abbreviation VT_VOID :: VARTYPE where "VT_VOID \<equiv> 24"
abbreviation VT_PTR :: VARTYPE where "VT_PTR \<equiv> 26"
abbreviation VT_BYREF :: VARTYPE where "VT_BYREF \<equiv> 0x4000"

text \<open>
  The compatibility modes are the enumeration \<^verbatim>\<open>compat_mode_t\<close> of
  \<^verbatim>\<open>mshtml_private.h\<close>, which is not among the sources at hand.
\<close>

type_synonym compat_mode_t = nat

definition COMPAT_MODE_IE8 :: compat_mode_t where
  \<comment> \<open>Modelled from the spec: the enumerator of \<^verbatim>\<open>mshtml_private.h\<close> below which deletion
      is not implemented; its position in the order QUIRKS, IE5, IE7, IE8, IE9, IE10, IE11.\<close>
  "COMPAT_MODE_IE8 = 3"

definition COMPAT_MODE_IE9 :: compat_mode_t where
  \<comment> \<open>Modelled from the spec: the "modern compatibility threshold" of
      \<^verbatim>\<open>mshtml_private.h\<close>, the mode after IE8.\<close>
  "COMPAT_MODE_IE9 = 4"

subsection \<open>Variants and call parameters\<close>

text \<open>
  A \<^verbatim>\<open>VARIANT\<close> is its type tag and the member of the union that was last written.
\<close>

datatype var_union =
    U_NONE
  | U_I4 int
  | U_UI4 nat
  | U_BSTR "string option"
  | U_DISPATCH "addr option"
  | U_BOOL bool
  | U_BYREF addr

record VARIANT =
  vt :: VARTYPE
  un :: var_union

definition V_DISPATCH :: "VARIANT \<Rightarrow> addr option" where
  "V_DISPATCH v = (case un v of U_DISPATCH p \<Rightarrow> p | _ \<Rightarrow> None)"

definition V_UI4 :: "VARIANT \<Rightarrow> nat" where
  "V_UI4 v = (case un v of U_UI4 n \<Rightarrow> n | _ \<Rightarrow> 0)"

definition V_I4 :: "VARIANT \<Rightarrow> int" where
  "V_I4 v = (case un v of U_I4 n \<Rightarrow> n | _ \<Rightarrow> 0)"

definition VariantInit :: VARIANT where
  "VariantInit = \<lparr>vt = VT_EMPTY, un = U_NONE\<rparr>"

record DISPPARAMS =
  rgvarg :: "VARIANT list"
  rgdispidNamedArgs :: "DISPID list"
  cArgs :: nat
  cNamedArgs :: nat

text \<open>
  The caller identity \<^verbatim>\<open>IServiceProvider *caller\<close>: \<open>None\<close> is a null pointer; a
  provider either offers the \<^verbatim>\<open>IVariantChangeType\<close> conversion service or not.
\<close>

type_synonym IVariantChangeType = "VARIANT \<Rightarrow> VARTYPE \<Rightarrow> HRESULT \<times> VARIANT"
type_synonym IServiceProvider = "IVariantChangeType option"

type_synonym dispex_hook_invoke_t =
  "addr \<Rightarrow> WORD \<Rightarrow> DISPPARAMS \<Rightarrow> bool \<Rightarrow> IServiceProvider option \<Rightarrow> HRESULT \<times> VARIANT option"

record func_arg_info_t =
  iid :: IID
  default_value :: VARIANT

record func_info_t =
  func_id :: DISPID
  func_name :: string
  tid :: tid_t
  hook :: "dispex_hook_invoke_t option"
  call_vtbl_off :: int
  put_vtbl_off :: int
  get_vtbl_off :: int
  func_disp_idx :: int
  argc :: nat
  default_value_cnt :: nat
  prop_vt :: VARTYPE
  arg_types :: "VARTYPE list"
  arg_info :: "func_arg_info_t list"

definition IID_NULL :: IID where
  "IID_NULL = 0"

subsection \<open>The collaborators\<close>

record externals =
  QueryInterface_tid :: "addr \<Rightarrow> tid_t \<Rightarrow> HRESULT \<times> addr option"
  QueryInterface_iid :: "addr \<Rightarrow> IID \<Rightarrow> HRESULT \<times> addr option"
  get_dispex_for_hook :: "addr \<Rightarrow> addr option"
  get_typeinfo :: "tid_t \<Rightarrow> HRESULT"
  ITypeInfo_Invoke :: "tid_t \<Rightarrow> addr \<Rightarrow> DISPID \<Rightarrow> WORD \<Rightarrow> DISPPARAMS \<Rightarrow> HRESULT \<times> VARIANT option"
  VariantChangeType :: "VARIANT \<Rightarrow> VARTYPE \<Rightarrow> HRESULT \<times> VARIANT"
  DispCallFunc :: "addr \<Rightarrow> int \<Rightarrow> VARTYPE list \<Rightarrow> VARIANT list \<Rightarrow> HRESULT \<times> HRESULT \<times> var_union"
  vtbl_put :: "addr \<Rightarrow> int \<Rightarrow> VARIANT \<Rightarrow> HRESULT"
  QueryInterface_IDispatchEx :: "addr \<Rightarrow> HRESULT \<times> addr option"
  IDispatchEx_GetDispID :: "addr \<Rightarrow> string \<Rightarrow> 32 word \<Rightarrow> HRESULT \<times> DISPID"
  IDispatch_GetIDsOfNames :: "addr \<Rightarrow> string \<Rightarrow> HRESULT \<times> DISPID"
  IDispatchEx_InvokeEx :: "addr \<Rightarrow> DISPID \<Rightarrow> WORD \<Rightarrow> DISPPARAMS option \<Rightarrow> IServiceProvider option \<Rightarrow> HRESULT \<times> VARIANT"
  IDispatch_Invoke :: "addr \<Rightarrow> DISPID \<Rightarrow> WORD \<Rightarrow> DISPPARAMS option \<Rightarrow> HRESULT \<times> VARIANT"
  deref_IDispatch :: "addr \<Rightarrow> addr option"
  VariantCopy :: "VARIANT \<Rightarrow> HRESULT \<times> VARIANT"
  invoke_disp_value :: "addr \<Rightarrow> addr option \<Rightarrow> WORD \<Rightarrow> DISPPARAMS \<Rightarrow> IServiceProvider option \<Rightarrow> HRESULT \<times> VARIANT option"
  invoke_builtin_prop :: "addr \<Rightarrow> DISPID \<Rightarrow> WORD \<Rightarrow> DISPPARAMS \<Rightarrow> IServiceProvider option \<Rightarrow> HRESULT \<times> VARIANT option"

text \<open>
  \<open>QueryInterface_tid env obj t\<close> is \<^verbatim>\<open>IDispatch_QueryInterface(obj, tid_ids[t], &iface)\<close>;
  \<open>DispCallFunc env iface off types args\<close> is the call through the vtable slot \<open>off\<close>
  with the arguments \<open>args\<close>: it returns the result of \<^verbatim>\<open>DispCallFunc\<close> itself, the
  \<^verbatim>\<open>HRESULT\<close> of the called method and what the method stored through the return
  reference. \<open>vtbl_put env iface off v\<close> is the call of the setter in slot \<open>off\<close>.
  The members from \<open>QueryInterface_IDispatchEx\<close> on are the methods of a foreign
  dispatch object, each a function of the object and of the arguments of the call;
  \<open>deref_IDispatch\<close> reads the interface pointer a \<^verbatim>\<open>VT_BYREF\<close> argument points to.
  \<open>VariantCopy env src\<close> is the result of \<^verbatim>\<open>VariantCopy(dest, src)\<close> and what it leaves in
  \<^verbatim>\<open>dest\<close>. The last two members are the calls \<^verbatim>\<open>dispex_invoke\<close> hands a callable value
  and a builtin member to; they are not translated.
\<close>

subsection \<open>Type coercion\<close>

definition change_type :: "externals \<Rightarrow> VARIANT \<Rightarrow> VARTYPE \<Rightarrow> IServiceProvider option \<Rightarrow> HRESULT \<times> VARIANT" where
  "change_type env src t caller =
     (let by_caller =
            (case caller of
               None \<Rightarrow> None
             | Some None \<Rightarrow> None
             | Some (Some ct) \<Rightarrow> (if SUCCEEDED (fst (ct src t)) then Some (snd (ct src t)) else None))
      in case by_caller of
           Some dst \<Rightarrow> (S_OK, dst)
         | None \<Rightarrow>
             if t = VT_BOOL \<and> vt src = VT_BSTR
             then (S_OK, \<lparr>vt = VT_BOOL,
                          un = U_BOOL (case un src of U_BSTR (Some s) \<Rightarrow> s \<noteq> [] | _ \<Rightarrow> False)\<rparr>)
             else if (t = VT_UNKNOWN \<or> t = VT_DISPATCH) \<and> (vt src = VT_EMPTY \<or> vt src = VT_NULL)
             then (S_OK, \<lparr>vt = t, un = U_DISPATCH None\<rparr>)
             else VariantChangeType env src t)"

subsection \<open>Calling a builtin method\<close>

definition typeinfo_invoke :: "externals \<Rightarrow> addr \<Rightarrow> func_info_t \<Rightarrow> WORD \<Rightarrow> DISPPARAMS \<Rightarrow> HRESULT \<times> VARIANT option" where
  "typeinfo_invoke env iface func flags dp =
     (let params = (if cArgs dp > argc func
                    then \<lparr>rgvarg = drop (cArgs dp - argc func) (rgvarg dp), rgdispidNamedArgs = [],
                          cArgs = argc func, cNamedArgs = 0\<rparr>
                    else \<lparr>rgvarg = rgvarg dp, rgdispidNamedArgs = [], cArgs = cArgs dp, cNamedArgs = 0\<rparr>)
      in if FAILED (get_typeinfo env (tid func)) then (get_typeinfo env (tid func), None)
         else ITypeInfo_Invoke env (tid func) iface (func_id func) flags params)"

text \<open>
  One round of the argument loop of \<^verbatim>\<open>invoke_builtin_function\<close>, for the position \<open>i\<close>:
  the default value when the caller supplied no argument there, else the argument
  \<^verbatim>\<open>dp->rgvarg + dp->cArgs - i - 1\<close>, coerced when its tag differs from the declared one and
  narrowed when the parameter names an interface. \<open>Inl\<close> is the \<^verbatim>\<open>break\<close> with a failure.
\<close>

definition convert_arg :: "externals \<Rightarrow> func_info_t \<Rightarrow> DISPPARAMS \<Rightarrow> IServiceProvider option \<Rightarrow> nat \<Rightarrow> HRESULT + VARIANT" where
  "convert_arg env func dp caller i =
     (if i \<ge> cArgs dp then Inr (default_value (arg_info func ! i))
      else
        let arg = rgvarg dp ! (cArgs dp - i - 1);
            conv = (if arg_types func ! i = vt arg then (S_OK, arg)
                    else change_type env arg (arg_types func ! i) caller)
        in if FAILED (fst conv) then Inl (fst conv)
           else
             let a = snd conv
             in if arg_types func ! i = VT_DISPATCH \<and> iid (arg_info func ! i) \<noteq> IID_NULL
                   \<and> V_DISPATCH a \<noteq> None
                then (case QueryInterface_iid env (the (V_DISPATCH a)) (iid (arg_info func ! i)) of
                        (hres, iface) \<Rightarrow>
                          if FAILED hres then Inl hres else Inr (a\<lparr>un := U_DISPATCH iface\<rparr>))
                else Inr a)"

fun arg_loop :: "externals \<Rightarrow> func_info_t \<Rightarrow> DISPPARAMS \<Rightarrow> IServiceProvider option \<Rightarrow> nat list \<Rightarrow> HRESULT + VARIANT list" where
  "arg_loop env func dp caller [] = Inr []"
| "arg_loop env func dp caller (i # rest) =
     (case convert_arg env func dp caller i of
        Inl hres \<Rightarrow> Inl hres
      | Inr a \<Rightarrow> (case arg_loop env func dp caller rest of
                    Inl hres \<Rightarrow> Inl hres
                  | Inr as \<Rightarrow> Inr (a # as)))"

definition is_arg_type_supported :: "VARTYPE \<Rightarrow> bool" where
  "is_arg_type_supported t =
     (t = VT_I2 \<or> t = VT_UI2 \<or> t = VT_I4 \<or> t = VT_UI4 \<or> t = VT_R4 \<or> t = VT_BSTR
      \<or> t = VT_DISPATCH \<or> t = VT_BOOL)"

text \<open>
  The call itself and what becomes of its result. \<open>res\<close> tells whether the caller passed
  a result slot. The \<^verbatim>\<open>assert(0)\<close> on a return type outside the supported ones is the
  result \<open>None\<close>: the function does not return there.
\<close>

definition call_native :: "externals \<Rightarrow> addr \<Rightarrow> func_info_t \<Rightarrow> VARIANT list \<Rightarrow> bool \<Rightarrow> (HRESULT \<times> VARIANT option) option" where
  "call_native env iface func args res =
     (if prop_vt func \<noteq> VT_VOID \<and> prop_vt func \<noteq> VT_PTR \<and> \<not> is_arg_type_supported (prop_vt func)
      then None
      else
        let ret_vt = (if prop_vt func = VT_VOID then VT_EMPTY
                      else if prop_vt func = VT_PTR then VT_DISPATCH else prop_vt func)
        in case DispCallFunc env iface (call_vtbl_off func) (arg_types func) args of
             (hres, vhres, ret) \<Rightarrow>
               if FAILED hres then Some (hres, None)
               else if FAILED vhres then Some (vhres, None)
               else Some (vhres, if res then Some \<lparr>vt = ret_vt, un = ret\<rparr> else None))"

definition invoke_builtin_function :: "externals \<Rightarrow> addr \<Rightarrow> func_info_t \<Rightarrow> DISPPARAMS \<Rightarrow> bool \<Rightarrow> IServiceProvider option \<Rightarrow> (HRESULT \<times> VARIANT option) option" where
  "invoke_builtin_function env this_obj func dp res caller =
     (case QueryInterface_tid env this_obj (tid func) of
        (hres0, iface_opt) \<Rightarrow>
          if FAILED hres0 \<or> iface_opt = None then Some (E_UNEXPECTED, None)
          else
            let iface = the iface_opt;
                hooked = (case hook func of
                            None \<Rightarrow> None
                          | Some hk \<Rightarrow>
                              (case get_dispex_for_hook env iface of
                                 None \<Rightarrow> None
                               | Some dispex \<Rightarrow>
                                   (let r = hk dispex DISPATCH_METHOD dp res caller
                                    in if fst r \<noteq> S_FALSE then Some r else None)))
            in case hooked of
                 Some r \<Rightarrow> Some r
               | None \<Rightarrow>
                   if call_vtbl_off func = 0
                   then Some (typeinfo_invoke env iface func DISPATCH_METHOD dp)
                   else if (cArgs dp + default_value_cnt func) mod 2 ^ 32 < argc func
                   then Some (E_INVALIDARG, None)
                   else (case arg_loop env func dp caller [0 ..< argc func] of
                           Inl hres \<Rightarrow> Some (hres, None)
                         | Inr args \<Rightarrow> call_native env iface func args res))"

text \<open>
  The supplied arguments need neither coercion nor narrowing: each has the declared type
  tag, and an object argument whose parameter names an interface is a null reference.
\<close>

definition supplied_as_declared :: "func_info_t \<Rightarrow> DISPPARAMS \<Rightarrow> bool" where
  "supplied_as_declared func dp =
     (\<forall>i < cArgs dp. i < argc func \<longrightarrow>
        arg_types func ! i = vt (rgvarg dp ! (cArgs dp - i - 1)) \<and>
        (arg_types func ! i = VT_DISPATCH \<longrightarrow>
           iid (arg_info func ! i) = IID_NULL \<or> V_DISPATCH (rgvarg dp ! (cArgs dp - i - 1)) = None))"

subsection \<open>A concrete class: Widget\<close>

text \<open>
  The class of the specification's scenario, with one reflected method
  \<^verbatim>\<open>area(w, h, mode = 0)\<close>. \<open>positional\<close> builds the \<^verbatim>\<open>DISPPARAMS\<close> of a call from its
  arguments in call order: \<^verbatim>\<open>rgvarg\<close> holds them last to first.
\<close>

definition I4 :: "int \<Rightarrow> VARIANT" where
  "I4 n = \<lparr>vt = VT_I4, un = U_I4 n\<rparr>"

definition area_func :: func_info_t where
  "area_func =
     \<lparr>func_id = 1, func_name = ''area'', tid = 5, hook = None,
      call_vtbl_off = 7, put_vtbl_off = 0, get_vtbl_off = 0, func_disp_idx = 0,
      argc = 3, default_value_cnt = 1, prop_vt = VT_I4,
      arg_types = [VT_I4, VT_I4, VT_I4, VT_BYREF OR VT_I4],
      arg_info = [\<lparr>iid = IID_NULL, default_value = VariantInit\<rparr>,
                  \<lparr>iid = IID_NULL, default_value = VariantInit\<rparr>,
                  \<lparr>iid = IID_NULL, default_value = I4 0\<rparr>]\<rparr>"

definition widget_env :: externals where
  "widget_env =
     \<lparr>QueryInterface_tid = (\<lambda>obj t. (S_OK, Some obj)),
      QueryInterface_iid = (\<lambda>obj i. (E_FAIL, None)),
      get_dispex_for_hook = (\<lambda>iface. None),
      get_typeinfo = (\<lambda>t. S_OK),
      ITypeInfo_Invoke = (\<lambda>t iface memid flags dp. (E_NOTIMPL, None)),
      VariantChangeType = (\<lambda>src t. if vt src = VT_EMPTY \<and> t = VT_I4 then (S_OK, I4 0) else (E_FAIL, src)),
      DispCallFunc = (\<lambda>iface off types args. (S_OK, S_OK, U_I4 (V_I4 (args ! 0) * V_I4 (args ! 1)))),
      vtbl_put = (\<lambda>iface off v. S_OK),
      QueryInterface_IDispatchEx = (\<lambda>disp. (E_FAIL, None)),
      IDispatchEx_GetDispID = (\<lambda>disp name grfdex. (DISP_E_UNKNOWNNAME, DISPID_UNKNOWN)),
      IDispatch_GetIDsOfNames = (\<lambda>disp name. (DISP_E_UNKNOWNNAME, DISPID_UNKNOWN)),
      IDispatchEx_InvokeEx = (\<lambda>disp dispid flags dp caller. (DISP_E_MEMBERNOTFOUND, VariantInit)),
      IDispatch_Invoke = (\<lambda>disp dispid flags dp. (DISP_E_MEMBERNOTFOUND, VariantInit)),
      deref_IDispatch = (\<lambda>p. None),
      VariantCopy = (\<lambda>src. (S_OK, src)),
      invoke_disp_value = (\<lambda>this_obj func_disp flags dp caller. (E_NOTIMPL, None)),
      invoke_builtin_prop = (\<lambda>this_obj dispid flags dp caller. (DISP_E_MEMBERNOTFOUND, None))\<rparr>"

definition positional :: "VARIANT list \<Rightarrow> DISPPARAMS" where
  "positional args = \<lparr>rgvarg = rev args, rgdispidNamedArgs = [], cArgs = length args, cNamedArgs = 0\<rparr>"

subsection \<open>Strings\<close>

text \<open>
  \<^verbatim>\<open>!wcsicmp(a, b)\<close>, the comparison that ignores letter case, on the letters A to Z.
\<close>

definition towlower :: "char \<Rightarrow> char" where
  "towlower c =
     (let n = (of_char c :: nat) in if 65 \<le> n \<and> n \<le> 90 then char_of (n + 32) else c)"

definition wcsicmp_eq :: "string \<Rightarrow> string \<Rightarrow> bool" where
  "wcsicmp_eq a b = (map towlower a = map towlower b)"

type_synonym DWORD = "32 word"

abbreviation fdexNameCaseSensitive :: DWORD where "fdexNameCaseSensitive \<equiv> 1"
abbreviation fdexNameEnsure :: DWORD where "fdexNameEnsure \<equiv> 2"
abbreviation fdexNameCaseInsensitive :: DWORD where "fdexNameCaseInsensitive \<equiv> 8"

subsection \<open>Objects\<close>

text \<open>
  The flag word of a dynamic property only ever holds the three bits the file defines,
  so it is the set of the bits that are on: \<^verbatim>\<open>flags & X\<close> is membership,
  \<^verbatim>\<open>flags |= X\<close> an insertion, \<^verbatim>\<open>flags &= ~X\<close> a removal and \<^verbatim>\<open>flags = X\<close> the singleton.
\<close>

datatype dynprop_flag = DYNPROP_DELETED | DYNPROP_HIDDEN | DYNPROP_PROTREF

record dynamic_prop_t =
  var :: VARIANT
  prop_name :: string
  flags :: "dynprop_flag set"

text \<open>
  \<open>props\<close> is the used part of the buffer, so \<^verbatim>\<open>prop_cnt\<close> is its length; \<open>buf_size\<close>
  is the capacity.
\<close>

record dispex_dynamic_data_t =
  buf_size :: nat
  props :: "dynamic_prop_t list"

definition prop_cnt :: "dispex_dynamic_data_t \<Rightarrow> nat" where
  "prop_cnt d = length (props d)"

text \<open>
  The hooks of a class (\<^verbatim>\<open>dispex_static_data_vtbl_t\<close>), as far as the functions below
  call them; \<open>None\<close> is a null function pointer.
\<close>

record dispex_static_data_vtbl_t =
  get_compat_mode :: "compat_mode_t option"
  populate_props :: "(dispex_dynamic_data_t \<Rightarrow> dispex_dynamic_data_t) option"
  next_dispid :: "(DISPID \<Rightarrow> HRESULT \<times> DISPID) option"
  delete_hook :: "(DISPID \<Rightarrow> HRESULT) option"
  invoke_hook :: "(addr \<Rightarrow> DISPID \<Rightarrow> WORD \<Rightarrow> DISPPARAMS \<Rightarrow> bool \<Rightarrow> IServiceProvider option \<Rightarrow> HRESULT \<times> VARIANT option) option"
  value_hook :: "(WORD \<Rightarrow> DISPPARAMS \<Rightarrow> bool \<Rightarrow> IServiceProvider option \<Rightarrow> HRESULT \<times> VARIANT option) option"

record dispex_data_t =
  vtbl :: "dispex_static_data_vtbl_t option"
  compat_mode :: compat_mode_t
  funcs :: "func_info_t list"
  func_size :: nat
  name_table :: "nat list"
  func_disp_cnt :: nat

text \<open>
  \<open>funcs\<close> is the used part of the member array, so \<^verbatim>\<open>func_cnt\<close> is its length and
  \<open>func_size\<close> the capacity; an entry of \<open>name_table\<close> is an index into \<open>funcs\<close>.
\<close>

definition func_cnt :: "dispex_data_t \<Rightarrow> nat" where
  "func_cnt d = length (funcs d)"

text \<open>
  What a proxy answers where the code forwards to it or asks its prototype.
\<close>

record proxy_t =
  proxy_GetNextDispID :: "DISPID \<Rightarrow> HRESULT \<times> DISPID"
  proxy_builtin_func :: "DISPID \<Rightarrow> HRESULT \<times> nat option"

text \<open>
  \<open>info_is_delayed\<close> tells that \<^verbatim>\<open>info\<close> still is the placeholder
  \<^verbatim>\<open>desc->delayed_init_info\<close>.
\<close>

record DispatchEx =
  info :: dispex_data_t
  info_is_delayed :: bool
  proxy :: "proxy_t option"
  prototype :: "addr option"
  dynamic_data :: "dispex_dynamic_data_t option"

definition dispex_compat_mode :: "DispatchEx \<Rightarrow> compat_mode_t" where
  "dispex_compat_mode dispex =
     (if \<not> info_is_delayed dispex then compat_mode (info dispex)
      else the (get_compat_mode (the (vtbl (info dispex)))))"

subsection \<open>Property put\<close>

definition BUILTIN_TYPES :: "VARTYPE \<Rightarrow> bool" where
  "BUILTIN_TYPES t =
     (is_arg_type_supported t \<or> t = VT_VARIANT \<or> t = VT_PTR \<or> t = VT_UNKNOWN \<or> t = VT_UI8)"

definition builtin_propput :: "externals \<Rightarrow> DispatchEx \<Rightarrow> addr \<Rightarrow> func_info_t \<Rightarrow> DISPPARAMS \<Rightarrow> IServiceProvider option \<Rightarrow> HRESULT" where
  "builtin_propput env This iface func dp caller =
     (if cArgs dp \<noteq> 1
         \<or> (cNamedArgs dp = 1 \<and> rgdispidNamedArgs dp ! 0 \<noteq> DISPID_PROPERTYPUT)
         \<or> cNamedArgs dp > 1
      then E_INVALIDARG
      else if put_vtbl_off func = 0
      then (if dispex_compat_mode This \<ge> COMPAT_MODE_IE9 then S_OK else E_FAIL)
      else
        let v = rgvarg dp ! 0;
            conv = (if prop_vt func \<noteq> VT_VARIANT \<and> vt v \<noteq> prop_vt func
                    then change_type env v (prop_vt func) caller else (S_OK, v))
        in if FAILED (fst conv) then fst conv
           else if BUILTIN_TYPES (prop_vt func)
           then vtbl_put env iface (put_vtbl_off func) (snd conv)
           else E_NOTIMPL)"

subsection \<open>Function objects\<close>

text \<open>
  In \<^verbatim>\<open>func_disp_t\<close> the fields \<^verbatim>\<open>obj\<close> and \<^verbatim>\<open>idx\<close> share storage: \<^verbatim>\<open>obj\<close> is read when
  \<^verbatim>\<open>info\<close> is set and \<^verbatim>\<open>idx\<close> when it is not. The record keeps the two apart.
\<close>

record func_disp_t =
  obj :: "addr option"
  idx :: nat
  finfo :: "func_info_t option"

definition function_prop_names :: "string list" where
  "function_prop_names = [''apply'', ''call'']"

definition func_prefixW :: string where
  "func_prefixW = [CHR 0x0A] @ ''function ''"

definition func_suffixW :: string where
  "func_suffixW = ''() {'' @ [CHR 0x0A] @ ''    [native code]'' @ [CHR 0x0A] @ ''}'' @ [CHR 0x0A]"

definition function_value :: "externals \<Rightarrow> func_disp_t \<Rightarrow> WORD \<Rightarrow> DISPPARAMS \<Rightarrow> bool \<Rightarrow> IServiceProvider option \<Rightarrow> (HRESULT \<times> VARIANT option) option" where
  "function_value env This wFlags params res caller =
     (if wFlags = DISPATCH_CONSTRUCT then Some (MSHTML_E_INVALID_PROPERTY, None)
      else if wFlags = (DISPATCH_METHOD OR DISPATCH_PROPERTYGET) \<and> \<not> res then Some (E_INVALIDARG, None)
      else if wFlags = (DISPATCH_METHOD OR DISPATCH_PROPERTYGET) \<or> wFlags = DISPATCH_METHOD
      then (case finfo This of
              None \<Rightarrow> Some (MSHTML_E_INVALID_PROPERTY, None)
            | Some fi \<Rightarrow>
                (case obj This of
                   None \<Rightarrow> Some (E_UNEXPECTED, None)
                 | Some target \<Rightarrow> invoke_builtin_function env target fi params res caller))
      else if wFlags = DISPATCH_PROPERTYGET
      then (if caller = None then Some (E_ACCESSDENIED, None)
            else
              let name = (case finfo This of
                            Some fi \<Rightarrow> func_name fi
                          | None \<Rightarrow> function_prop_names ! idx This)
              in if \<not> res then None
                 else Some (S_OK, Some \<lparr>vt = VT_BSTR, un = U_BSTR (Some (func_prefixW @ name @ func_suffixW))\<rparr>))
      else Some (E_NOTIMPL, None))"

fun function_get_dispid_loop :: "string \<Rightarrow> DWORD \<Rightarrow> nat \<Rightarrow> string list \<Rightarrow> HRESULT \<times> DISPID option" where
  "function_get_dispid_loop name grfdex i [] = (DISP_E_UNKNOWNNAME, None)"
| "function_get_dispid_loop name grfdex i (p # ps) =
     (if (if grfdex AND fdexNameCaseInsensitive \<noteq> 0 then \<not> wcsicmp_eq name p else name \<noteq> p)
      then function_get_dispid_loop name grfdex (Suc i) ps
      else (S_OK, Some (MSHTML_DISPID_CUSTOM_MIN + int i)))"

definition function_get_dispid :: "func_disp_t \<Rightarrow> string \<Rightarrow> DWORD \<Rightarrow> HRESULT \<times> DISPID option" where
  "function_get_dispid This name grfdex =
     (if finfo This = None then (DISP_E_UNKNOWNNAME, None)
      else function_get_dispid_loop name grfdex 0 function_prop_names)"

definition function_get_name :: "func_disp_t \<Rightarrow> DISPID \<Rightarrow> HRESULT \<times> string option" where
  "function_get_name This dispid =
     (let i = nat ((dispid - MSHTML_DISPID_CUSTOM_MIN) mod 2 ^ 32)
      in if i \<ge> length function_prop_names \<or> finfo This = None then (DISP_E_MEMBERNOTFOUND, None)
         else (S_OK, Some (function_prop_names ! i)))"

text \<open>
  The Widget class has a read-only property \<^verbatim>\<open>count\<close> next to its method; \<open>widget m\<close> is
  an instance in compatibility mode \<open>m\<close>, \<open>area_disp\<close> the function object of the method
  and \<open>apply_disp\<close> the object behind the \<^verbatim>\<open>apply\<close> member of a function object.
\<close>

definition count_func :: func_info_t where
  "count_func =
     \<lparr>func_id = 2, func_name = ''count'', tid = 5, hook = None,
      call_vtbl_off = 0, put_vtbl_off = 0, get_vtbl_off = 8, func_disp_idx = - 1,
      argc = 0, default_value_cnt = 0, prop_vt = VT_I4,
      arg_types = [], arg_info = []\<rparr>"

definition widget_info :: "compat_mode_t \<Rightarrow> dispex_data_t" where
  "widget_info m =
     \<lparr>vtbl = None, compat_mode = m, funcs = [area_func, count_func], func_size = 2,
      name_table = [0, 1], func_disp_cnt = 1\<rparr>"

definition widget :: "compat_mode_t \<Rightarrow> DispatchEx" where
  "widget m =
     \<lparr>info = widget_info m, info_is_delayed = False, proxy = None, prototype = None,
      dynamic_data = None\<rparr>"

definition put_params :: "VARIANT \<Rightarrow> DISPPARAMS" where
  "put_params v = \<lparr>rgvarg = [v], rgdispidNamedArgs = [DISPID_PROPERTYPUT], cArgs = 1, cNamedArgs = 1\<rparr>"

definition area_disp :: func_disp_t where
  "area_disp = \<lparr>obj = Some 1, idx = 0, finfo = Some area_func\<rparr>"

definition apply_disp :: func_disp_t where
  "apply_disp = \<lparr>obj = None, idx = 0, finfo = None\<rparr>"

subsection \<open>The apply member of a function object\<close>

text \<open>
  \<open>utoa i\<close> is what \<^verbatim>\<open>swprintf(buf, ARRAY_SIZE(buf), L"%u", i)\<close> writes.
\<close>

function utoa :: "nat \<Rightarrow> string" where
  "utoa n = (if n < 10 then [char_of (48 + n)] else utoa (n div 10) @ [char_of (48 + n mod 10)])"
  by pat_completeness auto
termination
  by (relation "measure id") auto

declare utoa.simps [simp del]

text \<open>
  The two ways \<^verbatim>\<open>function_apply\<close> talks to the array-like object, through
  \<^verbatim>\<open>IDispatchEx\<close> when the object has it and through \<^verbatim>\<open>IDispatch\<close> otherwise.
\<close>

definition array_GetDispID :: "externals \<Rightarrow> addr \<Rightarrow> addr option \<Rightarrow> string \<Rightarrow> HRESULT \<times> DISPID" where
  "array_GetDispID env disp dispex name =
     (case dispex of
        Some ex \<Rightarrow> IDispatchEx_GetDispID env ex name fdexNameCaseSensitive
      | None \<Rightarrow> IDispatch_GetIDsOfNames env disp name)"

definition array_Invoke :: "externals \<Rightarrow> addr \<Rightarrow> addr option \<Rightarrow> DISPID \<Rightarrow> DISPPARAMS option \<Rightarrow> IServiceProvider option \<Rightarrow> HRESULT \<times> VARIANT" where
  "array_Invoke env disp dispex dispid params caller =
     (case dispex of
        Some ex \<Rightarrow> IDispatchEx_InvokeEx env ex dispid DISPATCH_PROPERTYGET params caller
      | None \<Rightarrow> IDispatch_Invoke env disp dispid DISPATCH_PROPERTYGET params)"

text \<open>
  The loop that fetches the elements, in index order. \<open>Inl\<close> is a \<^verbatim>\<open>break\<close> with the
  failure in \<^verbatim>\<open>hres\<close>.
\<close>

fun apply_args :: "externals \<Rightarrow> addr \<Rightarrow> addr option \<Rightarrow> IServiceProvider option \<Rightarrow> nat list \<Rightarrow> HRESULT + VARIANT list" where
  "apply_args env disp dispex caller [] = Inr []"
| "apply_args env disp dispex caller (i # rest) =
     (case array_GetDispID env disp dispex (utoa i) of
        (hres, dispid) \<Rightarrow>
          if FAILED hres
          then (if hres = DISP_E_UNKNOWNNAME
                then (case apply_args env disp dispex caller rest of
                        Inl e \<Rightarrow> Inl e
                      | Inr as \<Rightarrow> Inr (\<lparr>vt = VT_EMPTY, un = U_NONE\<rparr> # as))
                else Inl CTL_E_ILLEGALFUNCTIONCALL)
          else (case array_Invoke env disp dispex dispid None caller of
                  (hres', v) \<Rightarrow>
                    if FAILED hres' then Inl hres'
                    else (case apply_args env disp dispex caller rest of
                            Inl e \<Rightarrow> Inl e
                          | Inr as \<Rightarrow> Inr (v # as))))"

definition unexpected_is_illegal :: "HRESULT \<Rightarrow> HRESULT" where
  "unexpected_is_illegal hres = (if hres = E_UNEXPECTED then CTL_E_ILLEGALFUNCTIONCALL else hres)"

text \<open>
  \<^verbatim>\<open>function_apply\<close>. The last entry of \<^verbatim>\<open>rgvarg\<close> is the target, the one before it the
  array-like object. The result \<open>None\<close> stands for the runs that do not return: the
  function reads \<^verbatim>\<open>res\<close> and the array object without testing them for \<^verbatim>\<open>NULL\<close>.
\<close>

definition function_apply :: "externals \<Rightarrow> func_disp_t \<Rightarrow> DISPPARAMS \<Rightarrow> bool \<Rightarrow> IServiceProvider option \<Rightarrow> (HRESULT \<times> VARIANT option) option" where
  "function_apply env func dp res caller =
     (if cArgs dp < 1 \<or> vt (rgvarg dp ! (cArgs dp - 1)) \<noteq> VT_DISPATCH
         \<or> V_DISPATCH (rgvarg dp ! (cArgs dp - 1)) = None
      then Some (CTL_E_ILLEGALFUNCTIONCALL, None)
      else
        let this_obj = the (V_DISPATCH (rgvarg dp ! (cArgs dp - 1)));
            call = (\<lambda>params.
                      case finfo func of
                        None \<Rightarrow> None
                      | Some fi \<Rightarrow>
                          map_option (\<lambda>r. (unexpected_is_illegal (fst r), snd r))
                            (invoke_builtin_function env this_obj fi params res caller))
        in if cArgs dp \<ge> 2
           then
             let arg = rgvarg dp ! (cArgs dp - 2)
             in if vt arg AND NOT VT_BYREF \<noteq> VT_DISPATCH then Some (CTL_E_ILLEGALFUNCTIONCALL, None)
                else
                  (case (if vt arg AND VT_BYREF \<noteq> 0
                         then (case un arg of U_BYREF p \<Rightarrow> deref_IDispatch env p | _ \<Rightarrow> None)
                         else V_DISPATCH arg) of
                     None \<Rightarrow> None
                   | Some disp \<Rightarrow>
                       let qi = QueryInterface_IDispatchEx env disp;
                           dispex = (if SUCCEEDED (fst qi) then snd qi else None);
                           len_id = array_GetDispID env disp dispex ''length''
                       in if FAILED (fst len_id) \<or> snd len_id = DISPID_UNKNOWN
                          then Some (CTL_E_ILLEGALFUNCTIONCALL, None)
                          else
                            let len = array_Invoke env disp dispex (snd len_id)
                                        (Some \<lparr>rgvarg = [], rgdispidNamedArgs = [], cArgs = 0, cNamedArgs = 0\<rparr>)
                                        caller
                            in if FAILED (fst len) then Some (unexpected_is_illegal (fst len), None)
                               else if \<not> res then None
                               else
                                 let conv = (if vt (snd len) = VT_I4 then (fst len, snd len)
                                             else change_type env (snd len) VT_I4 caller)
                                 in if FAILED (fst conv) \<or> V_I4 (snd conv) < 0
                                    then Some (CTL_E_ILLEGALFUNCTIONCALL, None)
                                    else
                                      let n = nat (V_I4 (snd conv))
                                      in (case apply_args env disp dispex caller [0 ..< n] of
                                            Inl hres \<Rightarrow> Some (unexpected_is_illegal hres, None)
                                          | Inr args \<Rightarrow>
                                              call \<lparr>rgvarg = rev args, rgdispidNamedArgs = [],
                                                    cArgs = n, cNamedArgs = 0\<rparr>))
           else call \<lparr>rgvarg = [], rgdispidNamedArgs = [], cArgs = 0, cNamedArgs = 0\<rparr>)"

text \<open>
  What \<^verbatim>\<open>function_apply\<close> forwards for the index \<open>i\<close> of an array-like object whose
  elements can be read: an empty variant when the object does not know the name, the value
  of the property otherwise.
\<close>

definition array_item :: "externals \<Rightarrow> addr \<Rightarrow> addr option \<Rightarrow> IServiceProvider option \<Rightarrow> nat \<Rightarrow> VARIANT" where
  "array_item env disp dispex caller i =
     (if fst (array_GetDispID env disp dispex (utoa i)) = DISP_E_UNKNOWNNAME
      then \<lparr>vt = VT_EMPTY, un = U_NONE\<rparr>
      else snd (array_Invoke env disp dispex (snd (array_GetDispID env disp dispex (utoa i))) None caller))"

definition item_readable :: "externals \<Rightarrow> addr \<Rightarrow> addr option \<Rightarrow> IServiceProvider option \<Rightarrow> nat \<Rightarrow> bool" where
  "item_readable env disp dispex caller i =
     (fst (array_GetDispID env disp dispex (utoa i)) = DISP_E_UNKNOWNNAME
      \<or> (\<not> FAILED (fst (array_GetDispID env disp dispex (utoa i)))
         \<and> \<not> FAILED (fst (array_Invoke env disp dispex
                              (snd (array_GetDispID env disp dispex (utoa i))) None caller))))"

text \<open>
  An array-like object for the Widget scenario, reached through \<^verbatim>\<open>IDispatch\<close> only: it has
  the elements 0 and 1 and answers \<open>len_result\<close> when its length is read.
\<close>

definition IDISPATCH :: "addr \<Rightarrow> VARIANT" where
  "IDISPATCH p = \<lparr>vt = VT_DISPATCH, un = U_DISPATCH (Some p)\<rparr>"

definition array_env :: "HRESULT \<times> VARIANT \<Rightarrow> externals" where
  "array_env len_result =
     widget_env
       \<lparr>IDispatch_GetIDsOfNames :=
          (\<lambda>disp name. if name = ''length'' then (S_OK, 100)
                        else if name = ''0'' then (S_OK, 0)
                        else if name = ''1'' then (S_OK, 1)
                        else (DISP_E_UNKNOWNNAME, DISPID_UNKNOWN)),
        IDispatch_Invoke :=
          (\<lambda>disp dispid flags dp. if dispid = 100 then len_result
                                   else if dispid = 0 then (S_OK, I4 3)
                                   else if dispid = 1 then (S_OK, I4 4)
                                   else (DISP_E_MEMBERNOTFOUND, VariantInit))\<rparr>"

subsection \<open>The dynamic property store\<close>

text \<open>
  Objects are reached by address. The functions that follow the pointer
  \<^verbatim>\<open>This->prototype\<close> take the store and return the new one; the others work on the
  object alone.
\<close>

type_synonym heap = "addr \<Rightarrow> DispatchEx"

definition is_custom_dispid :: "DISPID \<Rightarrow> bool" where
  "is_custom_dispid dispid = (MSHTML_DISPID_CUSTOM_MIN \<le> dispid \<and> dispid \<le> MSHTML_DISPID_CUSTOM_MAX)"

definition is_dynamic_dispid :: "DISPID \<Rightarrow> bool" where
  "is_dynamic_dispid dispid = (DISPID_DYNPROP_0 \<le> dispid \<and> dispid \<le> DISPID_DYNPROP_MAX)"

datatype dispex_prop_type_t = DISPEXPROP_CUSTOM | DISPEXPROP_DYNAMIC | DISPEXPROP_BUILTIN

definition get_dispid_type :: "DISPID \<Rightarrow> dispex_prop_type_t" where
  "get_dispid_type dispid =
     (if is_dynamic_dispid dispid then DISPEXPROP_DYNAMIC
      else if is_custom_dispid dispid then DISPEXPROP_CUSTOM
      else DISPEXPROP_BUILTIN)"

definition VariantClear :: "VARIANT \<Rightarrow> VARIANT" where
  "VariantClear v = v\<lparr>vt := VT_EMPTY\<rparr>"

definition variant_copy :: "externals \<Rightarrow> VARIANT \<Rightarrow> HRESULT \<times> VARIANT" where
  "variant_copy env src =
     (if vt src = VT_BSTR \<and> un src = U_BSTR None then (S_OK, \<lparr>vt = VT_BSTR, un = U_BSTR None\<rparr>)
      else VariantCopy env src)"

definition get_dynamic_data :: "DispatchEx \<Rightarrow> DispatchEx" where
  "get_dynamic_data This =
     (case dynamic_data This of
        Some d \<Rightarrow> This
      | None \<Rightarrow>
          This\<lparr>dynamic_data :=
                 Some (case vtbl (info This) of
                         None \<Rightarrow> \<lparr>buf_size = 0, props = []\<rparr>
                       | Some v \<Rightarrow> (case populate_props v of
                                      None \<Rightarrow> \<lparr>buf_size = 0, props = []\<rparr>
                                    | Some populate \<Rightarrow> populate \<lparr>buf_size = 0, props = []\<rparr>))\<rparr>)"

definition the_props :: "DispatchEx \<Rightarrow> dynamic_prop_t list" where
  "the_props This = (case dynamic_data This of None \<Rightarrow> [] | Some d \<Rightarrow> props d)"

definition update_prop :: "heap \<Rightarrow> addr \<Rightarrow> nat \<Rightarrow> (dynamic_prop_t \<Rightarrow> dynamic_prop_t) \<Rightarrow> heap" where
  "update_prop h a i f =
     h(a := (h a)\<lparr>dynamic_data :=
                    map_option (\<lambda>d. d\<lparr>props := (props d)[i := f (props d ! i)]\<rparr>) (dynamic_data (h a))\<rparr>)"

definition name_matches :: "DWORD \<Rightarrow> string \<Rightarrow> string \<Rightarrow> bool" where
  "name_matches grfdex pname name =
     (if grfdex AND fdexNameCaseInsensitive \<noteq> 0 then wcsicmp_eq pname name else pname = name)"

text \<open>The scan of \<^verbatim>\<open>get_dynamic_prop\<close>: the index of the first property whose name matches.\<close>

fun find_prop :: "DWORD \<Rightarrow> string \<Rightarrow> dynamic_prop_t list \<Rightarrow> nat option" where
  "find_prop grfdex name [] = None"
| "find_prop grfdex name (p # ps) =
     (if name_matches grfdex (prop_name p) name then Some 0
      else map_option Suc (find_prop grfdex name ps))"

text \<open>
  Appending a property: the buffer starts with room for four and doubles when full.
\<close>

definition append_prop :: "dispex_dynamic_data_t \<Rightarrow> dynamic_prop_t \<Rightarrow> dispex_dynamic_data_t" where
  "append_prop data p =
     \<lparr>buf_size = (if buf_size data = 0 then 4
                  else if buf_size data = prop_cnt data then 2 * buf_size data
                  else buf_size data),
      props = props data @ [p]\<rparr>"

text \<open>
  \<^verbatim>\<open>get_dynamic_prop\<close> and \<^verbatim>\<open>fixup_prop_ref\<close> call each other along the prototype link.
  The first argument bounds the depth of these calls; the result \<open>None\<close> is a run that
  does not return, because the bound is used up or because the C code reads through a
  null pointer or outside the property array. A returned property is its index.
\<close>

fun get_dynamic_prop :: "nat \<Rightarrow> heap \<Rightarrow> addr \<Rightarrow> string \<Rightarrow> DWORD \<Rightarrow> (heap \<times> HRESULT \<times> nat option) option"
  and fixup_prop_ref :: "nat \<Rightarrow> heap \<Rightarrow> addr \<Rightarrow> nat \<Rightarrow> heap option" where
  "get_dynamic_prop 0 h a name grfdex = None"
| "get_dynamic_prop (Suc n) h a name grfdex =
     (let h1 = h(a := get_dynamic_data (h a))
      in case find_prop grfdex name (the_props (h1 a)) of
           Some i \<Rightarrow>
             (case fixup_prop_ref n h1 a i of
                None \<Rightarrow> None
              | Some h2 \<Rightarrow>
                  if DYNPROP_DELETED \<in> flags (the_props (h2 a) ! i)
                  then (if grfdex AND fdexNameEnsure = 0 then Some (h2, DISP_E_UNKNOWNNAME, None)
                        else Some (update_prop h2 a i (\<lambda>p. p\<lparr>flags := flags p - {DYNPROP_DELETED}\<rparr>),
                                   S_OK, Some i))
                  else Some (h2, S_OK, Some i))
         | None \<Rightarrow>
             (case (case prototype (h1 a) of
                      None \<Rightarrow> Some (h1, Inr None)
                    | Some p \<Rightarrow>
                        (case get_dynamic_prop n h1 p name fdexNameCaseSensitive of
                           None \<Rightarrow> None
                         | Some (h2, hres, r) \<Rightarrow>
                             if hres \<noteq> DISP_E_UNKNOWNNAME
                             then (if FAILED hres then Some (h2, Inl hres)
                                   else (case r of
                                           None \<Rightarrow> None
                                         | Some j \<Rightarrow>
                                             if DYNPROP_DELETED \<in> flags (the_props (h2 p) ! j)
                                             then Some (h2, Inr None)
                                             else Some (h2, Inr (Some j))))
                             else Some (h2, Inr None))) of
                None \<Rightarrow> None
              | Some (h2, Inl hres) \<Rightarrow> Some (h2, hres, None)
              | Some (h2, Inr prot_prop) \<Rightarrow>
                  if grfdex AND fdexNameEnsure = 0 \<and> prot_prop = None
                  then Some (h2, DISP_E_UNKNOWNNAME, None)
                  else
                    let new_prop = (case prot_prop of
                                      None \<Rightarrow> \<lparr>var = VariantInit, prop_name = name, flags = {}\<rparr>
                                    | Some j \<Rightarrow> \<lparr>var = VariantInit\<lparr>un := U_UI4 j\<rparr>, prop_name = name,
                                                 flags = {DYNPROP_PROTREF}\<rparr>)
                    in Some (h2(a := (h2 a)\<lparr>dynamic_data :=
                                         map_option (\<lambda>d. append_prop d new_prop) (dynamic_data (h2 a))\<rparr>),
                             S_OK, Some (length (the_props (h2 a))))))"
| "fixup_prop_ref n h a i =
     (if i \<ge> length (the_props (h a)) then None
      else if DYNPROP_DELETED \<in> flags (the_props (h a) ! i)
      then (case prototype (h a) of
              None \<Rightarrow> Some h
            | Some p \<Rightarrow>
                (case get_dynamic_prop n h p (prop_name (the_props (h a) ! i)) fdexNameCaseSensitive of
                   None \<Rightarrow> None
                 | Some (h', hres, r) \<Rightarrow>
                     if FAILED hres then Some h'
                     else (case r of
                             None \<Rightarrow> None
                           | Some j \<Rightarrow>
                               if DYNPROP_DELETED \<notin> flags (the_props (h' p) ! j)
                               then Some (update_prop h' a i
                                            (\<lambda>q. q\<lparr>flags := {DYNPROP_PROTREF},
                                                    var := (var q)\<lparr>un := U_UI4 j\<rparr>\<rparr>))
                               else Some h')))
      else if DYNPROP_PROTREF \<in> flags (the_props (h a) ! i)
      then (case prototype (h a) of
              None \<Rightarrow> None
            | Some p \<Rightarrow>
                if V_UI4 (var (the_props (h a) ! i)) \<ge> length (the_props (h p)) then None
                else if DYNPROP_DELETED \<in> flags (the_props (h p) ! V_UI4 (var (the_props (h a) ! i)))
                then Some (update_prop h a i (\<lambda>q. q\<lparr>flags := {DYNPROP_DELETED}\<rparr>))
                else Some h)
      else Some h)"

subsection \<open>Lookup by identifier\<close>

text \<open>
  The binary search of \<^verbatim>\<open>get_builtin_func\<close>; a found member is its index in \<^verbatim>\<open>funcs\<close>.
  \<open>lo\<close> and \<open>hi\<close> are \<^verbatim>\<open>min\<close> and \<^verbatim>\<open>max\<close>; the search starts at \<open>lo = 0\<close>, so the sum is
  not negative where it is halved.
\<close>

function get_builtin_func_loop :: "func_info_t list \<Rightarrow> DISPID \<Rightarrow> int \<Rightarrow> int \<Rightarrow> HRESULT \<times> nat option" where
  "get_builtin_func_loop fs dispid lo hi =
     (if lo \<le> hi
      then
        let n = (lo + hi) div 2
        in if func_id (fs ! nat n) = dispid then (S_OK, Some (nat n))
           else if func_id (fs ! nat n) < dispid then get_builtin_func_loop fs dispid (n + 1) hi
           else get_builtin_func_loop fs dispid lo (n - 1)
      else (DISP_E_MEMBERNOTFOUND, None))"
  by pat_completeness auto
termination
  by (relation "measure (\<lambda>(fs, dispid, lo, hi). nat (hi - lo + 1))") auto

declare get_builtin_func_loop.simps [simp del]

definition get_builtin_func :: "dispex_data_t \<Rightarrow> DISPID \<Rightarrow> HRESULT \<times> nat option" where
  "get_builtin_func data dispid = get_builtin_func_loop (funcs data) dispid 0 (int (func_cnt data) - 1)"

definition get_builtin_func_prot :: "DispatchEx \<Rightarrow> DISPID \<Rightarrow> HRESULT \<times> nat option" where
  "get_builtin_func_prot This dispid =
     (case proxy This of
        Some px \<Rightarrow> proxy_builtin_func px dispid
      | None \<Rightarrow> get_builtin_func (info This) dispid)"

subsection \<open>Deleting and invoking by identifier\<close>

text \<open>
  The per-instance table of function objects (\<^verbatim>\<open>func_disps\<close>) is not part of the state,
  so \<^verbatim>\<open>reset_builtin_func\<close> leaves no trace in the builtin case of \<^verbatim>\<open>dispex_delete_prop\<close>.
\<close>

definition dispex_delete_prop :: "heap \<Rightarrow> addr \<Rightarrow> DISPID \<Rightarrow> HRESULT \<times> heap" where
  "dispex_delete_prop h a dispid =
     (case (if is_custom_dispid dispid
            then (case vtbl (info (h a)) of None \<Rightarrow> None | Some v \<Rightarrow> delete_hook v)
            else None) of
        Some del \<Rightarrow> (del dispid, h)
      | None \<Rightarrow>
          if dispex_compat_mode (h a) < COMPAT_MODE_IE8 then (E_NOTIMPL, h)
          else
            (case get_dispid_type dispid of
               DISPEXPROP_DYNAMIC \<Rightarrow>
                 let idx = nat (dispid - DISPID_DYNPROP_0);
                     h1 = h(a := get_dynamic_data (h a))
                 in if idx \<ge> length (the_props (h1 a)) then (S_OK, h1)
                    else if DYNPROP_PROTREF \<notin> flags (the_props (h1 a) ! idx)
                    then (S_OK, update_prop h1 a idx
                                  (\<lambda>p. p\<lparr>var := VariantClear (var p),
                                          flags := insert DYNPROP_DELETED (flags p)\<rparr>))
                    else (S_OK, h1)
             | DISPEXPROP_BUILTIN \<Rightarrow>
                 (if FAILED (fst (get_builtin_func_prot (h a) dispid))
                  then (fst (get_builtin_func_prot (h a) dispid), h)
                  else (S_OK, h))
             | DISPEXPROP_CUSTOM \<Rightarrow> (S_OK, h)))"

text \<open>
  The property a slot stands for once it is fixed up: the slot itself, or the slot of
  the prototype it refers to. \<open>None\<close> is a read through a null prototype or outside the
  prototype's array.
\<close>

definition resolve_prop :: "heap \<Rightarrow> addr \<Rightarrow> nat \<Rightarrow> dynamic_prop_t option" where
  "resolve_prop h a i =
     (let prop = the_props (h a) ! i
      in if DYNPROP_PROTREF \<in> flags prop
         then (case prototype (h a) of
                 None \<Rightarrow> None
               | Some p \<Rightarrow> if V_UI4 (var prop) < length (the_props (h p))
                           then Some (the_props (h p) ! V_UI4 (var prop)) else None)
         else Some prop)"

text \<open>
  \<^verbatim>\<open>dispex_invoke\<close> on an object whose class table is resolved. \<open>res\<close> tells whether the
  caller passed a result slot.
\<close>

definition dispex_invoke :: "externals \<Rightarrow> nat \<Rightarrow> heap \<Rightarrow> addr \<Rightarrow> addr \<Rightarrow> DISPID \<Rightarrow> WORD \<Rightarrow> DISPPARAMS \<Rightarrow> bool \<Rightarrow> IServiceProvider option \<Rightarrow> (heap \<times> HRESULT \<times> VARIANT option) option" where
  "dispex_invoke env n h a this_obj dispid wFlags0 pdp res caller =
     (let wFlags = (if wFlags0 = (DISPATCH_PROPERTYPUT OR DISPATCH_PROPERTYPUTREF)
                    then DISPATCH_PROPERTYPUT else wFlags0)
      in case get_dispid_type dispid of
           DISPEXPROP_CUSTOM \<Rightarrow>
             (case (case vtbl (info (h a)) of None \<Rightarrow> None | Some v \<Rightarrow> invoke_hook v) of
                None \<Rightarrow> Some (h, DISP_E_MEMBERNOTFOUND, None)
              | Some invoke \<Rightarrow> Some (h, invoke this_obj dispid wFlags pdp res caller))
         | DISPEXPROP_DYNAMIC \<Rightarrow>
             let idx = nat (dispid - DISPID_DYNPROP_0);
                 h1 = h(a := get_dynamic_data (h a))
             in if length (the_props (h1 a)) \<le> idx then Some (h1, DISP_E_MEMBERNOTFOUND, None)
                else if wFlags = (DISPATCH_METHOD OR DISPATCH_PROPERTYGET) \<and> \<not> res
                then Some (h1, E_INVALIDARG, None)
                else if wFlags = (DISPATCH_METHOD OR DISPATCH_PROPERTYGET) \<or> wFlags = DISPATCH_METHOD
                then (case fixup_prop_ref n h1 a idx of
                        None \<Rightarrow> None
                      | Some h2 \<Rightarrow>
                          if DYNPROP_DELETED \<in> flags (the_props (h2 a) ! idx)
                          then Some (h2, DISP_E_MEMBERNOTFOUND, None)
                          else (case resolve_prop h2 a idx of
                                  None \<Rightarrow> None
                                | Some prop \<Rightarrow>
                                    if vt (var prop) \<noteq> VT_DISPATCH then Some (h2, E_NOTIMPL, None)
                                    else Some (h2, invoke_disp_value env this_obj (V_DISPATCH (var prop))
                                                     wFlags pdp caller)))
                else if wFlags = DISPATCH_PROPERTYGET
                then (case fixup_prop_ref n h1 a idx of
                        None \<Rightarrow> None
                      | Some h2 \<Rightarrow>
                          if DYNPROP_DELETED \<in> flags (the_props (h2 a) ! idx)
                          then Some (h2, DISP_E_MEMBERNOTFOUND, None)
                          else (case resolve_prop h2 a idx of
                                  None \<Rightarrow> None
                                | Some prop \<Rightarrow>
                                    if \<not> res then None
                                    else Some (h2, fst (variant_copy env (var prop)),
                                               Some (snd (variant_copy env (var prop))))))
                else if wFlags = DISPATCH_PROPERTYPUT
                then (if cArgs pdp \<noteq> 1
                         \<or> (cNamedArgs pdp = 1 \<and> rgdispidNamedArgs pdp ! 0 \<noteq> DISPID_PROPERTYPUT)
                         \<or> cNamedArgs pdp > 1
                      then Some (h1, E_INVALIDARG, None)
                      else
                        let c = variant_copy env (rgvarg pdp ! 0)
                        in if FAILED (fst c)
                           then Some (update_prop h1 a idx (\<lambda>p. p\<lparr>var := snd c\<rparr>), fst c, None)
                           else Some (update_prop h1 a idx
                                        (\<lambda>p. p\<lparr>var := snd c,
                                                flags := flags p - {DYNPROP_DELETED, DYNPROP_PROTREF}\<rparr>),
                                      S_OK, None))
                else Some (h1, E_NOTIMPL, None)
         | DISPEXPROP_BUILTIN \<Rightarrow>
             if wFlags = DISPATCH_CONSTRUCT
             then (if dispid = DISPID_VALUE
                   then (case (case vtbl (info (h a)) of None \<Rightarrow> None | Some v \<Rightarrow> value_hook v) of
                           Some value \<Rightarrow> Some (h, value wFlags pdp res caller)
                         | None \<Rightarrow> Some (h, E_FAIL, None))
                   else Some (h, E_FAIL, None))
             else Some (h, invoke_builtin_prop env this_obj dispid wFlags pdp caller))"

subsection \<open>Enumeration\<close>

function next_dynamic_idx :: "dynamic_prop_t list \<Rightarrow> nat \<Rightarrow> nat" where
  "next_dynamic_idx ps i =
     (if i < length ps \<and> flags (ps ! i) \<inter> {DYNPROP_DELETED, DYNPROP_HIDDEN, DYNPROP_PROTREF} \<noteq> {}
      then next_dynamic_idx ps (i + 1) else i)"
  by pat_completeness auto
termination
  by (relation "measure (\<lambda>(ps, i). length ps - i)") auto

declare next_dynamic_idx.simps [simp del]

definition next_dynamic_id :: "DispatchEx \<Rightarrow> nat \<Rightarrow> HRESULT \<times> DISPID" where
  "next_dynamic_id dispex idx0 =
     (let idx = next_dynamic_idx (the_props dispex) idx0
      in if idx = length (the_props dispex) then (S_FALSE, DISPID_STARTENUM)
         else (S_OK, DISPID_DYNPROP_0 + int idx))"

text \<open>
  The walk over the builtin members: the first member of the rest of the table whose
  \<^verbatim>\<open>func_disp_idx\<close> is \<open>-1\<close>. \<^verbatim>\<open>DispatchEx_GetNextDispID\<close> is given for an object whose
  class table is resolved; it returns the object, which the call may have given its
  dynamic data.
\<close>

fun next_builtin :: "func_info_t list \<Rightarrow> DISPID option" where
  "next_builtin [] = None"
| "next_builtin (f # fs) = (if func_disp_idx f = - 1 then Some (func_id f) else next_builtin fs)"

text \<open>
  The end of \<^verbatim>\<open>DispatchEx_GetNextDispID\<close>, from the class hook on: the hook is asked for
  the member after \<open>dispid\<close> and, when it answers \<^verbatim>\<open>S_FALSE\<close> or is absent, the dynamic
  properties are walked from the first.
\<close>

definition next_custom_or_dynamic :: "DispatchEx \<Rightarrow> DISPID \<Rightarrow> (HRESULT \<times> DISPID option) \<times> DispatchEx" where
  "next_custom_or_dynamic This dispid =
     (case (case (case vtbl (info This) of None \<Rightarrow> None | Some v \<Rightarrow> next_dispid v) of
              None \<Rightarrow> None
            | Some next \<Rightarrow> if fst (next dispid) \<noteq> S_FALSE then Some (next dispid) else None) of
        Some r \<Rightarrow> ((fst r, Some (snd r)), This)
      | None \<Rightarrow>
          let This1 = get_dynamic_data This
          in if length (the_props This1) \<noteq> 0
             then ((fst (next_dynamic_id This1 0), Some (snd (next_dynamic_id This1 0))), This1)
             else ((S_FALSE, Some DISPID_STARTENUM), This1))"

definition DispatchEx_GetNextDispID :: "DispatchEx \<Rightarrow> DISPID \<Rightarrow> (HRESULT \<times> DISPID option) \<times> DispatchEx" where
  "DispatchEx_GetNextDispID This dispid =
     (case proxy This of
        Some px \<Rightarrow> ((fst (proxy_GetNextDispID px dispid), Some (snd (proxy_GetNextDispID px dispid))), This)
      | None \<Rightarrow>
          if is_dynamic_dispid dispid
          then
            let idx = nat (dispid - DISPID_DYNPROP_0);
                This1 = get_dynamic_data This
            in if length (the_props This1) \<le> idx then ((DISP_E_MEMBERNOTFOUND, None), This1)
               else ((fst (next_dynamic_id This1 (idx + 1)), Some (snd (next_dynamic_id This1 (idx + 1)))),
                     This1)
          else if \<not> is_custom_dispid dispid
          then
            (case (if dispid = DISPID_STARTENUM then (S_OK, Some 0)
                   else (case get_builtin_func (info This) dispid of
                           (hres, k) \<Rightarrow> (hres, map_option Suc k))) of
               (hres, start) \<Rightarrow>
                 if FAILED hres then ((hres, None), This)
                 else (case next_builtin (drop (the start) (funcs (info This))) of
                         Some next_id \<Rightarrow> ((S_OK, Some next_id), This)
                       | None \<Rightarrow> next_custom_or_dynamic This DISPID_STARTENUM))
          else next_custom_or_dynamic This dispid)"

text \<open>
  A caller that enumerates: it asks for the member after the last one until the answer
  is \<^verbatim>\<open>S_FALSE\<close>, and collects the identifiers; with them it returns the identifier
  that came with \<^verbatim>\<open>S_FALSE\<close>. The first argument bounds the number of calls; \<open>None\<close> is
  an enumeration that is cut off by the bound or by a failure.
\<close>

definition collect_next :: "(DispatchEx \<Rightarrow> DISPID \<Rightarrow> (DISPID list \<times> DISPID option) option) \<Rightarrow> (HRESULT \<times> DISPID option) \<times> DispatchEx \<Rightarrow> (DISPID list \<times> DISPID option) option" where
  "collect_next continue answer =
     (case answer of
        ((hres, pid), This') \<Rightarrow>
          if hres = S_OK
          then (case pid of
                  None \<Rightarrow> None
                | Some next_id \<Rightarrow> map_option (apfst ((#) next_id)) (continue This' next_id))
          else if hres = S_FALSE then Some ([], pid)
          else None)"

fun enumerate_ids :: "nat \<Rightarrow> DispatchEx \<Rightarrow> DISPID \<Rightarrow> (DISPID list \<times> DISPID option) option" where
  "enumerate_ids 0 This dispid = None"
| "enumerate_ids (Suc n) This dispid = collect_next (enumerate_ids n) (DispatchEx_GetNextDispID This dispid)"

text \<open>
  A class hook \<^verbatim>\<open>next_dispid\<close> that walks the custom members \<open>cs\<close>: asked for the member
  after \<open>cur\<close> it answers the first of them, and so on, and \<^verbatim>\<open>S_FALSE\<close> after the last.
\<close>

fun walks :: "(DISPID \<Rightarrow> HRESULT \<times> DISPID) \<Rightarrow> DISPID \<Rightarrow> DISPID list \<Rightarrow> bool" where
  "walks next cur [] = (fst (next cur) = S_FALSE)"
| "walks next cur (c # cs) = (next cur = (S_OK, c) \<and> is_custom_dispid c \<and> walks next c cs)"

definition custom_members :: "DispatchEx \<Rightarrow> DISPID list \<Rightarrow> bool" where
  "custom_members This cs =
     (case (case vtbl (info This) of None \<Rightarrow> None | Some v \<Rightarrow> next_dispid v) of
        None \<Rightarrow> cs = []
      | Some next \<Rightarrow> walks next DISPID_STARTENUM cs)"

text \<open>
  The members an enumeration is to yield: the builtin members with \<^verbatim>\<open>func_disp_idx\<close> \<open>-1\<close>
  in the order of the table, the custom members, and the dynamic properties that are
  neither deleted nor hidden nor references, in the order of the store.
\<close>

definition enumerable_builtins :: "func_info_t list \<Rightarrow> DISPID list" where
  "enumerable_builtins fs = map func_id (filter (\<lambda>f. func_disp_idx f = - 1) fs)"

definition visible :: "dynamic_prop_t list \<Rightarrow> nat \<Rightarrow> bool" where
  "visible ps i = (flags (ps ! i) \<inter> {DYNPROP_DELETED, DYNPROP_HIDDEN, DYNPROP_PROTREF} = {})"

definition enumerable_dynamics :: "dynamic_prop_t list \<Rightarrow> nat \<Rightarrow> DISPID list" where
  "enumerable_dynamics ps k = map (\<lambda>i. DISPID_DYNPROP_0 + int i) (filter (visible ps) [k ..< length ps])"

definition enumeration :: "DispatchEx \<Rightarrow> DISPID list \<Rightarrow> DISPID list" where
  "enumeration This cs =
     enumerable_builtins (funcs (info This)) @ cs
     @ enumerable_dynamics (the_props (get_dynamic_data This)) 0"

text \<open>
  The shape of the stores the code builds. A slot flagged \<^verbatim>\<open>DYNPROP_PROTREF\<close> holds an
  index into the property array of the prototype, and a prototype is another object, has
  no prototype of its own (\<^verbatim>\<open>get_legacy_prototype\<close> initialises it without a window) and
  so holds no such slot.
\<close>

definition store_ok :: "heap \<Rightarrow> addr \<Rightarrow> bool" where
  "store_ok h a =
     (list_all (\<lambda>q. DYNPROP_PROTREF \<in> flags q \<longrightarrow>
                   (case prototype (h a) of
                      None \<Rightarrow> False
                    | Some p \<Rightarrow> V_UI4 (var q) < length (the_props (h p))))
        (the_props (get_dynamic_data (h a)))
      \<and> (case prototype (h a) of
            None \<Rightarrow> True
          | Some p \<Rightarrow>
              p \<noteq> a \<and> prototype (h p) = None
              \<and> list_all (\<lambda>q. DYNPROP_PROTREF \<notin> flags q) (the_props (get_dynamic_data (h p)))))"

subsection \<open>Concrete stores\<close>

text \<open>
  \<open>proto_heap\<close>: the instance at address 1 refers to the property \<^verbatim>\<open>tag\<close> of its
  prototype at address 2. \<open>chain_heap\<close>: the prototype at 2 has itself a prototype at 3,
  refers to the property there, and that property is deleted. \<open>put_heap\<close> is
  \<open>proto_heap\<close> after the value 5 was put into the slot of the instance.
\<close>

definition legacy_object :: "addr option \<Rightarrow> dynamic_prop_t list \<Rightarrow> DispatchEx" where
  "legacy_object proto ps =
     \<lparr>info = widget_info COMPAT_MODE_IE8, info_is_delayed = False, proxy = None, prototype = proto,
      dynamic_data = Some \<lparr>buf_size = 4, props = ps\<rparr>\<rparr>"

definition ref_prop :: "string \<Rightarrow> nat \<Rightarrow> dynamic_prop_t" where
  "ref_prop name j = \<lparr>var = VariantInit\<lparr>un := U_UI4 j\<rparr>, prop_name = name, flags = {DYNPROP_PROTREF}\<rparr>"

definition proto_heap :: heap where
  "proto_heap =
     (\<lambda>a. widget COMPAT_MODE_IE8)
       (1 := legacy_object (Some 2) [ref_prop ''tag'' 0],
        2 := legacy_object None [\<lparr>var = I4 7, prop_name = ''tag'', flags = {}\<rparr>])"

definition chain_heap :: heap where
  "chain_heap =
     (\<lambda>a. widget COMPAT_MODE_IE8)
       (1 := legacy_object (Some 2) [ref_prop ''tag'' 0],
        2 := legacy_object (Some 3) [ref_prop ''tag'' 0],
        3 := legacy_object None [\<lparr>var = VariantInit, prop_name = ''tag'', flags = {DYNPROP_DELETED}\<rparr>])"

definition put_heap :: heap where
  "put_heap = update_prop proto_heap 1 0
                (\<lambda>p. p\<lparr>var := I4 5, flags := flags p - {DYNPROP_DELETED, DYNPROP_PROTREF}\<rparr>)"

subsection \<open>Compiling the member table\<close>

text \<open>
  What the type library tells about a member (\<^verbatim>\<open>FUNCDESC\<close>, with the name
  \<^verbatim>\<open>GetDocumentation\<close> gives for it, \<open>None\<close> when that call fails). For a parameter:
  its type tag, whether it is a pointer to a user-defined type and then the result of
  resolving that type to an interface, and its default value, if it has one, with the
  result of copying it.
\<close>

record ELEMDESC =
  param_vt :: VARTYPE
  param_userdefined :: bool
  param_ref :: "HRESULT \<times> IID"
  param_default :: "(HRESULT \<times> VARIANT) option"

record FUNCDESC =
  memid :: DISPID
  doc_name :: "string option"
  invkind :: WORD
  wFuncFlags :: WORD
  cParamsOpt :: int
  ret_vt :: VARTYPE
  lprgelemdescParam :: "ELEMDESC list"
  oVft :: int

definition cParams :: "FUNCDESC \<Rightarrow> nat" where
  "cParams desc = length (lprgelemdescParam desc)"

abbreviation FUNCFLAG_FRESTRICTED :: WORD where "FUNCFLAG_FRESTRICTED \<equiv> 0x1"
abbreviation FUNCFLAG_FHIDDEN :: WORD where "FUNCFLAG_FHIDDEN \<equiv> 0x40"

definition MAX_ARGS :: nat where
  "MAX_ARGS = 16"

definition sizeof_ptr :: int where
  \<comment> \<open>\<^verbatim>\<open>sizeof(void*)\<close> of a 64-bit build\<close>
  "sizeof_ptr = 8"

record dispex_hook_t =
  hook_dispid :: DISPID
  hook_invoke :: "dispex_hook_invoke_t option"
  hook_name :: "string option"

text \<open>The scan of \<^verbatim>\<open>add_func_info\<close> for an entry with the same identifier or name.\<close>

fun find_func :: "DISPID \<Rightarrow> string \<Rightarrow> func_info_t list \<Rightarrow> nat option" where
  "find_func dispid name [] = None"
| "find_func dispid name (f # fs) =
     (if func_id f = dispid \<or> func_name f = name then Some 0
      else map_option Suc (find_func dispid name fs))"

text \<open>
  The loop of \<^verbatim>\<open>add_func_info\<close> over the parameters from position \<open>i\<close> on. The flag
  in the result is false when the loop left the function with a \<^verbatim>\<open>return\<close>.
\<close>

fun add_params :: "func_info_t \<Rightarrow> nat \<Rightarrow> ELEMDESC list \<Rightarrow> func_info_t \<times> bool" where
  "add_params finf i [] = (finf, True)"
| "add_params finf i (p # ps) =
     (case (if param_vt p = VT_PTR \<and> param_userdefined p
            then (if FAILED (fst (param_ref p)) then None
                  else Some (finf\<lparr>arg_info := (arg_info finf)[i := (arg_info finf ! i)\<lparr>iid := snd (param_ref p)\<rparr>],
                                  arg_types := (arg_types finf)[i := VT_DISPATCH]\<rparr>))
            else if \<not> is_arg_type_supported (arg_types finf ! i) then None
            else Some finf) of
        None \<Rightarrow> (finf, False)
      | Some finf1 \<Rightarrow>
          (case param_default p of
             None \<Rightarrow> add_params finf1 (Suc i) ps
           | Some (hres, v) \<Rightarrow>
               if FAILED hres then (finf1, False)
               else add_params
                      (finf1\<lparr>arg_info := (arg_info finf1)[i := (arg_info finf1 ! i)\<lparr>default_value := v\<rparr>],
                             default_value_cnt := default_value_cnt finf1 + 1\<rparr>)
                      (Suc i) ps))"

text \<open>
  What \<^verbatim>\<open>add_func_info\<close> does to the entry once it is found or created. \<open>None\<close> is a
  failed \<^verbatim>\<open>assert\<close>.
\<close>

definition fill_func_info :: "func_info_t \<Rightarrow> nat \<Rightarrow> FUNCDESC \<Rightarrow> (func_info_t \<times> bool) option" where
  "fill_func_info finf disp_cnt desc =
     (if invkind desc AND DISPATCH_METHOD \<noteq> 0
      then
        let f1 = finf\<lparr>func_disp_idx := int disp_cnt, argc := cParams desc\<rparr>
        in if \<not> argc f1 < MAX_ARGS then None
           else
             let f2 = f1\<lparr>arg_info := replicate (argc f1) \<lparr>iid = IID_NULL, default_value = VariantInit\<rparr>,
                         prop_vt := ret_vt desc\<rparr>
             in if prop_vt f2 \<noteq> VT_VOID \<and> prop_vt f2 \<noteq> VT_PTR \<and> \<not> is_arg_type_supported (prop_vt f2)
                then Some (f2, True)
                else
                  let f3 = f2\<lparr>arg_types :=
                                map param_vt (lprgelemdescParam desc)
                                @ (if prop_vt f2 = VT_PTR then [VT_BYREF OR VT_DISPATCH]
                                   else if prop_vt f2 \<noteq> VT_VOID then [VT_BYREF OR prop_vt f2]
                                   else [])\<rparr>
                  in if cParamsOpt desc \<noteq> 0 then Some (f3, True)
                     else (case add_params f3 0 (lprgelemdescParam desc) of
                             (f4, finished) \<Rightarrow>
                               if finished then Some (f4\<lparr>call_vtbl_off := oVft desc div sizeof_ptr\<rparr>, True)
                               else Some (f4, True))
      else if invkind desc AND (DISPATCH_PROPERTYPUT OR DISPATCH_PROPERTYGET) \<noteq> 0
      then
        let f1 = (if wFuncFlags desc AND FUNCFLAG_FHIDDEN \<noteq> 0 then finf\<lparr>func_disp_idx := - 2\<rparr> else finf);
            f2 = (if invkind desc AND DISPATCH_PROPERTYGET \<noteq> 0
                  then f1\<lparr>get_vtbl_off := oVft desc div sizeof_ptr\<rparr> else f1);
            vt1 = (if invkind desc AND DISPATCH_PROPERTYGET \<noteq> 0 then ret_vt desc else VT_EMPTY)
        in if invkind desc AND DISPATCH_PROPERTYPUT \<noteq> 0 \<and> cParams desc \<noteq> 1 then None
           else
             let f3 = (if invkind desc AND DISPATCH_PROPERTYPUT \<noteq> 0
                       then f2\<lparr>put_vtbl_off := oVft desc div sizeof_ptr\<rparr> else f2);
                 vt2 = (if invkind desc AND DISPATCH_PROPERTYPUT \<noteq> 0
                        then param_vt (lprgelemdescParam desc ! 0) else vt1)
             in if \<not> (prop_vt f3 = VT_EMPTY \<or> vt2 = prop_vt f3) then None
                else Some (f3\<lparr>prop_vt := vt2\<rparr>, False)
      else Some (finf, False))"

text \<open>
  The flag returned by \<open>fill_func_info\<close> tells that the member is a method, which takes
  the next function slot.
\<close>

definition add_func_info :: "dispex_data_t \<Rightarrow> tid_t \<Rightarrow> FUNCDESC \<Rightarrow> dispex_hook_invoke_t option \<Rightarrow> string option \<Rightarrow> dispex_data_t option" where
  "add_func_info data t desc hk name_override =
     (case (case name_override of
              Some n \<Rightarrow> Some n
            | None \<Rightarrow> if wFuncFlags desc AND FUNCFLAG_FRESTRICTED \<noteq> 0 then None else doc_name desc) of
        None \<Rightarrow> Some data
      | Some name \<Rightarrow>
          (case find_func (memid desc) name (funcs data) of
             Some k \<Rightarrow>
               if tid (funcs data ! k) \<noteq> t then Some data
               else (case fill_func_info (funcs data ! k) (func_disp_cnt data) desc of
                       None \<Rightarrow> None
                     | Some (finf, is_method) \<Rightarrow>
                         Some (data\<lparr>funcs := (funcs data)[k := finf],
                                    func_disp_cnt := (if is_method then func_disp_cnt data + 1
                                                      else func_disp_cnt data)\<rparr>))
           | None \<Rightarrow>
               let fresh = \<lparr>func_id = memid desc, func_name = name, tid = t, hook = hk,
                            call_vtbl_off = 0, put_vtbl_off = 0, get_vtbl_off = 0, func_disp_idx = - 1,
                            argc = 0, default_value_cnt = 0, prop_vt = VT_EMPTY,
                            arg_types = [], arg_info = []\<rparr>
               in (case fill_func_info fresh (func_disp_cnt data) desc of
                     None \<Rightarrow> None
                   | Some (finf, is_method) \<Rightarrow>
                       Some (data\<lparr>funcs := funcs data @ [finf],
                                  func_size := (if func_cnt data = func_size data then 2 * func_size data
                                                else func_size data),
                                  func_disp_cnt := (if is_method then func_disp_cnt data + 1
                                                    else func_disp_cnt data)\<rparr>))))"

text \<open>
  \<^verbatim>\<open>process_interface\<close>: \<open>typeinfo t\<close> is the result of \<^verbatim>\<open>get_typeinfo\<close> for the
  interface and its members from the eighth on, in the order of the type library.
\<close>

fun find_hook :: "DISPID \<Rightarrow> dispex_hook_t list \<Rightarrow> dispex_hook_t option" where
  "find_hook dispid [] = None"
| "find_hook dispid (hk # hks) = (if hook_dispid hk = dispid then Some hk else find_hook dispid hks)"

fun process_funcs :: "dispex_data_t \<Rightarrow> tid_t \<Rightarrow> dispex_hook_t list \<Rightarrow> FUNCDESC list \<Rightarrow> dispex_data_t option" where
  "process_funcs data t hooks [] = Some data"
| "process_funcs data t hooks (desc # descs) =
     (case find_hook (memid desc) hooks of
        None \<Rightarrow>
          (case add_func_info data t desc None None of
             None \<Rightarrow> None
           | Some data' \<Rightarrow> process_funcs data' t hooks descs)
      | Some hk \<Rightarrow>
          if hook_invoke hk \<noteq> None \<or> hook_name hk \<noteq> None
          then (case add_func_info data t desc (hook_invoke hk) (hook_name hk) of
                  None \<Rightarrow> None
                | Some data' \<Rightarrow> process_funcs data' t hooks descs)
          else process_funcs data t hooks descs)"

type_synonym typelib_t = "tid_t \<Rightarrow> HRESULT \<times> FUNCDESC list"

definition process_interface :: "typelib_t \<Rightarrow> dispex_data_t \<Rightarrow> tid_t \<Rightarrow> dispex_hook_t list \<Rightarrow> (HRESULT \<times> dispex_data_t) option" where
  "process_interface typeinfo data t hooks =
     (if FAILED (fst (typeinfo t)) then Some (fst (typeinfo t), data)
      else map_option (\<lambda>data'. (S_OK, data')) (process_funcs data t hooks (snd (typeinfo t))))"

text \<open>
  The comparison functions handed to \<^verbatim>\<open>qsort\<close>. \<^verbatim>\<open>dispid_cmp\<close> subtracts two 32-bit
  identifiers in 32 bits.
\<close>

definition wrap32 :: "int \<Rightarrow> int" where
  "wrap32 x = (x + 2 ^ 31) mod 2 ^ 32 - 2 ^ 31"

definition dispid_cmp :: "func_info_t \<Rightarrow> func_info_t \<Rightarrow> int" where
  "dispid_cmp p1 p2 = wrap32 (func_id p1 - func_id p2)"

fun wcscmp_codes :: "nat list \<Rightarrow> nat list \<Rightarrow> int" where
  "wcscmp_codes [] [] = 0"
| "wcscmp_codes [] (y # ys) = - int y"
| "wcscmp_codes (x # xs) [] = int x"
| "wcscmp_codes (x # xs) (y # ys) = (if x = y then wcscmp_codes xs ys else int x - int y)"

definition wcsicmp :: "string \<Rightarrow> string \<Rightarrow> int" where
  "wcsicmp a b = wcscmp_codes (map (\<lambda>c. of_char (towlower c)) a) (map (\<lambda>c. of_char (towlower c)) b)"

text \<open>
  \<^verbatim>\<open>qsort\<close> belongs to the C library. It is taken to be a stable insertion sort that
  asks the comparison function.
\<close>

fun qsort_insert :: "('a \<Rightarrow> 'a \<Rightarrow> int) \<Rightarrow> 'a \<Rightarrow> 'a list \<Rightarrow> 'a list" where
  "qsort_insert cmp x [] = [x]"
| "qsort_insert cmp x (y # ys) = (if cmp x y < 0 then x # y # ys else y # qsort_insert cmp x ys)"

definition qsort :: "('a \<Rightarrow> 'a \<Rightarrow> int) \<Rightarrow> 'a list \<Rightarrow> 'a list" where
  "qsort cmp xs = foldl (\<lambda>sorted x. qsort_insert cmp x sorted) [] xs"

text \<open>
  A class (\<^verbatim>\<open>dispex_static_data_t\<close>) and the process-wide state: the list of all compiled
  tables and the cache slots \<^verbatim>\<open>desc->info_cache[compat_mode]\<close>, a slot holding the position
  of its table in the list. A class is known by a number.
\<close>

record dispex_static_data_t =
  desc_vtbl :: "dispex_static_data_vtbl_t option"
  disp_tid :: tid_t
  iface_tids :: "tid_t list"
  init_info :: "(dispex_data_t \<Rightarrow> compat_mode_t \<Rightarrow> dispex_data_t option) option"

record static_state =
  dispex_data_list :: "dispex_data_t list"
  info_cache :: "nat \<Rightarrow> compat_mode_t \<Rightarrow> nat option"

fun process_tids :: "typelib_t \<Rightarrow> dispex_data_t \<Rightarrow> tid_t list \<Rightarrow> dispex_data_t option" where
  "process_tids typeinfo data [] = Some data"
| "process_tids typeinfo data (t # ts) =
     (case process_interface typeinfo data t [] of
        None \<Rightarrow> None
      | Some (hres, data') \<Rightarrow> if FAILED hres then Some data' else process_tids typeinfo data' ts)"

text \<open>
  \<^verbatim>\<open>preprocess_dispex_data\<close> puts the new table at the end of the list of tables and
  returns its position; \<open>Some (st, None)\<close> is the return of \<^verbatim>\<open>NULL\<close>, \<open>None\<close> a failed
  \<^verbatim>\<open>assert\<close>. A hook \<^verbatim>\<open>init_info\<close> is a function of the table it is given.
\<close>

definition preprocess_dispex_data :: "typelib_t \<Rightarrow> static_state \<Rightarrow> dispex_static_data_t \<Rightarrow> compat_mode_t \<Rightarrow> (static_state \<times> nat option) option" where
  "preprocess_dispex_data typeinfo st desc mode =
     (if disp_tid desc \<noteq> 0 \<and> FAILED (fst (typeinfo (disp_tid desc))) then Some (st, None)
      else
        let data0 = \<lparr>vtbl = desc_vtbl desc, compat_mode = mode, funcs = [], func_size = 16,
                     name_table = [], func_disp_cnt = 0\<rparr>;
            publish = (\<lambda>data. Some (st\<lparr>dispex_data_list := dispex_data_list st @ [data]\<rparr>,
                                   Some (length (dispex_data_list st))))
        in case (case init_info desc of None \<Rightarrow> Some data0 | Some init \<Rightarrow> init data0 mode) of
             None \<Rightarrow> None
           | Some data1 \<Rightarrow>
               (case process_tids typeinfo data1 (iface_tids desc) of
                  None \<Rightarrow> None
                | Some data \<Rightarrow>
                    if func_cnt data = 0 then publish (data\<lparr>name_table := [], funcs := [], func_size := 0\<rparr>)
                    else
                      let sorted = qsort dispid_cmp (funcs data)
                      in publish (data\<lparr>funcs := sorted,
                                       name_table :=
                                         qsort (\<lambda>i j. wcsicmp (func_name (sorted ! i)) (func_name (sorted ! j)))
                                           [0 ..< func_cnt data]\<rparr>)))"

definition ensure_dispex_info :: "typelib_t \<Rightarrow> static_state \<Rightarrow> nat \<Rightarrow> dispex_static_data_t \<Rightarrow> compat_mode_t \<Rightarrow> (static_state \<times> nat option) option" where
  "ensure_dispex_info typeinfo st desc_no desc mode =
     (case info_cache st desc_no mode of
        Some k \<Rightarrow> Some (st, Some k)
      | None \<Rightarrow>
          (case preprocess_dispex_data typeinfo st desc mode of
             None \<Rightarrow> None
           | Some (st', r) \<Rightarrow>
               Some (st'\<lparr>info_cache := (info_cache st')(desc_no := (info_cache st' desc_no)(mode := r))\<rparr>, r)))"

subsection \<open>Two concrete classes\<close>

text \<open>
  A class with one interface of two read-only properties: \<open>wide\<close>, with the identifier
  \<open>100000\<close>, and \<open>base\<close>, with the identifier \<^verbatim>\<open>0x80010001\<close>, which is \<open>-2147418111\<close> as a
  \<^verbatim>\<open>DISPID\<close>. No table is compiled yet.
\<close>

definition far_members :: "FUNCDESC list" where
  "far_members =
     [\<lparr>memid = 100000, doc_name = Some ''wide'', invkind = DISPATCH_PROPERTYGET, wFuncFlags = 0,
       cParamsOpt = 0, ret_vt = VT_I4, lprgelemdescParam = [], oVft = 56\<rparr>,
      \<lparr>memid = - 2147418111, doc_name = Some ''base'', invkind = DISPATCH_PROPERTYGET, wFuncFlags = 0,
       cParamsOpt = 0, ret_vt = VT_I4, lprgelemdescParam = [], oVft = 64\<rparr>]"

definition far_typelib :: typelib_t where
  "far_typelib t = (if t = 1 then (S_OK, far_members) else (E_FAIL, []))"

definition far_class :: dispex_static_data_t where
  "far_class = \<lparr>desc_vtbl = None, disp_tid = 1, iface_tids = [1], init_info = None\<rparr>"

definition no_tables :: static_state where
  "no_tables = \<lparr>dispex_data_list = [], info_cache = (\<lambda>desc_no mode. None)\<rparr>"

text \<open>
  A class Gallery. Its interface declares, in this order, the property \<open>title\<close> (identifier
  3), the method \<open>load\<close> (1), the hidden property \<open>secret\<close> (4) and the property \<open>count\<close>
  (2); its hook \<^verbatim>\<open>next_dispid\<close> walks two custom members. The object \<open>gallery\<close> has the
  compiled table of the class and five dynamic properties, of which the second is
  deleted, the third hidden and the fourth a reference to the prototype.
\<close>

definition gallery_members :: "FUNCDESC list" where
  "gallery_members =
     [\<lparr>memid = 3, doc_name = Some ''title'', invkind = DISPATCH_PROPERTYGET, wFuncFlags = 0,
       cParamsOpt = 0, ret_vt = VT_I4, lprgelemdescParam = [], oVft = 56\<rparr>,
      \<lparr>memid = 1, doc_name = Some ''load'', invkind = DISPATCH_METHOD, wFuncFlags = 0,
       cParamsOpt = 0, ret_vt = VT_VOID, lprgelemdescParam = [], oVft = 64\<rparr>,
      \<lparr>memid = 4, doc_name = Some ''secret'', invkind = DISPATCH_PROPERTYGET, wFuncFlags = FUNCFLAG_FHIDDEN,
       cParamsOpt = 0, ret_vt = VT_I4, lprgelemdescParam = [], oVft = 72\<rparr>,
      \<lparr>memid = 2, doc_name = Some ''count'', invkind = DISPATCH_PROPERTYGET, wFuncFlags = 0,
       cParamsOpt = 0, ret_vt = VT_I4, lprgelemdescParam = [], oVft = 80\<rparr>]"

definition gallery_typelib :: typelib_t where
  "gallery_typelib t = (if t = 1 then (S_OK, gallery_members) else (E_FAIL, []))"

definition gallery_next_dispid :: "DISPID \<Rightarrow> HRESULT \<times> DISPID" where
  "gallery_next_dispid dispid =
     (if dispid = DISPID_STARTENUM then (S_OK, MSHTML_DISPID_CUSTOM_MIN)
      else if dispid = MSHTML_DISPID_CUSTOM_MIN then (S_OK, MSHTML_DISPID_CUSTOM_MIN + 1)
      else (S_FALSE, DISPID_STARTENUM))"

definition gallery_class :: dispex_static_data_t where
  "gallery_class =
     \<lparr>desc_vtbl = Some \<lparr>get_compat_mode = None, populate_props = None,
                        next_dispid = Some gallery_next_dispid, delete_hook = None,
                        invoke_hook = None, value_hook = None\<rparr>,
      disp_tid = 1, iface_tids = [1], init_info = None\<rparr>"

definition gallery_info :: dispex_data_t where
  "gallery_info =
     (case the (ensure_dispex_info gallery_typelib no_tables 0 gallery_class COMPAT_MODE_IE9) of
        (st, k) \<Rightarrow> dispex_data_list st ! the k)"

definition gallery :: DispatchEx where
  "gallery =
     \<lparr>info = gallery_info, info_is_delayed = False, proxy = None, prototype = None,
      dynamic_data =
        Some \<lparr>buf_size = 8,
              props = [\<lparr>var = I4 1, prop_name = ''a'', flags = {}\<rparr>,
                       \<lparr>var = VariantInit, prop_name = ''b'', flags = {DYNPROP_DELETED}\<rparr>,
                       \<lparr>var = I4 3, prop_name = ''c'', flags = {DYNPROP_HIDDEN}\<rparr>,
                       ref_prop ''d'' 0,
                       \<lparr>var = I4 5, prop_name = ''e'', flags = {}\<rparr>]\<rparr>\<rparr>"

section \<open>Properties\<close>

subsection \<open>Argument counts of a builtin method\<close>

lemma arg_loop_length:
  "arg_loop env func dp caller ixs = Inr args \<Longrightarrow> length args = length ixs"
  by (induction ixs arbitrary: args) (auto split: sum.splits)

lemma arg_loop_default:
  "arg_loop env func dp caller ixs = Inr args \<Longrightarrow> k < length ixs \<Longrightarrow> cArgs dp \<le> ixs ! k \<Longrightarrow>
     args ! k = default_value (arg_info func ! (ixs ! k))"
proof (induction ixs arbitrary: args k)
  case Nil
  then show ?case by simp
next
  case (Cons i rest)
  from Cons.prems(1) obtain a as where
    a: "convert_arg env func dp caller i = Inr a" and
    as: "arg_loop env func dp caller rest = Inr as" and
    args: "args = a # as"
    by (auto split: sum.splits)
  show ?case
  proof (cases k)
    case 0
    with Cons.prems(3) a args show ?thesis by (simp add: convert_arg_def)
  next
    case (Suc k')
    with Cons.prems Cons.IH [OF as, of k'] args show ?thesis by simp
  qed
qed

lemma arg_loop_plain:
  "supplied_as_declared func dp \<Longrightarrow> \<forall>i \<in> set ixs. i < argc func \<Longrightarrow>
   arg_loop env func dp caller ixs =
     Inr (map (\<lambda>i. if i < cArgs dp then rgvarg dp ! (cArgs dp - i - 1)
                    else default_value (arg_info func ! i)) ixs)"
proof (induction ixs)
  case Nil
  then show ?case by simp
next
  case (Cons i rest)
  have "convert_arg env func dp caller i =
      Inr (if i < cArgs dp then rgvarg dp ! (cArgs dp - i - 1) else default_value (arg_info func ! i))"
  proof (cases "i < cArgs dp")
    case True
    with Cons.prems have
      "arg_types func ! i = vt (rgvarg dp ! (cArgs dp - i - 1))"
      "arg_types func ! i = VT_DISPATCH \<longrightarrow>
         iid (arg_info func ! i) = IID_NULL \<or> V_DISPATCH (rgvarg dp ! (cArgs dp - i - 1)) = None"
      by (simp_all add: supplied_as_declared_def)
    with True show ?thesis
      by (auto simp: convert_arg_def FAILED_def Let_def)
  next
    case False
    then show ?thesis by (simp add: convert_arg_def)
  qed
  with Cons show ?case by simp
qed

lemma rev_as_map: "map (\<lambda>i. xs ! (length xs - Suc i)) [0 ..< length xs] = rev xs"
  by (rule nth_equalityI) (auto simp: rev_nth)

lemma convert_arg_truncate:
  assumes "cArgs dp = length (rgvarg dp)" "n < cArgs dp" "i < n"
  shows "convert_arg env func (dp\<lparr>rgvarg := drop (cArgs dp - n) (rgvarg dp), cArgs := n\<rparr>) caller i
         = convert_arg env func dp caller i"
proof -
  have "drop (cArgs dp - n) (rgvarg dp) ! (n - i - 1) = rgvarg dp ! (cArgs dp - i - 1)"
    using assms by simp
  then show ?thesis using assms by (simp add: convert_arg_def)
qed

lemma arg_loop_truncate:
  assumes "cArgs dp = length (rgvarg dp)" "n < cArgs dp" "\<forall>i \<in> set ixs. i < n"
  shows "arg_loop env func (dp\<lparr>rgvarg := drop (cArgs dp - n) (rgvarg dp), cArgs := n\<rparr>) caller ixs
         = arg_loop env func dp caller ixs"
  using assms(3)
proof (induction ixs)
  case Nil
  then show ?case by simp
next
  case (Cons i rest)
  then show ?case by (simp add: convert_arg_truncate [OF assms(1,2)] split: sum.splits)
qed

text \<open>
  C1. A builtin method with a native dispatch offset, declared with \<open>N\<close> required and
  \<open>K\<close> default-valued parameters (\<open>argc = N + K\<close>, \<open>default_value_cnt = K\<close>), reached with
  no hook in the way: with fewer than \<open>N\<close> arguments the call fails with \<^verbatim>\<open>E_INVALIDARG\<close>;
  with \<open>N\<close> to \<open>N + K\<close> arguments the count check passes and the method is called, every
  position the caller left out holding the declared default value as it stands, whatever
  its type tag; with more than \<open>N + K\<close> arguments only the last \<open>N + K\<close> entries of
  \<^verbatim>\<open>rgvarg\<close> are read.
\<close>

theorem invoke_builtin_function_arity:
  assumes qi: "QueryInterface_tid env this_obj (tid func) = (hres0, Some iface)" "\<not> FAILED hres0"
    and nohook: "hook func = None"
    and native: "call_vtbl_off func \<noteq> 0"
    and decl: "argc func = N + K" "default_value_cnt func = K"
    and dp: "cArgs dp = length (rgvarg dp)" "cArgs dp + K < 2 ^ 32"
  shows
    "(cArgs dp < N \<longrightarrow>
        invoke_builtin_function env this_obj func dp res caller = Some (E_INVALIDARG, None))
     \<and> (N \<le> cArgs dp \<and> cArgs dp \<le> N + K \<longrightarrow>
        invoke_builtin_function env this_obj func dp res caller =
          (case arg_loop env func dp caller [0 ..< N + K] of
             Inl hres \<Rightarrow> Some (hres, None)
           | Inr args \<Rightarrow> call_native env iface func args res)
        \<and> (\<forall>args. arg_loop env func dp caller [0 ..< N + K] = Inr args \<longrightarrow>
              length args = N + K \<and>
              (\<forall>i. cArgs dp \<le> i \<and> i < N + K \<longrightarrow> args ! i = default_value (arg_info func ! i)))
        \<and> (supplied_as_declared func dp \<longrightarrow>
              invoke_builtin_function env this_obj func dp res caller =
                call_native env iface func
                  (rev (rgvarg dp) @ map (\<lambda>i. default_value (arg_info func ! i)) [cArgs dp ..< N + K])
                  res))
     \<and> (N + K < cArgs dp \<longrightarrow>
        invoke_builtin_function env this_obj func dp res caller =
          invoke_builtin_function env this_obj func
            (dp\<lparr>rgvarg := drop (cArgs dp - (N + K)) (rgvarg dp), cArgs := N + K\<rparr>) res caller)"
proof (intro conjI impI)
  assume "cArgs dp < N"
  with dp decl have "(cArgs dp + default_value_cnt func) mod 2 ^ 32 < argc func" by simp
  with qi nohook native show
    "invoke_builtin_function env this_obj func dp res caller = Some (E_INVALIDARG, None)"
    by (simp add: invoke_builtin_function_def)
next
  assume range: "N \<le> cArgs dp \<and> cArgs dp \<le> N + K"
  with dp decl have cnt: "\<not> (cArgs dp + default_value_cnt func) mod 2 ^ 32 < argc func" by simp
  with qi nohook native decl show inv:
    "invoke_builtin_function env this_obj func dp res caller =
       (case arg_loop env func dp caller [0 ..< N + K] of
          Inl hres \<Rightarrow> Some (hres, None)
        | Inr args \<Rightarrow> call_native env iface func args res)"
    by (simp add: invoke_builtin_function_def)
  show "\<forall>args. arg_loop env func dp caller [0 ..< N + K] = Inr args \<longrightarrow>
          length args = N + K \<and>
          (\<forall>i. cArgs dp \<le> i \<and> i < N + K \<longrightarrow> args ! i = default_value (arg_info func ! i))"
  proof (intro allI impI conjI)
    fix args i
    assume a: "arg_loop env func dp caller [0 ..< N + K] = Inr args"
    from arg_loop_length [OF a] show "length args = N + K" by simp
    assume "cArgs dp \<le> i \<and> i < N + K"
    with arg_loop_default [OF a, of i] show "args ! i = default_value (arg_info func ! i)" by simp
  qed
  assume plain: "supplied_as_declared func dp"
  have split: "[0 ..< N + K] = [0 ..< cArgs dp] @ [cArgs dp ..< N + K]"
    using range by (metis le_add_diff_inverse upt_add_eq_append zero_le)
  have "arg_loop env func dp caller [0 ..< N + K] =
          Inr (map (\<lambda>i. if i < cArgs dp then rgvarg dp ! (cArgs dp - i - 1)
                         else default_value (arg_info func ! i)) [0 ..< N + K])"
    using plain decl by (intro arg_loop_plain) simp_all
  also have "map (\<lambda>i. if i < cArgs dp then rgvarg dp ! (cArgs dp - i - 1)
                         else default_value (arg_info func ! i)) [0 ..< N + K] =
             map (\<lambda>i. rgvarg dp ! (length (rgvarg dp) - Suc i)) [0 ..< length (rgvarg dp)]
             @ map (\<lambda>i. default_value (arg_info func ! i)) [cArgs dp ..< N + K]"
    unfolding split using dp by simp
  finally show "invoke_builtin_function env this_obj func dp res caller =
          call_native env iface func
            (rev (rgvarg dp) @ map (\<lambda>i. default_value (arg_info func ! i)) [cArgs dp ..< N + K])
            res"
    using inv by (simp add: rev_as_map)
next
  assume more: "N + K < cArgs dp"
  let ?dp = "dp\<lparr>rgvarg := drop (cArgs dp - (N + K)) (rgvarg dp), cArgs := N + K\<rparr>"
  from more dp decl have c1: "\<not> (cArgs dp + default_value_cnt func) mod 2 ^ 32 < argc func" by simp
  from more dp decl have c2: "\<not> (cArgs ?dp + default_value_cnt func) mod 2 ^ 32 < argc func" by simp
  have loop: "arg_loop env func ?dp caller [0 ..< N + K] = arg_loop env func dp caller [0 ..< N + K]"
    using dp more by (intro arg_loop_truncate) simp_all
  from qi nohook native decl c1 c2 loop show
    "invoke_builtin_function env this_obj func dp res caller =
       invoke_builtin_function env this_obj func ?dp res caller"
    by (simp add: invoke_builtin_function_def)
qed

theorem invoke_builtin_function_arity_witness:
  "invoke_builtin_function widget_env 1 area_func (positional [I4 3]) True None
     = Some (E_INVALIDARG, None)
   \<and> invoke_builtin_function widget_env 1 area_func (positional [I4 3, I4 4]) True None
     = Some (S_OK, Some (I4 12))
   \<and> invoke_builtin_function widget_env 1 area_func (positional [I4 3, I4 4, I4 0, I4 9]) True None
     = invoke_builtin_function widget_env 1 area_func
         ((positional [I4 3, I4 4, I4 0, I4 9])\<lparr>rgvarg := [I4 0, I4 4, I4 3], cArgs := 3\<rparr>) True None"
proof -
  have a: "QueryInterface_tid widget_env 1 (tid area_func) = (S_OK, Some 1)"
    by (simp add: widget_env_def)
  have b: "\<not> FAILED S_OK" by (simp add: FAILED_def)
  have c: "hook area_func = None" "call_vtbl_off area_func \<noteq> 0" "argc area_func = 2 + 1"
    "default_value_cnt area_func = 1" by (simp_all add: area_func_def)
  have d: "cArgs (positional xs) = length (rgvarg (positional xs))" for xs
    by (simp add: positional_def)
  note arity = invoke_builtin_function_arity [OF a b c d, of _ True None]
  have few: "cArgs (positional [I4 3]) + 1 < 2 ^ 32" "cArgs (positional [I4 3]) < 2"
    by (simp_all add: positional_def)
  have exact: "cArgs (positional [I4 3, I4 4]) + 1 < 2 ^ 32"
    "2 \<le> cArgs (positional [I4 3, I4 4]) \<and> cArgs (positional [I4 3, I4 4]) \<le> 2 + 1"
    "supplied_as_declared area_func (positional [I4 3, I4 4])"
    by (simp_all add: positional_def supplied_as_declared_def area_func_def I4_def less_Suc_eq)
  have many: "cArgs (positional [I4 3, I4 4, I4 0, I4 9]) + 1 < 2 ^ 32"
    "2 + 1 < cArgs (positional [I4 3, I4 4, I4 0, I4 9])"
    by (simp_all add: positional_def)
  have 1: "invoke_builtin_function widget_env 1 area_func (positional [I4 3]) True None
     = Some (E_INVALIDARG, None)"
    using arity [OF few(1)] few(2) by blast
  have "invoke_builtin_function widget_env 1 area_func (positional [I4 3, I4 4]) True None
     = call_native widget_env 1 area_func
         (rev (rgvarg (positional [I4 3, I4 4]))
          @ map (\<lambda>i. default_value (arg_info area_func ! i)) [cArgs (positional [I4 3, I4 4]) ..< 2 + 1])
         True"
    using arity [OF exact(1)] exact(2,3) by blast
  also have "\<dots> = Some (S_OK, Some (I4 12))"
    by (simp add: positional_def area_func_def widget_env_def call_native_def
        is_arg_type_supported_def I4_def V_I4_def FAILED_def)
  finally have 2: "invoke_builtin_function widget_env 1 area_func (positional [I4 3, I4 4]) True None
     = Some (S_OK, Some (I4 12))" .
  have "invoke_builtin_function widget_env 1 area_func (positional [I4 3, I4 4, I4 0, I4 9]) True None
     = invoke_builtin_function widget_env 1 area_func
         ((positional [I4 3, I4 4, I4 0, I4 9])
            \<lparr>rgvarg := drop (cArgs (positional [I4 3, I4 4, I4 0, I4 9]) - (2 + 1))
                              (rgvarg (positional [I4 3, I4 4, I4 0, I4 9])),
             cArgs := 2 + 1\<rparr>) True None"
    using arity [OF many(1)] many(2) by blast
  also have "drop (cArgs (positional [I4 3, I4 4, I4 0, I4 9]) - (2 + 1))
                              (rgvarg (positional [I4 3, I4 4, I4 0, I4 9])) = [I4 0, I4 4, I4 3]"
    by (simp add: positional_def)
  finally have 3: "invoke_builtin_function widget_env 1 area_func (positional [I4 3, I4 4, I4 0, I4 9]) True None
     = invoke_builtin_function widget_env 1 area_func
         ((positional [I4 3, I4 4, I4 0, I4 9])\<lparr>rgvarg := [I4 0, I4 4, I4 3], cArgs := 3\<rparr>) True None"
    by simp
  from 1 2 3 show ?thesis by blast
qed

subsection \<open>Property put without a setter\<close>

text \<open>
  C2. A builtin property put needs exactly one argument and, if it names an argument,
  names only \<^verbatim>\<open>DISPID_PROPERTYPUT\<close>; any other shape fails with \<^verbatim>\<open>E_INVALIDARG\<close>. With a
  well-shaped request and no put offset, the put answers \<^verbatim>\<open>S_OK\<close> exactly when the
  compatibility mode of the object is IE9 or later, without calling anything, and
  \<^verbatim>\<open>E_FAIL\<close> in the earlier modes.
\<close>

theorem builtin_propput_shape_and_missing_setter:
  "(cArgs dp \<noteq> 1 \<or> cNamedArgs dp > 1
      \<or> (cNamedArgs dp = 1 \<and> rgdispidNamedArgs dp ! 0 \<noteq> DISPID_PROPERTYPUT)
    \<longrightarrow> builtin_propput env This iface func dp caller = E_INVALIDARG)
   \<and> (cArgs dp = 1 \<and> (cNamedArgs dp = 0 \<or> (cNamedArgs dp = 1 \<and> rgdispidNamedArgs dp ! 0 = DISPID_PROPERTYPUT))
        \<and> put_vtbl_off func = 0
    \<longrightarrow> (builtin_propput env This iface func dp caller = S_OK
           \<longleftrightarrow> dispex_compat_mode This \<ge> COMPAT_MODE_IE9)
        \<and> (dispex_compat_mode This < COMPAT_MODE_IE9
           \<longrightarrow> builtin_propput env This iface func dp caller = E_FAIL
               \<and> FAILED (builtin_propput env This iface func dp caller)))"
  by (auto simp: builtin_propput_def FAILED_def)

theorem builtin_propput_shape_and_missing_setter_witness:
  "builtin_propput widget_env (widget COMPAT_MODE_IE9) 1 count_func (positional [I4 1, I4 2]) None = E_INVALIDARG
   \<and> builtin_propput widget_env (widget COMPAT_MODE_IE9) 1 count_func (put_params (I4 1)) None = S_OK
   \<and> builtin_propput widget_env (widget COMPAT_MODE_IE8) 1 count_func (put_params (I4 1)) None = E_FAIL"
  using builtin_propput_shape_and_missing_setter
      [of "positional [I4 1, I4 2]" widget_env "widget COMPAT_MODE_IE9" 1 count_func None]
    builtin_propput_shape_and_missing_setter
      [of "put_params (I4 1)" widget_env "widget COMPAT_MODE_IE9" 1 count_func None]
    builtin_propput_shape_and_missing_setter
      [of "put_params (I4 1)" widget_env "widget COMPAT_MODE_IE8" 1 count_func None]
  by (simp add: positional_def put_params_def count_func_def widget_def widget_info_def
      dispex_compat_mode_def COMPAT_MODE_IE9_def COMPAT_MODE_IE8_def)

subsection \<open>Function objects\<close>

text \<open>
  C7. Reading the value of a function object (\<^verbatim>\<open>DISPATCH_PROPERTYGET\<close>) without a caller
  fails with \<^verbatim>\<open>E_ACCESSDENIED\<close> and yields no result, whether or not the call has a place
  for a result; with a caller and a place for the result it succeeds with the string
  made of a line break, \<^verbatim>\<open>function \<close>, the name of the member, \<^verbatim>\<open>() {\<close>, a line break, four
  blanks and \<^verbatim>\<open>[native code]\<close>, a line break, \<^verbatim>\<open>}\<close> and a line break. The name is that of
  the bound member, or \<^verbatim>\<open>apply\<close> or \<^verbatim>\<open>call\<close> for the two helper objects.
\<close>

theorem function_value_get:
  "function_value env This DISPATCH_PROPERTYGET params res None = Some (E_ACCESSDENIED, None)
   \<and> (finfo This = Some fi \<longrightarrow>
        function_value env This DISPATCH_PROPERTYGET params True (Some sp) =
          Some (S_OK, Some \<lparr>vt = VT_BSTR,
                  un = U_BSTR (Some ([CHR 0x0A] @ ''function '' @ func_name fi @ ''() {''
                                     @ [CHR 0x0A] @ ''    [native code]'' @ [CHR 0x0A] @ ''}''
                                     @ [CHR 0x0A]))\<rparr>))
   \<and> (finfo This = None \<and> idx This < length function_prop_names \<longrightarrow>
        function_value env This DISPATCH_PROPERTYGET params True (Some sp) =
          Some (S_OK, Some \<lparr>vt = VT_BSTR,
                  un = U_BSTR (Some ([CHR 0x0A] @ ''function '' @ function_prop_names ! idx This
                                     @ ''() {'' @ [CHR 0x0A] @ ''    [native code]'' @ [CHR 0x0A]
                                     @ ''}'' @ [CHR 0x0A]))\<rparr>))"
  by (simp add: function_value_def func_prefixW_def func_suffixW_def)

theorem function_value_get_witness:
  "function_value widget_env area_disp DISPATCH_PROPERTYGET (positional []) True None
     = Some (E_ACCESSDENIED, None)
   \<and> function_value widget_env area_disp DISPATCH_PROPERTYGET (positional []) True (Some None)
     = Some (S_OK, Some \<lparr>vt = VT_BSTR,
          un = U_BSTR (Some ([CHR 0x0A] @ ''function area() {'' @ [CHR 0x0A] @ ''    [native code]''
                             @ [CHR 0x0A] @ ''}'' @ [CHR 0x0A]))\<rparr>)
   \<and> function_value widget_env apply_disp DISPATCH_PROPERTYGET (positional []) True (Some None)
     = Some (S_OK, Some \<lparr>vt = VT_BSTR,
          un = U_BSTR (Some ([CHR 0x0A] @ ''function apply() {'' @ [CHR 0x0A] @ ''    [native code]''
                             @ [CHR 0x0A] @ ''}'' @ [CHR 0x0A]))\<rparr>)"
  using function_value_get [of widget_env area_disp "positional []" True area_func None]
    function_value_get [of widget_env apply_disp "positional []" True area_func None]
  by (simp add: area_disp_def apply_disp_def area_func_def function_prop_names_def)

text \<open>
  The branch stores the string through the result pointer without testing it, unlike the
  case \<^verbatim>\<open>DISPATCH_METHOD|DISPATCH_PROPERTYGET\<close> above it: a read with a caller and no place
  for the result does not return.
\<close>

lemma function_value_null_result:
  "function_value env This DISPATCH_PROPERTYGET params False (Some sp) = None"
  by (simp add: function_value_def)

text \<open>
  C10. A function object that is not bound to a member (the object behind \<^verbatim>\<open>apply\<close> or
  \<^verbatim>\<open>call\<close>) resolves no name, \<^verbatim>\<open>apply\<close> and \<^verbatim>\<open>call\<close> included: its name hook answers
  \<^verbatim>\<open>DISP_E_UNKNOWNNAME\<close> for every name and every flag word, and its identifier hook answers
  \<^verbatim>\<open>DISP_E_MEMBERNOTFOUND\<close> for every identifier.
\<close>

theorem function_intrinsic_no_members:
  "finfo This = None \<Longrightarrow>
     function_get_dispid This name grfdex = (DISP_E_UNKNOWNNAME, None)
     \<and> function_get_name This dispid = (DISP_E_MEMBERNOTFOUND, None)"
  by (simp add: function_get_dispid_def function_get_name_def)

theorem function_intrinsic_no_members_witness:
  "function_get_dispid apply_disp ''apply'' fdexNameCaseSensitive = (DISP_E_UNKNOWNNAME, None)
   \<and> function_get_dispid apply_disp ''call'' fdexNameCaseInsensitive = (DISP_E_UNKNOWNNAME, None)
   \<and> function_get_name apply_disp MSHTML_DISPID_CUSTOM_MIN = (DISP_E_MEMBERNOTFOUND, None)
   \<and> function_get_dispid area_disp ''apply'' fdexNameCaseSensitive = (S_OK, Some MSHTML_DISPID_CUSTOM_MIN)
   \<and> function_get_dispid area_disp ''CALL'' fdexNameCaseInsensitive = (S_OK, Some (MSHTML_DISPID_CUSTOM_MIN + 1))
   \<and> function_get_name area_disp (MSHTML_DISPID_CUSTOM_MIN + 1) = (S_OK, Some ''call'')"
proof -
  have n: "finfo apply_disp = None" by (simp add: apply_disp_def)
  have ci: "\<not> wcsicmp_eq ''CALL'' ''apply''" "wcsicmp_eq ''CALL'' ''call''"
    by code_simp+
  have "function_get_dispid area_disp ''apply'' fdexNameCaseSensitive = (S_OK, Some MSHTML_DISPID_CUSTOM_MIN)"
    "function_get_dispid area_disp ''CALL'' fdexNameCaseInsensitive = (S_OK, Some (MSHTML_DISPID_CUSTOM_MIN + 1))"
    "function_get_name area_disp (MSHTML_DISPID_CUSTOM_MIN + 1) = (S_OK, Some ''call'')"
    by (simp_all add: function_get_dispid_def function_get_name_def area_disp_def
        function_prop_names_def ci)
  with function_intrinsic_no_members [OF n, of "''apply''" fdexNameCaseSensitive MSHTML_DISPID_CUSTOM_MIN]
    function_intrinsic_no_members [OF n, of "''call''" fdexNameCaseInsensitive MSHTML_DISPID_CUSTOM_MIN]
  show ?thesis by simp
qed

subsection \<open>The apply member\<close>

lemma apply_args_readable:
  "list_all (item_readable env disp dispex caller) ixs \<Longrightarrow>
     apply_args env disp dispex caller ixs = Inr (map (array_item env disp dispex caller) ixs)"
proof (induction ixs)
  case Nil
  then show ?case by simp
next
  case (Cons i rest)
  then have r: "item_readable env disp dispex caller i"
    and rest: "apply_args env disp dispex caller rest = Inr (map (array_item env disp dispex caller) rest)"
    by simp_all
  obtain h d where gd: "array_GetDispID env disp dispex (utoa i) = (h, d)"
    by (cases "array_GetDispID env disp dispex (utoa i)")
  obtain h' v where inv: "array_Invoke env disp dispex d None caller = (h', v)"
    by (cases "array_Invoke env disp dispex d None caller")
  show ?case
  proof (cases "h = DISP_E_UNKNOWNNAME")
    case True
    then show ?thesis using rest gd
      by (simp add: array_item_def FAILED_def)
  next
    case False
    with r gd inv have "\<not> FAILED h" "\<not> FAILED h'"
      by (simp_all add: item_readable_def)
    with False rest gd inv show ?thesis
      by (simp add: array_item_def)
  qed
qed

lemma upt_0_3: "[0 ..< 3] = [0, 1, 2::nat]"
  by code_simp

lemma utoa_small: "utoa 0 = ''0''" "utoa (Suc 0) = ''1''" "utoa 2 = ''2''"
  by code_simp+

text \<open>
  C6, as the code has it. Called with a target and an array-like object, \<^verbatim>\<open>function_apply\<close>
  looks up and reads \<^verbatim>\<open>length\<close>, reads that many indexed properties and calls the bound
  method on the target with them in index order, an index whose name the object does not
  know giving an empty argument. It fails at once with \<^verbatim>\<open>CTL_E_ILLEGALFUNCTIONCALL\<close> when
  the name \<^verbatim>\<open>length\<close> cannot be resolved and when the length is negative or cannot be
  converted to an integer. When reading the length itself fails, the call fails at once
  with the error of that read, \<^verbatim>\<open>E_UNEXPECTED\<close> alone being reported as
  \<^verbatim>\<open>CTL_E_ILLEGALFUNCTIONCALL\<close>.
\<close>

theorem function_apply_array:
  assumes shape: "cArgs dp = length (rgvarg dp)" "2 \<le> cArgs dp"
    and target: "rgvarg dp ! (cArgs dp - 1) = \<lparr>vt = VT_DISPATCH, un = U_DISPATCH (Some this_obj)\<rparr>"
    and array: "rgvarg dp ! (cArgs dp - 2) = \<lparr>vt = VT_DISPATCH, un = U_DISPATCH (Some disp)\<rparr>"
    and bound: "finfo func = Some fi"
    and dispex: "dispex = (if SUCCEEDED (fst (QueryInterface_IDispatchEx env disp))
                           then snd (QueryInterface_IDispatchEx env disp) else None)"
    and len_id: "len_id = array_GetDispID env disp dispex ''length''"
    and len: "len = array_Invoke env disp dispex (snd len_id)
                      (Some \<lparr>rgvarg = [], rgdispidNamedArgs = [], cArgs = 0, cNamedArgs = 0\<rparr>) caller"
    and conv: "conv = (if vt (snd len) = VT_I4 then (fst len, snd len)
                       else change_type env (snd len) VT_I4 caller)"
  shows
    "(FAILED (fst len_id) \<or> snd len_id = DISPID_UNKNOWN \<longrightarrow>
        function_apply env func dp True caller = Some (CTL_E_ILLEGALFUNCTIONCALL, None))
     \<and> (\<not> FAILED (fst len_id) \<and> snd len_id \<noteq> DISPID_UNKNOWN \<and> FAILED (fst len) \<longrightarrow>
        function_apply env func dp True caller =
          Some (if fst len = E_UNEXPECTED then CTL_E_ILLEGALFUNCTIONCALL else fst len, None))
     \<and> (\<not> FAILED (fst len_id) \<and> snd len_id \<noteq> DISPID_UNKNOWN \<and> \<not> FAILED (fst len)
         \<and> (FAILED (fst conv) \<or> V_I4 (snd conv) < 0) \<longrightarrow>
        function_apply env func dp True caller = Some (CTL_E_ILLEGALFUNCTIONCALL, None))
     \<and> (\<not> FAILED (fst len_id) \<and> snd len_id \<noteq> DISPID_UNKNOWN \<and> \<not> FAILED (fst len)
         \<and> \<not> FAILED (fst conv) \<and> 0 \<le> V_I4 (snd conv)
         \<and> list_all (item_readable env disp dispex caller) [0 ..< nat (V_I4 (snd conv))] \<longrightarrow>
        function_apply env func dp True caller =
          map_option (\<lambda>r. (unexpected_is_illegal (fst r), snd r))
            (invoke_builtin_function env this_obj fi
               \<lparr>rgvarg = rev (map (array_item env disp dispex caller) [0 ..< nat (V_I4 (snd conv))]),
                rgdispidNamedArgs = [], cArgs = nat (V_I4 (snd conv)), cNamedArgs = 0\<rparr>
               True caller))"
proof -
  have pre: "\<not> cArgs dp < 1" "vt (rgvarg dp ! (cArgs dp - 1)) = VT_DISPATCH"
    "V_DISPATCH (rgvarg dp ! (cArgs dp - 1)) = Some this_obj"
    "vt (rgvarg dp ! (cArgs dp - 2)) AND NOT VT_BYREF = VT_DISPATCH"
    "vt (rgvarg dp ! (cArgs dp - 2)) AND VT_BYREF = 0"
    "V_DISPATCH (rgvarg dp ! (cArgs dp - 2)) = Some disp"
    using shape target array by (auto simp: V_DISPATCH_def)
  show ?thesis
    using pre shape(2) bound
    unfolding function_apply_def Let_def dispex len_id len conv
    by (auto simp: unexpected_is_illegal_def apply_args_readable)
qed

theorem function_apply_array_witness:
  "function_apply (array_env (S_OK, I4 3)) area_disp (positional [IDISPATCH 1, IDISPATCH 2]) True None
     = Some (S_OK, Some (I4 12))
   \<and> function_apply (array_env (S_OK, I4 (- 1))) area_disp (positional [IDISPATCH 1, IDISPATCH 2]) True None
     = Some (CTL_E_ILLEGALFUNCTIONCALL, None)
   \<and> function_apply (array_env (E_UNEXPECTED, VariantInit)) area_disp (positional [IDISPATCH 1, IDISPATCH 2]) True None
     = Some (CTL_E_ILLEGALFUNCTIONCALL, None)"
proof -
  let ?dp = "positional [IDISPATCH 1, IDISPATCH 2]"
  have shape: "cArgs ?dp = length (rgvarg ?dp)" "2 \<le> cArgs ?dp"
    "rgvarg ?dp ! (cArgs ?dp - 1) = \<lparr>vt = VT_DISPATCH, un = U_DISPATCH (Some 1)\<rparr>"
    "rgvarg ?dp ! (cArgs ?dp - 2) = \<lparr>vt = VT_DISPATCH, un = U_DISPATCH (Some 2)\<rparr>"
    "finfo area_disp = Some area_func"
    by (simp_all add: positional_def IDISPATCH_def area_disp_def)
  note fa = function_apply_array [OF shape refl refl refl refl, of _ None]
  have dx: "(if SUCCEEDED (fst (QueryInterface_IDispatchEx (array_env r) 2))
             then snd (QueryInterface_IDispatchEx (array_env r) 2) else None) = None" for r
    by (simp add: array_env_def widget_env_def SUCCEEDED_def)
  have id: "array_GetDispID (array_env r) 2 None ''length'' = (S_OK, 100)" for r
    by (simp add: array_GetDispID_def array_env_def)
  have len: "array_Invoke (array_env r) 2 None 100 p None = r" for r p
    by (simp add: array_Invoke_def array_env_def)
  have items: "list_all (item_readable (array_env r) 2 None None) [0 ..< 3]" for r
    by (simp add: upt_0_3 item_readable_def array_GetDispID_def array_Invoke_def
        array_env_def utoa_small FAILED_def)
  have vals: "map (array_item (array_env r) 2 None None) [0 ..< 3]
                = [I4 3, I4 4, \<lparr>vt = VT_EMPTY, un = U_NONE\<rparr>]" for r
    by (simp add: upt_0_3 array_item_def array_GetDispID_def array_Invoke_def
        array_env_def utoa_small)
  have call: "invoke_builtin_function (array_env r) (Suc 0) area_func
                \<lparr>rgvarg = [\<lparr>vt = VT_EMPTY, un = U_NONE\<rparr>, I4 4, I4 3], rgdispidNamedArgs = [],
                 cArgs = 3, cNamedArgs = 0\<rparr> True None = Some (S_OK, Some (I4 12))" for r
    by (simp add: invoke_builtin_function_def array_env_def widget_env_def area_func_def
        FAILED_def upt_0_3 convert_arg_def change_type_def call_native_def
        is_arg_type_supported_def I4_def V_I4_def IID_NULL_def Let_def)
  have i4: "vt (I4 n) = VT_I4" "V_I4 (I4 n) = n" for n
    by (simp_all add: I4_def V_I4_def)
  have 1: "function_apply (array_env (S_OK, I4 3)) area_disp ?dp True None = Some (S_OK, Some (I4 12))"
    using fa [of "array_env (S_OK, I4 3)", unfolded dx id len] items [of "(S_OK, I4 3)"]
    by (simp add: len i4 vals call FAILED_def unexpected_is_illegal_def)
  have 2: "function_apply (array_env (S_OK, I4 (- 1))) area_disp ?dp True None
             = Some (CTL_E_ILLEGALFUNCTIONCALL, None)"
    using fa [of "array_env (S_OK, I4 (- 1))", unfolded dx id len]
    by (simp add: len i4 FAILED_def)
  have 3: "function_apply (array_env (E_UNEXPECTED, VariantInit)) area_disp ?dp True None
             = Some (CTL_E_ILLEGALFUNCTIONCALL, None)"
    using fa [of "array_env (E_UNEXPECTED, VariantInit)", unfolded dx id len]
    by (simp add: len FAILED_def)
  from 1 2 3 show ?thesis by blast
qed

text \<open>
  The length getter of this array fails with \<^verbatim>\<open>E_FAIL\<close>, and \<^verbatim>\<open>E_FAIL\<close> is what the call
  returns, not \<^verbatim>\<open>CTL_E_ILLEGALFUNCTIONCALL\<close>.
\<close>

theorem function_apply_length_getter_counterexample:
  "FAILED (fst (IDispatch_Invoke (array_env (E_FAIL, VariantInit)) 2 100 DISPATCH_PROPERTYGET
                  (Some \<lparr>rgvarg = [], rgdispidNamedArgs = [], cArgs = 0, cNamedArgs = 0\<rparr>)))
   \<and> function_apply (array_env (E_FAIL, VariantInit)) area_disp
         (positional [IDISPATCH 1, IDISPATCH 2]) True None = Some (E_FAIL, None)
   \<and> E_FAIL \<noteq> CTL_E_ILLEGALFUNCTIONCALL"
  by (simp add: function_apply_def array_env_def widget_env_def positional_def IDISPATCH_def
      V_DISPATCH_def area_disp_def FAILED_def SUCCEEDED_def array_GetDispID_def array_Invoke_def
      unexpected_is_illegal_def Let_def)

subsection \<open>The dynamic property store\<close>

lemma get_dynamic_data_idem [simp]: "get_dynamic_data (get_dynamic_data This) = get_dynamic_data This"
  by (simp add: get_dynamic_data_def split: option.splits)

lemma get_dynamic_data_allocated [simp]: "dynamic_data (get_dynamic_data This) \<noteq> None"
  by (simp add: get_dynamic_data_def split: option.splits)

lemma get_dynamic_data_fields [simp]:
  "prototype (get_dynamic_data This) = prototype This"
  "info (get_dynamic_data This) = info This"
  "info_is_delayed (get_dynamic_data This) = info_is_delayed This"
  "proxy (get_dynamic_data This) = proxy This"
  by (simp_all add: get_dynamic_data_def split: option.splits)

lemma get_dynamic_data_id: "dynamic_data This \<noteq> None \<Longrightarrow> get_dynamic_data This = This"
  by (auto simp: get_dynamic_data_def)

lemma the_props_nonempty_allocated: "i < length (the_props This) \<Longrightarrow> dynamic_data This \<noteq> None"
  by (auto simp: the_props_def split: option.splits)

lemma name_matches_refl [simp]: "name_matches grfdex x x"
  by (simp add: name_matches_def wcsicmp_eq_def)

lemma find_prop_Some:
  "find_prop grfdex x ps = Some i \<Longrightarrow> i < length ps \<and> name_matches grfdex (prop_name (ps ! i)) x"
  by (induction ps arbitrary: i) (auto split: if_splits)

lemma find_prop_names:
  "map prop_name ps = map prop_name ps' \<Longrightarrow> find_prop grfdex x ps = find_prop grfdex x ps'"
proof (induction ps arbitrary: ps')
  case Nil
  then show ?case by simp
next
  case (Cons q qs)
  then obtain q' qs' where "ps' = q' # qs'" "prop_name q = prop_name q'" "map prop_name qs = map prop_name qs'"
    by (cases ps') auto
  with Cons.IH [of qs'] show ?case by simp
qed

lemma find_prop_append:
  "find_prop grfdex x ps = None \<Longrightarrow> prop_name q = x \<Longrightarrow> find_prop grfdex x (ps @ [q]) = Some (length ps)"
  by (induction ps) (auto split: if_splits)

lemma names_update:
  assumes "prop_name y = prop_name (ps ! i)"
  shows "map prop_name (ps[i := y]) = map prop_name ps"
proof (cases "i < length ps")
  case True
  with assms have "(map prop_name ps)[i := prop_name y] = (map prop_name ps)[i := map prop_name ps ! i]"
    by simp
  then show ?thesis by (simp add: map_update)
next
  case False
  then show ?thesis by (simp add: list_update_beyond)
qed

lemma update_prop_other [simp]: "b \<noteq> a \<Longrightarrow> update_prop h a i f b = h b"
  by (simp add: update_prop_def)

lemma the_props_update_prop:
  "the_props (update_prop h a i f b) =
     (if b = a then (the_props (h a))[i := f (the_props (h a) ! i)] else the_props (h b))"
  by (auto simp: update_prop_def the_props_def split: option.splits)

lemma update_prop_fields [simp]:
  "prototype (update_prop h a i f b) = prototype (h b)"
  "info (update_prop h a i f b) = info (h b)"
  "info_is_delayed (update_prop h a i f b) = info_is_delayed (h b)"
  "(dynamic_data (update_prop h a i f b) = None) = (dynamic_data (h b) = None)"
  by (auto simp: update_prop_def)

text \<open>A lookup in an object that has no prototype and no reference slots.\<close>

lemma get_dynamic_prop_no_prototype:
  assumes "prototype (h p) = None"
    and "list_all (\<lambda>q. DYNPROP_PROTREF \<notin> flags q) (the_props (get_dynamic_data (h p)))"
  shows "get_dynamic_prop (Suc m) h p name fdexNameCaseSensitive =
           Some (h(p := get_dynamic_data (h p)),
                 (case find_prop fdexNameCaseSensitive name (the_props (get_dynamic_data (h p))) of
                    Some j \<Rightarrow> if DYNPROP_DELETED \<in> flags (the_props (get_dynamic_data (h p)) ! j)
                              then (DISP_E_UNKNOWNNAME, None) else (S_OK, Some j)
                  | None \<Rightarrow> (DISP_E_UNKNOWNNAME, None)))"
proof (cases "find_prop fdexNameCaseSensitive name (the_props (get_dynamic_data (h p)))")
  case None
  with assms show ?thesis by simp
next
  case (Some j)
  let ?h1 = "h(p := get_dynamic_data (h p))"
  from find_prop_Some [OF Some] have j: "j < length (the_props (get_dynamic_data (h p)))" by simp
  with assms(2) have nopr: "DYNPROP_PROTREF \<notin> flags (the_props (get_dynamic_data (h p)) ! j)"
    by (simp add: list_all_length)
  have fx: "fixup_prop_ref m ?h1 p j = Some ?h1"
    using j nopr assms(1) by simp
  show ?thesis using Some fx by simp
qed

lemma store_ok_allocate:
  assumes "store_ok h a"
  shows "store_ok (h(a := get_dynamic_data (h a))) a"
  using assms by (auto simp: store_ok_def split: option.splits)

lemma get_dynamic_prop_allocate:
  "get_dynamic_prop (Suc n) (h(a := get_dynamic_data (h a))) a x g = get_dynamic_prop (Suc n) h a x g"
  by simp

text \<open>The fix-up of a slot of an instance whose store is well formed.\<close>

lemma fixup_prop_ref_ok:
  assumes ok: "store_ok h a" and al: "dynamic_data (h a) \<noteq> None"
    and i: "i < length (the_props (h a))"
  shows "\<exists>h'. fixup_prop_ref (Suc m) h a i = Some h'
           \<and> map prop_name (the_props (h' a)) = map prop_name (the_props (h a))
           \<and> store_ok h' a \<and> dynamic_data (h' a) \<noteq> None"
proof -
  let ?q = "the_props (h a) ! i"
  have gdd: "get_dynamic_data (h a) = h a" using al by (rule get_dynamic_data_id)
  consider (deleted) "DYNPROP_DELETED \<in> flags ?q"
    | (ref) "DYNPROP_DELETED \<notin> flags ?q" "DYNPROP_PROTREF \<in> flags ?q"
    | (plain) "DYNPROP_DELETED \<notin> flags ?q" "DYNPROP_PROTREF \<notin> flags ?q"
    by blast
  then show ?thesis
  proof cases
    case plain
    with i ok al show ?thesis by simp
  next
    case ref
    from ok i ref(2) gdd obtain p where p: "prototype (h a) = Some p"
      and r: "V_UI4 (var ?q) < length (the_props (h p))"
      by (auto simp: store_ok_def list_all_length split: option.splits)
    from ok p have pa: "p \<noteq> a" by (simp add: store_ok_def)
    show ?thesis
    proof (cases "DYNPROP_DELETED \<in> flags (the_props (h p) ! V_UI4 (var ?q))")
      case False
      with i ref p r ok al show ?thesis by simp
    next
      case True
      let ?h' = "update_prop h a i (\<lambda>q. q\<lparr>flags := {DYNPROP_DELETED}\<rparr>)"
      have f: "fixup_prop_ref (Suc m) h a i = Some ?h'"
        using i ref p r True by simp
      have names: "map prop_name (the_props (?h' a)) = map prop_name (the_props (h a))"
        by (simp add: the_props_update_prop names_update)
      have al': "dynamic_data (?h' a) \<noteq> None" using al by simp
      have "store_ok ?h' a"
        using ok pa p al al' gdd
        by (auto simp: store_ok_def get_dynamic_data_id the_props_update_prop list_all_iff
            dest!: set_update_subset_insert [THEN subsetD])
      with f names al' show ?thesis by blast
    qed
  next
    case deleted
    show ?thesis
    proof (cases "prototype (h a)")
      case None
      with i deleted ok al show ?thesis by simp
    next
      case (Some p)
      with ok have pa: "p \<noteq> a" and pp: "prototype (h p) = None"
        and pr: "list_all (\<lambda>q. DYNPROP_PROTREF \<notin> flags q) (the_props (get_dynamic_data (h p)))"
        by (simp_all add: store_ok_def)
      let ?h1 = "h(p := get_dynamic_data (h p))"
      let ?ps = "the_props (get_dynamic_data (h p))"
      note look = get_dynamic_prop_no_prototype [where h = h and p = p and m = m and name = "prop_name ?q", OF pp pr]
      have len: "length (the_props (h p)) \<le> length ?ps"
        by (cases "dynamic_data (h p)") (simp_all add: the_props_def get_dynamic_data_id)
      have ok1: "store_ok ?h1 a"
        using ok Some pa len gdd
        by (auto simp: store_ok_def list_all_iff)
      have al1: "dynamic_data (?h1 a) \<noteq> None" using al pa by simp
      have same: "the_props (?h1 a) = the_props (h a)" using pa by simp
      show ?thesis
      proof (cases "find_prop fdexNameCaseSensitive (prop_name ?q) ?ps")
        case None
        then have "fixup_prop_ref (Suc m) h a i = Some ?h1"
          using i deleted Some look by (simp add: FAILED_def)
        with ok1 al1 same show ?thesis by simp
      next
        case (Some j)
        from find_prop_Some [OF Some] have j: "j < length ?ps" by simp
        show ?thesis
        proof (cases "DYNPROP_DELETED \<in> flags (?ps ! j)")
          case True
          then have "fixup_prop_ref (Suc m) h a i = Some ?h1"
            using i deleted \<open>prototype (h a) = Some p\<close> look Some by (simp add: FAILED_def)
          with ok1 al1 same show ?thesis by simp
        next
          case False
          let ?h' = "update_prop ?h1 a i (\<lambda>q. q\<lparr>flags := {DYNPROP_PROTREF}, var := (var q)\<lparr>un := U_UI4 j\<rparr>\<rparr>)"
          have f: "fixup_prop_ref (Suc m) h a i = Some ?h'"
            using i deleted \<open>prototype (h a) = Some p\<close> look Some False by (simp add: FAILED_def)
          have names: "map prop_name (the_props (?h' a)) = map prop_name (the_props (h a))"
            using pa by (simp add: the_props_update_prop names_update)
          have al': "dynamic_data (?h' a) \<noteq> None" using al1 by simp
          have "store_ok ?h' a"
            using ok1 pa \<open>prototype (h a) = Some p\<close> al1 al' j
            by (auto simp: store_ok_def get_dynamic_data_id the_props_update_prop list_all_iff V_UI4_def
                dest!: set_update_subset_insert [THEN subsetD])
          with f names al' show ?thesis by blast
        qed
      qed
    qed
  qed
qed

lemma the_props_append:
  "dynamic_data X \<noteq> None \<Longrightarrow>
     the_props (X\<lparr>dynamic_data := map_option (\<lambda>d. append_prop d q) (dynamic_data X)\<rparr>) = the_props X @ [q]"
  by (auto simp: the_props_def append_prop_def)

lemma create_found:
  assumes ok: "store_ok h a" and al: "dynamic_data (h a) \<noteq> None"
    and found: "find_prop g x (the_props (h a)) = Some i"
    and ens: "g AND fdexNameEnsure \<noteq> 0"
  shows "\<exists>h'. get_dynamic_prop (Suc (Suc m)) h a x g = Some (h', S_OK, Some i)
           \<and> map prop_name (the_props (h' a)) = map prop_name (the_props (h a))
           \<and> store_ok h' a \<and> dynamic_data (h' a) \<noteq> None
           \<and> DYNPROP_DELETED \<notin> flags (the_props (h' a) ! i)"
proof -
  have gdd: "get_dynamic_data (h a) = h a" using al by (rule get_dynamic_data_id)
  then have h1: "h(a := get_dynamic_data (h a)) = h" by simp
  from find_prop_Some [OF found] have i: "i < length (the_props (h a))" by simp
  from fixup_prop_ref_ok [OF ok al i, of m] obtain h2 where
    f: "fixup_prop_ref (Suc m) h a i = Some h2"
    and names: "map prop_name (the_props (h2 a)) = map prop_name (the_props (h a))"
    and ok2: "store_ok h2 a" and al2: "dynamic_data (h2 a) \<noteq> None"
    by blast
  from names i have i2: "i < length (the_props (h2 a))"
    by (metis length_map)
  have gdd2: "get_dynamic_data (h2 a) = h2 a" using al2 by (rule get_dynamic_data_id)
  show ?thesis
  proof (cases "DYNPROP_DELETED \<in> flags (the_props (h2 a) ! i)")
    case False
    then have "get_dynamic_prop (Suc (Suc m)) h a x g = Some (h2, S_OK, Some i)"
      using h1 found f by simp
    with names ok2 al2 False show ?thesis by blast
  next
    case True
    let ?h' = "update_prop h2 a i (\<lambda>p. p\<lparr>flags := flags p - {DYNPROP_DELETED}\<rparr>)"
    have r: "get_dynamic_prop (Suc (Suc m)) h a x g = Some (?h', S_OK, Some i)"
      using h1 found f True ens by simp
    have n': "map prop_name (the_props (?h' a)) = map prop_name (the_props (h a))"
      using names by (simp add: the_props_update_prop names_update)
    have al': "dynamic_data (?h' a) \<noteq> None" using al2 by simp
    have nd: "DYNPROP_DELETED \<notin> flags (the_props (?h' a) ! i)"
      using i2 by (simp add: the_props_update_prop)
    have "store_ok ?h' a"
      using ok2 al2 al' gdd2 nth_mem [OF i2]
      by (auto simp: store_ok_def get_dynamic_data_id the_props_update_prop list_all_iff
          split: option.splits dest!: set_update_subset_insert [THEN subsetD])
    with r n' al' nd show ?thesis by blast
  qed
qed

lemma create_new:
  assumes ok: "store_ok h a" and al: "dynamic_data (h a) \<noteq> None"
    and nf: "find_prop g x (the_props (h a)) = None"
    and ens: "g AND fdexNameEnsure \<noteq> 0"
  shows "\<exists>h'. get_dynamic_prop (Suc (Suc m)) h a x g = Some (h', S_OK, Some (length (the_props (h a))))
           \<and> map prop_name (the_props (h' a)) = map prop_name (the_props (h a)) @ [x]
           \<and> store_ok h' a \<and> dynamic_data (h' a) \<noteq> None
           \<and> DYNPROP_DELETED \<notin> flags (the_props (h' a) ! length (the_props (h a)))"
proof -
  have gdd: "get_dynamic_data (h a) = h a" using al by (rule get_dynamic_data_id)
  then have h1: "h(a := get_dynamic_data (h a)) = h" by simp
  show ?thesis
  proof (cases "prototype (h a)")
    case None
    let ?new = "\<lparr>var = VariantInit, prop_name = x, flags = {}\<rparr>"
    let ?h' = "h(a := (h a)\<lparr>dynamic_data := map_option (\<lambda>d. append_prop d ?new) (dynamic_data (h a))\<rparr>)"
    have r: "get_dynamic_prop (Suc (Suc m)) h a x g = Some (?h', S_OK, Some (length (the_props (h a))))"
      using h1 nf None ens by simp
    have pr: "the_props (?h' a) = the_props (h a) @ [?new]"
      using al by (simp add: the_props_append)
    have al': "dynamic_data (?h' a) \<noteq> None" using al by auto
    have "store_ok ?h' a"
      using ok None al al' gdd pr
      by (auto simp: store_ok_def get_dynamic_data_id list_all_iff)
    with r pr al' show ?thesis by (simp add: nth_append)
  next
    case (Some p)
    with ok have pa: "p \<noteq> a" and pp: "prototype (h p) = None"
      and nopr: "list_all (\<lambda>q. DYNPROP_PROTREF \<notin> flags q) (the_props (get_dynamic_data (h p)))"
      by (simp_all add: store_ok_def)
    let ?h1 = "h(p := get_dynamic_data (h p))"
    let ?ps = "the_props (get_dynamic_data (h p))"
    note look = get_dynamic_prop_no_prototype [where h = h and p = p and m = m and name = x, OF pp nopr]
    have len: "length (the_props (h p)) \<le> length ?ps"
      by (cases "dynamic_data (h p)") (simp_all add: the_props_def get_dynamic_data_id)
    have ok1: "store_ok ?h1 a"
      using ok Some pa len gdd by (auto simp: store_ok_def list_all_iff)
    have al1: "dynamic_data (?h1 a) \<noteq> None" using al pa by simp
    have same: "?h1 a = h a" using pa by simp
    have gdd1: "get_dynamic_data (?h1 a) = ?h1 a" using al1 by (rule get_dynamic_data_id)
    define prot_prop where "prot_prop =
      (case find_prop fdexNameCaseSensitive x ?ps of
         None \<Rightarrow> None
       | Some j \<Rightarrow> if DYNPROP_DELETED \<in> flags (?ps ! j) then None else Some j)"
    define new where "new =
      (case prot_prop of
         None \<Rightarrow> \<lparr>var = VariantInit, prop_name = x, flags = {}\<rparr>
       | Some j \<Rightarrow> \<lparr>var = VariantInit\<lparr>un := U_UI4 j\<rparr>, prop_name = x, flags = {DYNPROP_PROTREF}\<rparr>)"
    let ?h' = "?h1(a := (?h1 a)\<lparr>dynamic_data := map_option (\<lambda>d. append_prop d new) (dynamic_data (?h1 a))\<rparr>)"
    have r: "get_dynamic_prop (Suc (Suc m)) h a x g = Some (?h', S_OK, Some (length (the_props (h a))))"
      using h1 nf Some ens look pa
      by (auto simp: prot_prop_def new_def FAILED_def split: option.splits)
    have pr: "the_props (?h' a) = the_props (h a) @ [new]"
      using al1 same by (simp add: the_props_append)
    have nm: "prop_name new = x" by (simp add: new_def split: option.splits)
    have nd: "DYNPROP_DELETED \<notin> flags new" by (simp add: new_def split: option.splits)
    have ref: "DYNPROP_PROTREF \<in> flags new \<Longrightarrow> V_UI4 (var new) < length ?ps"
      using find_prop_Some [of fdexNameCaseSensitive x ?ps]
      by (auto simp: new_def prot_prop_def V_UI4_def split: option.splits if_splits)
    have al': "dynamic_data (?h' a) \<noteq> None" using al1 by auto
    have "store_ok ?h' a"
      using ok1 Some pa al1 al' gdd1 pr ref same
      by (auto simp: store_ok_def get_dynamic_data_id list_all_iff)
    with r pr al' nm nd show ?thesis by (simp add: nth_append)
  qed
qed

lemma dynamic_idx:
  "int i \<le> 0x0fffffff \<Longrightarrow> get_dispid_type (DISPID_DYNPROP_0 + int i) = DISPEXPROP_DYNAMIC
      \<and> \<not> is_custom_dispid (DISPID_DYNPROP_0 + int i)
      \<and> is_dynamic_dispid (DISPID_DYNPROP_0 + int i)
      \<and> nat (DISPID_DYNPROP_0 + int i - DISPID_DYNPROP_0) = i"
  by (simp add: get_dispid_type_def is_dynamic_dispid_def is_custom_dispid_def)

lemma delete_keeps_store:
  assumes ok: "store_ok h a" and al: "dynamic_data (h a) \<noteq> None"
  shows "map prop_name (the_props (snd (dispex_delete_prop h a d) a)) = map prop_name (the_props (h a))
         \<and> store_ok (snd (dispex_delete_prop h a d)) a
         \<and> dynamic_data (snd (dispex_delete_prop h a d) a) \<noteq> None"
proof -
  have gdd: "get_dynamic_data (h a) = h a" using al by (rule get_dynamic_data_id)
  then have h1: "h(a := get_dynamic_data (h a)) = h" by simp
  let ?idx = "nat (d - DISPID_DYNPROP_0)"
  let ?h' = "update_prop h a ?idx (\<lambda>p. p\<lparr>var := VariantClear (var p), flags := insert DYNPROP_DELETED (flags p)\<rparr>)"
  have "snd (dispex_delete_prop h a d) = h
        \<or> (snd (dispex_delete_prop h a d) = ?h' \<and> ?idx < length (the_props (h a))
           \<and> DYNPROP_PROTREF \<notin> flags (the_props (h a) ! ?idx))"
    using h1 by (auto simp: dispex_delete_prop_def Let_def split: option.splits dispex_prop_type_t.splits)
  then show ?thesis
  proof (elim disjE conjE)
    assume "snd (dispex_delete_prop h a d) = h"
    with ok al show ?thesis by simp
  next
    assume del: "snd (dispex_delete_prop h a d) = ?h'" "?idx < length (the_props (h a))"
        "DYNPROP_PROTREF \<notin> flags (the_props (h a) ! ?idx)"
    have names: "map prop_name (the_props (?h' a)) = map prop_name (the_props (h a))"
      by (simp add: the_props_update_prop names_update)
    have al': "dynamic_data (?h' a) \<noteq> None" using al by simp
    have "store_ok ?h' a"
      using ok al al' gdd del(3) nth_mem [OF del(2)]
      by (auto simp: store_ok_def get_dynamic_data_id the_props_update_prop list_all_iff
          split: option.splits dest!: set_update_subset_insert [THEN subsetD])
    with del(1) names al' show ?thesis by simp
  qed
qed

lemma delete_marks_slot:
  assumes al: "dynamic_data (h a) \<noteq> None" and i: "i < length (the_props (h a))"
    and id: "int i \<le> 0x0fffffff"
    and mode: "COMPAT_MODE_IE8 \<le> dispex_compat_mode (h a)"
    and plain: "DYNPROP_PROTREF \<notin> flags (the_props (h a) ! i)"
  shows "DYNPROP_DELETED \<in> flags (the_props (snd (dispex_delete_prop h a (DISPID_DYNPROP_0 + int i)) a) ! i)"
proof -
  have gdd: "get_dynamic_data (h a) = h a" using al by (rule get_dynamic_data_id)
  then have h1: "h(a := get_dynamic_data (h a)) = h" by simp
  show ?thesis
    using dynamic_idx [OF id] h1 i mode plain
    by (simp add: dispex_delete_prop_def Let_def the_props_update_prop)
qed

lemma legacy_simps:
  "the_props (legacy_object proto ps) = ps"
  "prototype (legacy_object proto ps) = proto"
  "dispex_compat_mode (legacy_object proto ps) = COMPAT_MODE_IE8"
  "get_dynamic_data (legacy_object proto ps) = legacy_object proto ps"
  "dynamic_data (legacy_object proto ps) \<noteq> None"
  by (simp_all add: legacy_object_def the_props_def dispex_compat_mode_def widget_info_def
      get_dynamic_data_def)

text \<open>
  C3. On an object with a well-formed store, looking a name up with \<^verbatim>\<open>fdexNameEnsure\<close>,
  deleting the property by the identifier \<^verbatim>\<open>DISPID_DYNPROP_0 + i\<close> of the returned slot and
  looking the name up again with the same flags returns the same slot \<open>i\<close>, hence the same
  identifier. The second lookup appends nothing: the property array keeps its length, the
  slot the deletion had flagged \<^verbatim>\<open>DYNPROP_DELETED\<close> is in use again. Both lookups return, with
  \<^verbatim>\<open>S_OK\<close>, for every depth bound of at least two.
\<close>

theorem create_delete_create:
  assumes ok: "store_ok h a" and ens: "grfdex AND fdexNameEnsure \<noteq> 0"
  shows "\<exists>h1 i h3.
           get_dynamic_prop (Suc (Suc m)) h a x grfdex = Some (h1, S_OK, Some i)
         \<and> get_dynamic_prop (Suc (Suc m)) (snd (dispex_delete_prop h1 a (DISPID_DYNPROP_0 + int i))) a x grfdex
             = Some (h3, S_OK, Some i)
         \<and> length (the_props (h3 a)) = length (the_props (h1 a))
         \<and> DYNPROP_DELETED \<notin> flags (the_props (h3 a) ! i)
         \<and> (COMPAT_MODE_IE8 \<le> dispex_compat_mode (h1 a) \<and> int i \<le> 0x0fffffff
              \<and> DYNPROP_PROTREF \<notin> flags (the_props (h1 a) ! i)
            \<longrightarrow> DYNPROP_DELETED
                  \<in> flags (the_props (snd (dispex_delete_prop h1 a (DISPID_DYNPROP_0 + int i)) a) ! i))"
proof -
  let ?h0 = "h(a := get_dynamic_data (h a))"
  have ok0: "store_ok ?h0 a" using ok by (rule store_ok_allocate)
  have al0: "dynamic_data (?h0 a) \<noteq> None" by simp
  have first: "\<exists>h1 i. get_dynamic_prop (Suc (Suc m)) ?h0 a x grfdex = Some (h1, S_OK, Some i)
                 \<and> find_prop grfdex x (the_props (h1 a)) = Some i
                 \<and> store_ok h1 a \<and> dynamic_data (h1 a) \<noteq> None"
  proof (cases "find_prop grfdex x (the_props (?h0 a))")
    case None
    from create_new [OF ok0 al0 None ens, of m] obtain h1 where
      c: "get_dynamic_prop (Suc (Suc m)) ?h0 a x grfdex = Some (h1, S_OK, Some (length (the_props (?h0 a))))"
      and n: "map prop_name (the_props (h1 a)) = map prop_name (the_props (?h0 a)) @ [x]"
      and rest: "store_ok h1 a" "dynamic_data (h1 a) \<noteq> None"
      by blast
    have "find_prop grfdex x (the_props (?h0 a) @ [\<lparr>var = VariantInit, prop_name = x, flags = {}\<rparr>])
            = Some (length (the_props (?h0 a)))"
      using None by (intro find_prop_append) simp_all
    moreover have "find_prop grfdex x (the_props (h1 a))
            = find_prop grfdex x (the_props (?h0 a) @ [\<lparr>var = VariantInit, prop_name = x, flags = {}\<rparr>])"
      using n by (intro find_prop_names) simp
    ultimately show ?thesis using c rest by auto
  next
    case (Some i)
    from create_found [OF ok0 al0 Some ens, of m] obtain h1 where
      c: "get_dynamic_prop (Suc (Suc m)) ?h0 a x grfdex = Some (h1, S_OK, Some i)"
      and n: "map prop_name (the_props (h1 a)) = map prop_name (the_props (?h0 a))"
      and rest: "store_ok h1 a" "dynamic_data (h1 a) \<noteq> None"
      by blast
    from n have "find_prop grfdex x (the_props (h1 a)) = find_prop grfdex x (the_props (?h0 a))"
      by (rule find_prop_names)
    with Some c rest show ?thesis by auto
  qed
  then obtain h1 i where
    c1: "get_dynamic_prop (Suc (Suc m)) h a x grfdex = Some (h1, S_OK, Some i)"
    and f1: "find_prop grfdex x (the_props (h1 a)) = Some i"
    and ok1: "store_ok h1 a" and al1: "dynamic_data (h1 a) \<noteq> None"
    unfolding get_dynamic_prop_allocate by blast
  let ?h2 = "snd (dispex_delete_prop h1 a (DISPID_DYNPROP_0 + int i))"
  from delete_keeps_store [OF ok1 al1, of "DISPID_DYNPROP_0 + int i"] have
    n2: "map prop_name (the_props (?h2 a)) = map prop_name (the_props (h1 a))"
    and ok2: "store_ok ?h2 a" and al2: "dynamic_data (?h2 a) \<noteq> None"
    by simp_all
  from n2 f1 have f2: "find_prop grfdex x (the_props (?h2 a)) = Some i"
    by (simp add: find_prop_names [OF n2])
  from create_found [OF ok2 al2 f2 ens, of m] obtain h3 where
    c3: "get_dynamic_prop (Suc (Suc m)) ?h2 a x grfdex = Some (h3, S_OK, Some i)"
    and n3: "map prop_name (the_props (h3 a)) = map prop_name (the_props (?h2 a))"
    and nd: "DYNPROP_DELETED \<notin> flags (the_props (h3 a) ! i)"
    by blast
  from n3 n2 have len: "length (the_props (h3 a)) = length (the_props (h1 a))"
    by (metis length_map)
  from find_prop_Some [OF f1] have i: "i < length (the_props (h1 a))" by simp
  have "COMPAT_MODE_IE8 \<le> dispex_compat_mode (h1 a) \<and> int i \<le> 0x0fffffff
          \<and> DYNPROP_PROTREF \<notin> flags (the_props (h1 a) ! i)
        \<longrightarrow> DYNPROP_DELETED \<in> flags (the_props (?h2 a) ! i)"
    using delete_marks_slot [where h = h1 and a = a and i = i, OF al1 i] by blast
  with c1 c3 len nd show ?thesis by blast
qed

theorem create_delete_create_witness:
  "store_ok proto_heap 1
   \<and> (\<exists>h1 i h3.
         get_dynamic_prop (Suc (Suc 0)) proto_heap 1 ''note'' fdexNameEnsure = Some (h1, S_OK, Some i)
       \<and> get_dynamic_prop (Suc (Suc 0)) (snd (dispex_delete_prop h1 1 (DISPID_DYNPROP_0 + int i))) 1
            ''note'' fdexNameEnsure = Some (h3, S_OK, Some i)
       \<and> length (the_props (h3 1)) = length (the_props (h1 1))
       \<and> DYNPROP_DELETED \<notin> flags (the_props (h3 1) ! i))"
proof -
  have ok: "store_ok proto_heap 1"
    by (simp add: store_ok_def proto_heap_def legacy_simps ref_prop_def V_UI4_def VariantInit_def)
  have ens: "fdexNameEnsure AND fdexNameEnsure \<noteq> (0 :: 32 word)" by simp
  from create_delete_create [where h = proto_heap and a = 1 and grfdex = fdexNameEnsure and m = 0
      and x = "''note''", OF ok ens]
  show ?thesis using ok by blast
qed

text \<open>
  C4. An instance whose slot \<open>i\<close> refers to the slot \<open>r\<close> of its prototype: deleting the
  slot on the instance changes nothing in the store; after the prototype's own entry is
  deleted, reading the slot of the instance flags it \<^verbatim>\<open>DYNPROP_DELETED\<close> and answers
  \<^verbatim>\<open>DISP_E_MEMBERNOTFOUND\<close>; and the fix-up looks at the flags of the prototype's slot only:
  as long as that slot is not flagged \<^verbatim>\<open>DYNPROP_DELETED\<close> the read returns what the slot
  holds, whatever the prototype itself refers to.
\<close>

theorem protoref_delete_and_fixup:
  assumes inst: "prototype (h a) = Some p" "p \<noteq> a"
    and i: "i < length (the_props (h a))" "int i \<le> 0x0fffffff"
    and ref: "DYNPROP_PROTREF \<in> flags (the_props (h a) ! i)"
      "DYNPROP_DELETED \<notin> flags (the_props (h a) ! i)"
    and r: "V_UI4 (var (the_props (h a) ! i)) = r" "r < length (the_props (h p))" "int r \<le> 0x0fffffff"
  shows "snd (dispex_delete_prop h a (DISPID_DYNPROP_0 + int i)) = h
     \<and> (COMPAT_MODE_IE8 \<le> dispex_compat_mode (h p) \<and> DYNPROP_PROTREF \<notin> flags (the_props (h p) ! r) \<longrightarrow>
          dispex_invoke env n (snd (dispex_delete_prop h p (DISPID_DYNPROP_0 + int r))) a this_obj
              (DISPID_DYNPROP_0 + int i) DISPATCH_PROPERTYGET pdp res caller
            = Some (update_prop (snd (dispex_delete_prop h p (DISPID_DYNPROP_0 + int r))) a i
                      (\<lambda>q. q\<lparr>flags := {DYNPROP_DELETED}\<rparr>),
                    DISP_E_MEMBERNOTFOUND, None))
     \<and> (DYNPROP_DELETED \<notin> flags (the_props (h p) ! r) \<longrightarrow>
          dispex_invoke env n h a this_obj (DISPID_DYNPROP_0 + int i) DISPATCH_PROPERTYGET pdp True caller
            = Some (h, fst (variant_copy env (var (the_props (h p) ! r))),
                    Some (snd (variant_copy env (var (the_props (h p) ! r))))))"
proof (intro conjI impI)
  have al: "dynamic_data (h a) \<noteq> None" using i(1) by (rule the_props_nonempty_allocated)
  then have h1: "h(a := get_dynamic_data (h a)) = h" by (simp add: get_dynamic_data_id)
  show "snd (dispex_delete_prop h a (DISPID_DYNPROP_0 + int i)) = h"
    using dynamic_idx [OF i(2)] h1 ref(1)
    by (simp add: dispex_delete_prop_def Let_def)
  {
    assume live: "DYNPROP_DELETED \<notin> flags (the_props (h p) ! r)"
    have f: "fixup_prop_ref n h a i = Some h" using i ref inst r live by simp
    show "dispex_invoke env n h a this_obj (DISPID_DYNPROP_0 + int i) DISPATCH_PROPERTYGET pdp True caller
            = Some (h, fst (variant_copy env (var (the_props (h p) ! r))),
                    Some (snd (variant_copy env (var (the_props (h p) ! r)))))"
      using dynamic_idx [OF i(2)] h1 i ref inst r f
      by (simp add: dispex_invoke_def Let_def resolve_prop_def)
  }
  {
    assume "COMPAT_MODE_IE8 \<le> dispex_compat_mode (h p) \<and> DYNPROP_PROTREF \<notin> flags (the_props (h p) ! r)"
    then have mode: "COMPAT_MODE_IE8 \<le> dispex_compat_mode (h p)"
      and own: "DYNPROP_PROTREF \<notin> flags (the_props (h p) ! r)" by simp_all
    let ?h' = "snd (dispex_delete_prop h p (DISPID_DYNPROP_0 + int r))"
    have alp: "dynamic_data (h p) \<noteq> None" using r(2) by (rule the_props_nonempty_allocated)
    then have hp: "h(p := get_dynamic_data (h p)) = h" by (simp add: get_dynamic_data_id)
    have del: "?h' = update_prop h p r
                 (\<lambda>q. q\<lparr>var := VariantClear (var q), flags := insert DYNPROP_DELETED (flags q)\<rparr>)"
      using dynamic_idx [OF r(3)] hp r(2) mode own
      by (simp add: dispex_delete_prop_def Let_def)
    have a': "?h' a = h a" using inst(2) by (simp add: del)
    have p': "the_props (?h' p) = (the_props (h p))[r := (the_props (h p) ! r)
                 \<lparr>var := VariantClear (var (the_props (h p) ! r)),
                  flags := insert DYNPROP_DELETED (flags (the_props (h p) ! r))\<rparr>]"
      by (simp add: del the_props_update_prop)
    have h1': "?h'(a := get_dynamic_data (?h' a)) = ?h'"
      using al a' by (metis fun_upd_triv get_dynamic_data_id)
    have f: "fixup_prop_ref n ?h' a i = Some (update_prop ?h' a i (\<lambda>q. q\<lparr>flags := {DYNPROP_DELETED}\<rparr>))"
      using i ref inst r a' p' by simp
    show "dispex_invoke env n ?h' a this_obj (DISPID_DYNPROP_0 + int i) DISPATCH_PROPERTYGET pdp res caller
            = Some (update_prop ?h' a i (\<lambda>q. q\<lparr>flags := {DYNPROP_DELETED}\<rparr>),
                    DISP_E_MEMBERNOTFOUND, None)"
      using dynamic_idx [OF i(2)] h1' i a' f
      by (simp add: dispex_invoke_def Let_def the_props_update_prop)
  }
qed

theorem protoref_delete_and_fixup_witness:
  "snd (dispex_delete_prop proto_heap 1 DISPID_DYNPROP_0) = proto_heap
   \<and> dispex_invoke widget_env 0 (snd (dispex_delete_prop proto_heap 2 DISPID_DYNPROP_0)) 1 1
        DISPID_DYNPROP_0 DISPATCH_PROPERTYGET (positional []) True None
      = Some (update_prop (snd (dispex_delete_prop proto_heap 2 DISPID_DYNPROP_0)) 1 0
                (\<lambda>q. q\<lparr>flags := {DYNPROP_DELETED}\<rparr>),
              DISP_E_MEMBERNOTFOUND, None)
   \<and> dispex_invoke widget_env 0 chain_heap 1 1 DISPID_DYNPROP_0 DISPATCH_PROPERTYGET (positional []) True None
      = Some (chain_heap, S_OK, Some \<lparr>vt = VT_EMPTY, un = U_UI4 0\<rparr>)"
proof -
  have p: "prototype (proto_heap 1) = Some 2" "(2::nat) \<noteq> 1"
    "0 < length (the_props (proto_heap 1))" "int 0 \<le> 0x0fffffff"
    "DYNPROP_PROTREF \<in> flags (the_props (proto_heap 1) ! 0)"
    "DYNPROP_DELETED \<notin> flags (the_props (proto_heap 1) ! 0)"
    "V_UI4 (var (the_props (proto_heap 1) ! 0)) = 0"
    "0 < length (the_props (proto_heap 2))"
    by (simp_all add: proto_heap_def legacy_simps ref_prop_def V_UI4_def VariantInit_def)
  have p2: "COMPAT_MODE_IE8 \<le> dispex_compat_mode (proto_heap 2)
            \<and> DYNPROP_PROTREF \<notin> flags (the_props (proto_heap 2) ! 0)"
    by (simp add: proto_heap_def legacy_simps)
  have c: "prototype (chain_heap 1) = Some 2" "(2::nat) \<noteq> 1"
    "0 < length (the_props (chain_heap 1))" "int 0 \<le> 0x0fffffff"
    "DYNPROP_PROTREF \<in> flags (the_props (chain_heap 1) ! 0)"
    "DYNPROP_DELETED \<notin> flags (the_props (chain_heap 1) ! 0)"
    "V_UI4 (var (the_props (chain_heap 1) ! 0)) = 0"
    "0 < length (the_props (chain_heap 2))"
    by (simp_all add: chain_heap_def legacy_simps ref_prop_def V_UI4_def VariantInit_def)
  have c2: "DYNPROP_DELETED \<notin> flags (the_props (chain_heap 2) ! 0)"
    "variant_copy widget_env (var (the_props (chain_heap 2) ! 0)) = (S_OK, \<lparr>vt = VT_EMPTY, un = U_UI4 0\<rparr>)"
    by (simp_all add: chain_heap_def legacy_simps ref_prop_def variant_copy_def widget_env_def
        VariantInit_def)
  note at_proto = protoref_delete_and_fixup
    [where h = proto_heap and a = 1 and p = 2 and i = 0 and r = 0 and env = widget_env and n = 0
       and this_obj = 1 and pdp = "positional []" and res = True and caller = None,
     OF p(1,2,3,4,5,6,7,8) p(4)]
  note at_chain = protoref_delete_and_fixup
    [where h = chain_heap and a = 1 and p = 2 and i = 0 and r = 0 and env = widget_env and n = 0
       and this_obj = 1 and pdp = "positional []" and res = True and caller = None,
     OF c(1,2,3,4,5,6,7,8) c(4)]
  from at_proto p2 at_chain c2 show ?thesis by simp
qed

lemma delete_other_object:
  "p \<noteq> a \<Longrightarrow> snd (dispex_delete_prop h p d) a = h a"
  by (auto simp: dispex_delete_prop_def Let_def split: option.splits dispex_prop_type_t.splits)

lemma get_of_live_slot:
  assumes i: "i < length (the_props (h a))" and id: "int i \<le> 0x0fffffff"
    and live: "DYNPROP_DELETED \<notin> flags (the_props (h a) ! i)"
      "DYNPROP_PROTREF \<notin> flags (the_props (h a) ! i)"
  shows "dispex_invoke env n h a this_obj (DISPID_DYNPROP_0 + int i) DISPATCH_PROPERTYGET pdp True caller
           = Some (h, fst (variant_copy env (var (the_props (h a) ! i))),
                   Some (snd (variant_copy env (var (the_props (h a) ! i)))))"
proof -
  have al: "dynamic_data (h a) \<noteq> None" using i by (rule the_props_nonempty_allocated)
  then have h1: "h(a := get_dynamic_data (h a)) = h" by (simp add: get_dynamic_data_id)
  have f: "fixup_prop_ref n h a i = Some h" using i live by simp
  show ?thesis
    using dynamic_idx [OF id] h1 i live f
    by (simp add: dispex_invoke_def Let_def resolve_prop_def)
qed

lemma put_unfold:
  assumes i: "i < length (the_props (get_dynamic_data (h a)))" and id: "int i \<le> 0x0fffffff"
  shows "dispex_invoke env n h a this_obj (DISPID_DYNPROP_0 + int i) DISPATCH_PROPERTYPUT pdp res caller =
          (if cArgs pdp \<noteq> 1
              \<or> (cNamedArgs pdp = 1 \<and> rgdispidNamedArgs pdp ! 0 \<noteq> DISPID_PROPERTYPUT)
              \<or> cNamedArgs pdp > 1
           then Some (h(a := get_dynamic_data (h a)), E_INVALIDARG, None)
           else if FAILED (fst (variant_copy env (rgvarg pdp ! 0)))
           then Some (update_prop (h(a := get_dynamic_data (h a))) a i (\<lambda>p. p\<lparr>var := snd (variant_copy env (rgvarg pdp ! 0))\<rparr>), fst (variant_copy env (rgvarg pdp ! 0)), None)
           else Some (update_prop (h(a := get_dynamic_data (h a))) a i
               (\<lambda>p. p\<lparr>var := snd (variant_copy env (rgvarg pdp ! 0)), flags := flags p - {DYNPROP_DELETED, DYNPROP_PROTREF}\<rparr>), S_OK, None))"
  using dynamic_idx [OF id] i
  by (simp add: dispex_invoke_def Let_def)

lemma putref_is_put:
  "dispex_invoke env n h a this_obj dispid (DISPATCH_PROPERTYPUT OR DISPATCH_PROPERTYPUTREF) pdp res caller
     = dispex_invoke env n h a this_obj dispid DISPATCH_PROPERTYPUT pdp res caller"
  by (simp add: dispex_invoke_def)

text \<open>
  C9. A put on the identifier of a dynamic property that succeeds leaves the slot with
  neither \<^verbatim>\<open>DYNPROP_DELETED\<close> nor \<^verbatim>\<open>DYNPROP_PROTREF\<close> and with the copy of the argument as
  its value. From then on a read of the identifier returns a copy of that value in every
  store in which the instance is as the put left it, in particular after any deletion on
  another object such as the prototype.
\<close>

theorem dispex_invoke_put_live:
  assumes i: "i < length (the_props (get_dynamic_data (h a)))" and id: "int i \<le> 0x0fffffff"
    and fl: "wFlags = DISPATCH_PROPERTYPUT \<or> wFlags = (DISPATCH_PROPERTYPUT OR DISPATCH_PROPERTYPUTREF)"
    and put: "dispex_invoke env n h a this_obj (DISPID_DYNPROP_0 + int i) wFlags pdp res caller
                = Some (h', hres, r)"
    and ok: "\<not> FAILED hres"
  shows "i < length (the_props (h' a))
     \<and> flags (the_props (h' a) ! i)
         = flags (the_props (get_dynamic_data (h a)) ! i) - {DYNPROP_DELETED, DYNPROP_PROTREF}
     \<and> var (the_props (h' a) ! i) = snd (variant_copy env (rgvarg pdp ! 0))
     \<and> (\<forall>h2 n2 this2 pdp2 caller2. h2 a = h' a \<longrightarrow>
           dispex_invoke env n2 h2 a this2 (DISPID_DYNPROP_0 + int i) DISPATCH_PROPERTYGET pdp2 True caller2
             = Some (h2, fst (variant_copy env (snd (variant_copy env (rgvarg pdp ! 0)))),
                     Some (snd (variant_copy env (snd (variant_copy env (rgvarg pdp ! 0)))))))
     \<and> (\<forall>p d. p \<noteq> a \<longrightarrow> snd (dispex_delete_prop h' p d) a = h' a)"
proof -
  let ?h1 = "h(a := get_dynamic_data (h a))"
  let ?c = "variant_copy env (rgvarg pdp ! 0)"
  let ?h' = "update_prop ?h1 a i
               (\<lambda>p. p\<lparr>var := snd ?c, flags := flags p - {DYNPROP_DELETED, DYNPROP_PROTREF}\<rparr>)"
  from put fl have "dispex_invoke env n h a this_obj (DISPID_DYNPROP_0 + int i) DISPATCH_PROPERTYPUT pdp res caller
                = Some (h', hres, r)"
    by (auto simp: putref_is_put [simplified])
  then have h': "h' = ?h'"
    unfolding put_unfold [where h = h and a = a and i = i, OF i id] using ok
    by (simp add: FAILED_def split: if_splits)
  have len: "i < length (the_props (h' a))"
    using i by (simp add: h' the_props_update_prop)
  have flg: "flags (the_props (h' a) ! i)
         = flags (the_props (get_dynamic_data (h a)) ! i) - {DYNPROP_DELETED, DYNPROP_PROTREF}"
    using i by (simp add: h' the_props_update_prop)
  have v: "var (the_props (h' a) ! i) = snd ?c"
    using i by (simp add: h' the_props_update_prop)
  have get: "dispex_invoke env n2 h2 a this2 (DISPID_DYNPROP_0 + int i) DISPATCH_PROPERTYGET pdp2 True caller2
             = Some (h2, fst (variant_copy env (snd ?c)), Some (snd (variant_copy env (snd ?c))))"
    if eq: "h2 a = h' a" for h2 n2 this2 pdp2 caller2
  proof -
    have l2: "i < length (the_props (h2 a))" using len eq by simp
    have d2: "DYNPROP_DELETED \<notin> flags (the_props (h2 a) ! i)"
      "DYNPROP_PROTREF \<notin> flags (the_props (h2 a) ! i)"
      using flg eq by simp_all
    have v2: "var (the_props (h2 a) ! i) = snd ?c" using v eq by simp
    from get_of_live_slot [where h = h2 and a = a and i = i and env = env and n = n2 and this_obj = this2 and pdp = pdp2 and caller = caller2, OF l2 id d2] show ?thesis
      unfolding v2 .
  qed
  show ?thesis
  proof (intro conjI allI impI)
    show "i < length (the_props (h' a))" by (rule len)
    show "flags (the_props (h' a) ! i)
         = flags (the_props (get_dynamic_data (h a)) ! i) - {DYNPROP_DELETED, DYNPROP_PROTREF}"
      by (rule flg)
    show "var (the_props (h' a) ! i) = snd ?c" by (rule v)
    show "dispex_invoke env n2 h2 a this2 (DISPID_DYNPROP_0 + int i) DISPATCH_PROPERTYGET pdp2 True caller2
             = Some (h2, fst (variant_copy env (snd ?c)), Some (snd (variant_copy env (snd ?c))))"
      if "h2 a = h' a" for h2 n2 this2 pdp2 caller2
      using that by (rule get)
    show "snd (dispex_delete_prop h' p d) a = h' a" if "p \<noteq> a" for p d
      using that by (rule delete_other_object)
  qed
qed

theorem dispex_invoke_put_live_witness:
  "dispex_invoke widget_env 0 proto_heap 1 1 DISPID_DYNPROP_0 DISPATCH_PROPERTYPUT (put_params (I4 5)) False None
     = Some (put_heap, S_OK, None)
   \<and> flags (the_props (put_heap 1) ! 0) = {}
   \<and> var (the_props (put_heap 1) ! 0) = I4 5
   \<and> dispex_invoke widget_env 0 (snd (dispex_delete_prop put_heap 2 DISPID_DYNPROP_0)) 1 1
         DISPID_DYNPROP_0 DISPATCH_PROPERTYGET (positional []) True None
       = Some (snd (dispex_delete_prop put_heap 2 DISPID_DYNPROP_0), S_OK, Some (I4 5))"
proof -
  have i: "0 < length (the_props (get_dynamic_data (proto_heap 1)))" "int 0 \<le> 0x0fffffff"
    by (simp_all add: proto_heap_def legacy_simps)
  have "get_dynamic_data (proto_heap 1) = proto_heap 1"
    by (simp add: proto_heap_def legacy_simps)
  then have gdd: "proto_heap(1 := get_dynamic_data (proto_heap 1)) = proto_heap"
    by (simp only: fun_upd_triv)
  have c: "variant_copy widget_env v = (S_OK, v)" for v
    by (cases v) (simp add: variant_copy_def widget_env_def)
  have put: "dispex_invoke widget_env 0 proto_heap 1 1 (DISPID_DYNPROP_0 + int 0) DISPATCH_PROPERTYPUT
               (put_params (I4 5)) False None = Some (put_heap, S_OK, None)"
    unfolding put_unfold [where h = proto_heap and a = 1 and i = 0, OF i] gdd
    by (simp add: put_params_def c FAILED_def put_heap_def)
  have ok: "\<not> FAILED S_OK" by (simp add: FAILED_def)
  note live = dispex_invoke_put_live
    [where h = proto_heap and a = 1 and i = 0 and wFlags = DISPATCH_PROPERTYPUT and env = widget_env
       and n = 0 and this_obj = 1 and pdp = "put_params (I4 5)" and res = False and caller = None
       and h' = put_heap and hres = S_OK and r = None,
     OF i _ put ok]
  have fl: "flags (the_props (get_dynamic_data (proto_heap 1)) ! 0) = {DYNPROP_PROTREF}"
    by (simp add: proto_heap_def legacy_simps ref_prop_def)
  have arg: "rgvarg (put_params (I4 5)) ! 0 = I4 5" by (simp add: put_params_def)
  have other: "snd (dispex_delete_prop put_heap 2 DISPID_DYNPROP_0) 1 = put_heap 1"
    using live by simp
  from live [unfolded fl arg c]
  have "flags (the_props (put_heap 1) ! 0) = {}" "var (the_props (put_heap 1) ! 0) = I4 5"
    by simp_all
  moreover from live [unfolded fl arg c] other have
    "dispex_invoke widget_env 0 (snd (dispex_delete_prop put_heap 2 DISPID_DYNPROP_0)) 1 1
         (DISPID_DYNPROP_0 + int 0) DISPATCH_PROPERTYGET (positional []) True None
       = Some (snd (dispex_delete_prop put_heap 2 DISPID_DYNPROP_0), S_OK, Some (I4 5))"
    by simp
  ultimately show ?thesis using put by simp
qed

subsection \<open>The compiled member table\<close>

text \<open>
  Once a resolve has returned a table, every later resolve for the same class and mode
  returns that table and leaves the state as it is, whatever the type library says by
  then; and a resolve never touches the tables published before it.
\<close>

lemma ensure_dispex_info_cached:
  assumes "ensure_dispex_info typeinfo st desc_no desc mode = Some (st', Some k)"
  shows "ensure_dispex_info typeinfo' st' desc_no desc' mode = Some (st', Some k)"
  using assms
  by (auto simp: ensure_dispex_info_def split: option.splits)

lemma preprocess_keeps_tables:
  assumes "preprocess_dispex_data typeinfo st desc mode = Some (st', r)"
  shows "take (length (dispex_data_list st)) (dispex_data_list st') = dispex_data_list st"
  using assms
  by (auto simp: preprocess_dispex_data_def Let_def split: option.splits if_splits)

lemma ensure_keeps_tables:
  assumes "ensure_dispex_info typeinfo st desc_no desc mode = Some (st', r)"
  shows "take (length (dispex_data_list st)) (dispex_data_list st') = dispex_data_list st"
  using assms preprocess_keeps_tables
  by (fastforce simp: ensure_dispex_info_def split: option.splits)

text \<open>
  \<^verbatim>\<open>dispid_cmp\<close> orders two entries by their identifiers as long as these are less than
  \<open>2 ^ 31\<close> apart, and then the sorted table is strictly increasing: \<^verbatim>\<open>add_func_info\<close>
  never stores an identifier twice.
\<close>

lemma dispid_cmp_less:
  assumes "\<bar>func_id a - func_id b\<bar> < 2 ^ 31"
  shows "dispid_cmp a b < 0 \<longleftrightarrow> func_id a < func_id b"
proof -
  define d where "d = func_id a - func_id b"
  have b: "- (2 ^ 31) < d" "d < 2 ^ 31" using assms by (auto simp: d_def)
  have "(d + 2 ^ 31) mod 2 ^ 32 = d + 2 ^ 31" using b by (intro mod_pos_pos_trivial) auto
  then have "wrap32 d = d" by (simp add: wrap32_def)
  then show ?thesis by (auto simp: dispid_cmp_def d_def)
qed

lemma set_qsort_insert [simp]: "set (qsort_insert cmp x ys) = insert x (set ys)"
  by (induction ys) auto

lemma set_qsort [simp]: "set (qsort cmp xs) = set xs"
proof -
  have "set (foldl (\<lambda>sorted x. qsort_insert cmp x sorted) acc xs) = set acc \<union> set xs" for acc
    by (induction xs arbitrary: acc) auto
  then show ?thesis by (simp add: qsort_def)
qed

lemma length_qsort_insert [simp]: "length (qsort_insert cmp x ys) = Suc (length ys)"
  by (induction ys) auto

lemma length_qsort [simp]: "length (qsort cmp xs) = length xs"
proof -
  have "length (foldl (\<lambda>sorted x. qsort_insert cmp x sorted) acc xs) = length acc + length xs" for acc
    by (induction xs arbitrary: acc) auto
  then show ?thesis by (simp add: qsort_def)
qed

lemma distinct_qsort_insert [simp]:
  "distinct (map f (qsort_insert cmp x ys)) \<longleftrightarrow> f x \<notin> f ` set ys \<and> distinct (map f ys)"
  by (induction ys) auto

lemma qsort_insert_sorted:
  assumes "sorted_wrt (<) (map func_id ys)"
    and "\<forall>y \<in> set ys. func_id x \<noteq> func_id y \<and> \<bar>func_id x - func_id y\<bar> < 2 ^ 31"
  shows "sorted_wrt (<) (map func_id (qsort_insert dispid_cmp x ys))"
  using assms
proof (induction ys)
  case Nil
  then show ?case by simp
next
  case (Cons y ys)
  have c: "dispid_cmp x y < 0 \<longleftrightarrow> func_id x < func_id y"
    using Cons.prems(2) by (intro dispid_cmp_less) simp
  show ?case
  proof (cases "dispid_cmp x y < 0")
    case True
    then have "func_id x < func_id y" using c by simp
    then show ?thesis using True Cons.prems(1) by fastforce
  next
    case False
    then have "func_id y < func_id x" using c Cons.prems(2) by fastforce
    moreover have "sorted_wrt (<) (map func_id (qsort_insert dispid_cmp x ys))"
      using Cons by simp
    ultimately show ?thesis using False Cons.prems(1) by auto
  qed
qed

lemma qsort_sorted:
  assumes "distinct (map func_id xs)"
    and "\<forall>x \<in> set xs. \<forall>y \<in> set xs. \<bar>func_id x - func_id y\<bar> < 2 ^ 31"
  shows "sorted_wrt (<) (map func_id (qsort dispid_cmp xs))"
proof -
  have "sorted_wrt (<) (map func_id (foldl (\<lambda>sorted x. qsort_insert dispid_cmp x sorted) acc xs))"
    if "sorted_wrt (<) (map func_id acc)" "distinct (map func_id (acc @ xs))"
      "\<forall>x \<in> set (acc @ xs). \<forall>y \<in> set (acc @ xs). \<bar>func_id x - func_id y\<bar> < 2 ^ 31" for acc
    using that
  proof (induction xs arbitrary: acc)
    case Nil
    then show ?case by simp
  next
    case (Cons x xs)
    have s: "sorted_wrt (<) (map func_id (qsort_insert dispid_cmp x acc))"
      using Cons.prems by (intro qsort_insert_sorted) auto
    have d: "distinct (map func_id (qsort_insert dispid_cmp x acc @ xs))"
      using Cons.prems(2) by auto
    have "foldl (\<lambda>sorted x. qsort_insert dispid_cmp x sorted) acc (x # xs)
        = foldl (\<lambda>sorted x. qsort_insert dispid_cmp x sorted) (qsort_insert dispid_cmp x acc) xs"
      by simp
    moreover have "sorted_wrt (<) (map func_id (foldl (\<lambda>sorted x. qsort_insert dispid_cmp x sorted) (qsort_insert dispid_cmp x acc) xs))"
      using s d Cons.prems(3) by (intro Cons.IH) auto
    ultimately show ?case by simp
  qed
  from this [of "[]"] assms show ?thesis by (simp add: qsort_def)
qed

lemma add_params_id [simp]: "func_id (fst (add_params finf i ps)) = func_id finf"
  by (induction ps arbitrary: finf i) (auto split: option.splits prod.splits)

lemma add_params_id_eq: "add_params finf i ps = (finf', b) \<Longrightarrow> func_id finf' = func_id finf"
  using add_params_id [of finf i ps] by simp

lemma fill_func_info_id:
  assumes "fill_func_info finf n desc = Some (finf', is_method)"
  shows "func_id finf' = func_id finf"
  using assms
  by (auto simp: fill_func_info_def Let_def split: if_splits prod.splits dest!: add_params_id_eq)

lemma find_func_None: "find_func dispid name fs = None \<Longrightarrow> dispid \<notin> func_id ` set fs"
  by (induction fs) (auto split: if_splits)

lemma find_func_Some: "find_func dispid name fs = Some k \<Longrightarrow> k < length fs"
  by (induction fs arbitrary: k) (auto split: if_splits)

lemma add_func_info_distinct:
  assumes "add_func_info data t desc hk name_override = Some data'"
    and "distinct (map func_id (funcs data))"
  shows "distinct (map func_id (funcs data'))"
proof -
  have upd: "map func_id ((funcs data)[k := finf]) = map func_id (funcs data)"
    if "fill_func_info (funcs data ! k) n desc = Some (finf, is_method)" "k < length (funcs data)"
    for k finf is_method n
    using fill_func_info_id [OF that(1)] that(2)
    by (metis list_update_id map_update)
  show ?thesis
    using assms
    by (auto simp: add_func_info_def Let_def upd dest!: find_func_None find_func_Some
        dest: fill_func_info_id split: option.splits if_splits)
qed

lemma process_funcs_distinct:
  assumes "process_funcs data t hooks descs = Some data'"
    and "distinct (map func_id (funcs data))"
  shows "distinct (map func_id (funcs data'))"
  using assms
  by (induction data t hooks descs rule: process_funcs.induct)
     (auto split: option.splits if_splits dest: add_func_info_distinct)

lemma process_tids_distinct:
  assumes "process_tids typeinfo data ts = Some data'"
    and "distinct (map func_id (funcs data))"
  shows "distinct (map func_id (funcs data'))"
  using assms
  by (induction typeinfo data ts rule: process_tids.induct)
     (auto simp: process_interface_def split: option.splits if_splits prod.splits dest: process_funcs_distinct)

lemma preprocess_dispex_data_sorted:
  assumes "preprocess_dispex_data typeinfo st desc mode = Some (st', Some k)"
    and "init_info desc = None"
    and "\<forall>x \<in> set (funcs (dispex_data_list st' ! k)). \<forall>y \<in> set (funcs (dispex_data_list st' ! k)).
           \<bar>func_id x - func_id y\<bar> < 2 ^ 31"
  shows "sorted_wrt (<) (map func_id (funcs (dispex_data_list st' ! k)))"
proof -
  let ?data0 = "\<lparr>vtbl = desc_vtbl desc, compat_mode = mode, funcs = [], func_size = 16,
                  name_table = [], func_disp_cnt = 0\<rparr>"
  from assms(1,2) obtain data where
    p: "process_tids typeinfo ?data0 (iface_tids desc) = Some data"
    and k: "k = length (dispex_data_list st)"
    and t: "dispex_data_list st' ! k =
             (if func_cnt data = 0 then data\<lparr>name_table := [], funcs := [], func_size := 0\<rparr>
              else data\<lparr>funcs := qsort dispid_cmp (funcs data),
                        name_table := qsort (\<lambda>i j. wcsicmp (func_name (qsort dispid_cmp (funcs data) ! i))
                                                         (func_name (qsort dispid_cmp (funcs data) ! j)))
                                        [0 ..< func_cnt data]\<rparr>)"
    by (auto simp: preprocess_dispex_data_def Let_def split: option.splits if_splits)
  have d: "distinct (map func_id (funcs data))"
    using process_tids_distinct [OF p] by simp
  show ?thesis
  proof (cases "func_cnt data = 0")
    case True
    then show ?thesis using t by simp
  next
    case False
    then have f: "funcs (dispex_data_list st' ! k) = qsort dispid_cmp (funcs data)" using t by simp
    show ?thesis
      unfolding f using d assms(3) unfolding f by (intro qsort_sorted) auto
  qed
qed

text \<open>
  C5. For the class with the identifiers \<open>100000\<close> and \<^verbatim>\<open>0x80010001\<close> the resolve publishes a
  table, and a second resolve returns the same table, but its identifiers are not in
  increasing order: the difference \<open>100000 - (-2147418111)\<close> does not fit in 32 bits, so
  \<^verbatim>\<open>dispid_cmp\<close> puts \<open>100000\<close> first, whichever way the two entries are compared. In that
  table \<^verbatim>\<open>get_builtin_func\<close> finds \<open>100000\<close> and answers \<^verbatim>\<open>DISP_E_MEMBERNOTFOUND\<close> for the
  other member.
\<close>

theorem published_table_not_sorted:
  "(case ensure_dispex_info far_typelib no_tables 0 far_class COMPAT_MODE_IE9 of
      Some (st, Some k) \<Rightarrow>
        map func_id (funcs (dispex_data_list st ! k)) = [100000, - 2147418111]
        \<and> dispid_cmp (funcs (dispex_data_list st ! k) ! 0) (funcs (dispex_data_list st ! k) ! 1) < 0
        \<and> 0 < dispid_cmp (funcs (dispex_data_list st ! k) ! 1) (funcs (dispex_data_list st ! k) ! 0)
        \<and> get_builtin_func (dispex_data_list st ! k) 100000 = (S_OK, Some 0)
        \<and> get_builtin_func (dispex_data_list st ! k) (- 2147418111) = (DISP_E_MEMBERNOTFOUND, None)
        \<and> map_option snd (ensure_dispex_info far_typelib st 0 far_class COMPAT_MODE_IE9) = Some (Some k)
    | _ \<Rightarrow> False)"
  by (simp add: ensure_dispex_info_def preprocess_dispex_data_def far_class_def far_typelib_def no_tables_def FAILED_def
      process_interface_def far_members_def add_func_info_def fill_func_info_def Let_def func_cnt_def cParams_def
      sizeof_ptr_def qsort_def dispid_cmp_def wrap32_def get_builtin_func_def get_builtin_func_loop.simps)

subsection \<open>Enumeration\<close>

text \<open>
  The walk over the dynamic properties stops at the first slot from \<open>k\<close> on that is
  neither deleted nor hidden nor a reference.
\<close>

lemma next_dynamic_idx_spec:
  assumes "k \<le> length ps"
  shows "k \<le> next_dynamic_idx ps k \<and> next_dynamic_idx ps k \<le> length ps
       \<and> (\<forall>m. k \<le> m \<and> m < next_dynamic_idx ps k \<longrightarrow> \<not> visible ps m)
       \<and> (next_dynamic_idx ps k < length ps \<longrightarrow> visible ps (next_dynamic_idx ps k))"
  using assms
proof (induction ps k rule: next_dynamic_idx.induct)
  case (1 ps i)
  show ?case
  proof (cases "i < length ps \<and> \<not> visible ps i")
    case True
    then have eq: "next_dynamic_idx ps i = next_dynamic_idx ps (i + 1)"
      by (subst next_dynamic_idx.simps) (simp add: visible_def)
    have ih: "i + 1 \<le> next_dynamic_idx ps (i + 1) \<and> next_dynamic_idx ps (i + 1) \<le> length ps
       \<and> (\<forall>m. i + 1 \<le> m \<and> m < next_dynamic_idx ps (i + 1) \<longrightarrow> \<not> visible ps m)
       \<and> (next_dynamic_idx ps (i + 1) < length ps \<longrightarrow> visible ps (next_dynamic_idx ps (i + 1)))"
      using True by (intro "1.IH") (auto simp: visible_def)
    have "\<not> visible ps m" if "i \<le> m" "m < next_dynamic_idx ps (i + 1)" for m
    proof (cases "m = i")
      case True
      then show ?thesis using \<open>i < length ps \<and> \<not> visible ps i\<close> by simp
    next
      case False
      then have "i + 1 \<le> m" using that by simp
      then show ?thesis using ih that by blast
    qed
    then show ?thesis using ih unfolding eq by auto
  next
    case False
    then have eq: "next_dynamic_idx ps i = i"
      by (subst next_dynamic_idx.simps) (auto simp: visible_def)
    show ?thesis using False "1.prems" unfolding eq by auto
  qed
qed

lemma filter_upt_skip:
  assumes "k \<le> j" "j \<le> n" "\<forall>m. k \<le> m \<and> m < j \<longrightarrow> \<not> P m"
  shows "filter P [k ..< n] = filter P [j ..< n]"
proof -
  have "[k ..< n] = [k ..< j] @ [j ..< n]" using assms(1,2) by (metis le_Suc_ex upt_add_eq_append)
  moreover have "filter P [k ..< j] = []" using assms(3) by (auto simp: filter_empty_conv)
  ultimately show ?thesis by simp
qed

lemma enumerable_dynamics_step:
  assumes "k \<le> length ps"
  shows "enumerable_dynamics ps k =
           (if next_dynamic_idx ps k = length ps then []
            else (DISPID_DYNPROP_0 + int (next_dynamic_idx ps k)) # enumerable_dynamics ps (Suc (next_dynamic_idx ps k)))"
proof -
  let ?j = "next_dynamic_idx ps k"
  from next_dynamic_idx_spec [OF assms] have
    j: "k \<le> ?j" "?j \<le> length ps" and sk: "\<forall>m. k \<le> m \<and> m < ?j \<longrightarrow> \<not> visible ps m"
    and v: "?j < length ps \<longrightarrow> visible ps ?j" by blast+
  have f: "filter (visible ps) [k ..< length ps] = filter (visible ps) [?j ..< length ps]"
    using j sk by (rule filter_upt_skip)
  show ?thesis
  proof (cases "?j = length ps")
    case True
    then show ?thesis using f by (simp add: enumerable_dynamics_def)
  next
    case False
    then have lt: "?j < length ps" using j by simp
    then have "[?j ..< length ps] = ?j # [Suc ?j ..< length ps]" by (rule upt_conv_Cons)
    then show ?thesis using f v lt False by (simp add: enumerable_dynamics_def)
  qed
qed

lemma dynamic_call:
  assumes px: "proxy This = None" and al: "dynamic_data This \<noteq> None"
    and i: "i < length (the_props This)" and len: "length (the_props This) \<le> 0x10000000"
  shows "DispatchEx_GetNextDispID This (DISPID_DYNPROP_0 + int i) =
           (if next_dynamic_idx (the_props This) (Suc i) = length (the_props This)
            then ((S_FALSE, Some DISPID_STARTENUM), This)
            else ((S_OK, Some (DISPID_DYNPROP_0 + int (next_dynamic_idx (the_props This) (Suc i)))), This))"
proof -
  have dyn: "is_dynamic_dispid (DISPID_DYNPROP_0 + int i)"
    using i len by (simp add: is_dynamic_dispid_def)
  have g: "get_dynamic_data This = This" using al by (rule get_dynamic_data_id)
  show ?thesis
    using px dyn g i
    by (simp add: DispatchEx_GetNextDispID_def next_dynamic_id_def Let_def)
qed

lemma dynamic_phase:
  assumes px: "proxy This = None" and al: "dynamic_data This \<noteq> None"
    and len: "length (the_props This) \<le> 0x10000000"
  shows "i < length (the_props This) \<Longrightarrow>
         enumerate_ids (Suc (length (enumerable_dynamics (the_props This) (Suc i)))) This (DISPID_DYNPROP_0 + int i)
           = Some (enumerable_dynamics (the_props This) (Suc i), Some DISPID_STARTENUM)"
proof (induction "length (the_props This) - i" arbitrary: i rule: less_induct)
  case less
  let ?ps = "the_props This"
  let ?j = "next_dynamic_idx ?ps (Suc i)"
  have si: "Suc i \<le> length ?ps" using less.prems by simp
  note call = dynamic_call [OF px al less.prems len]
  note step = enumerable_dynamics_step [OF si]
  from next_dynamic_idx_spec [OF si] have j: "Suc i \<le> ?j" "?j \<le> length ?ps" by blast+
  show ?case
  proof (cases "?j = length ?ps")
    case True
    then show ?thesis using call step by (simp add: collect_next_def)
  next
    case False
    then have lt: "?j < length ?ps" using j by simp
    have "length ?ps - ?j < length ?ps - i" using j lt by simp
    from less.hyps [OF this lt]
    have ih: "enumerate_ids (Suc (length (enumerable_dynamics ?ps (Suc ?j)))) This (DISPID_DYNPROP_0 + int ?j)
           = Some (enumerable_dynamics ?ps (Suc ?j), Some DISPID_STARTENUM)" .
    have e: "enumerable_dynamics ?ps (Suc i) = (DISPID_DYNPROP_0 + int ?j) # enumerable_dynamics ?ps (Suc ?j)"
      using step False by simp
    have "enumerate_ids (Suc (Suc (length (enumerable_dynamics ?ps (Suc ?j))))) This (DISPID_DYNPROP_0 + int i)
            = Some ((DISPID_DYNPROP_0 + int ?j) # enumerable_dynamics ?ps (Suc ?j), Some DISPID_STARTENUM)"
      using call False ih by (simp add: collect_next_def del: enumerate_ids.simps(2))
        (simp add: collect_next_def)
    then show ?thesis unfolding e by simp
  qed
qed

lemma rest_dynamic:
  assumes px: "proxy This = None"
    and len: "length (the_props (get_dynamic_data This)) \<le> 0x10000000"
    and hk: "case (case vtbl (info This) of None \<Rightarrow> None | Some v \<Rightarrow> next_dispid v) of
               None \<Rightarrow> True | Some next \<Rightarrow> fst (next cur) = S_FALSE"
  shows "collect_next (enumerate_ids (length (enumerable_dynamics (the_props (get_dynamic_data This)) 0)))
           (next_custom_or_dynamic This cur)
         = Some (enumerable_dynamics (the_props (get_dynamic_data This)) 0, Some DISPID_STARTENUM)"
proof -
  let ?T = "get_dynamic_data This"
  let ?ps = "the_props ?T"
  let ?j = "next_dynamic_idx ?ps 0"
  have r: "next_custom_or_dynamic This cur =
             (if length ?ps \<noteq> 0
              then ((fst (next_dynamic_id ?T 0), Some (snd (next_dynamic_id ?T 0))), ?T)
              else ((S_FALSE, Some DISPID_STARTENUM), ?T))"
    using hk by (auto simp: next_custom_or_dynamic_def Let_def split: option.splits)
  note step = enumerable_dynamics_step [of 0 ?ps, simplified]
  from next_dynamic_idx_spec [of 0 ?ps] have j: "?j \<le> length ?ps" by simp
  show ?thesis
  proof (cases "?j = length ?ps")
    case True
    then show ?thesis using r step by (simp add: collect_next_def next_dynamic_id_def)
  next
    case False
    then have lt: "?j < length ?ps" using j by simp
    have pxT: "proxy ?T = None" using px by simp
    have alT: "dynamic_data ?T \<noteq> None" by simp
    note ph = dynamic_phase [OF pxT alT len lt]
    have e: "enumerable_dynamics ?ps 0 = (DISPID_DYNPROP_0 + int ?j) # enumerable_dynamics ?ps (Suc ?j)"
      using step False by simp
    have r': "next_custom_or_dynamic This cur = ((S_OK, Some (DISPID_DYNPROP_0 + int ?j)), ?T)"
      using r False lt by (auto simp: next_dynamic_id_def)
    show ?thesis
      unfolding e r' using ph by (simp add: collect_next_def del: enumerate_ids.simps(2))
  qed
qed

lemma custom_not_dynamic: "is_custom_dispid c \<Longrightarrow> \<not> is_dynamic_dispid c"
  by (simp add: is_custom_dispid_def is_dynamic_dispid_def)

lemma custom_phase:
  assumes px: "proxy This = None"
    and len: "length (the_props (get_dynamic_data This)) \<le> 0x10000000"
  shows "(case (case vtbl (info This) of None \<Rightarrow> None | Some v \<Rightarrow> next_dispid v) of
            None \<Rightarrow> cs = [] | Some next \<Rightarrow> walks next cur cs) \<Longrightarrow>
         collect_next (enumerate_ids (length (cs @ enumerable_dynamics (the_props (get_dynamic_data This)) 0)))
           (next_custom_or_dynamic This cur)
         = Some (cs @ enumerable_dynamics (the_props (get_dynamic_data This)) 0, Some DISPID_STARTENUM)"
proof (induction cs arbitrary: cur)
  case Nil
  then have "case (case vtbl (info This) of None \<Rightarrow> None | Some v \<Rightarrow> next_dispid v) of
               None \<Rightarrow> True | Some next \<Rightarrow> fst (next cur) = S_FALSE"
    by (simp split: option.splits)
  from rest_dynamic [OF px len this] show ?case by simp
next
  case (Cons c cs)
  let ?dyn = "enumerable_dynamics (the_props (get_dynamic_data This)) 0"
  from Cons.prems obtain "next" where
    hk: "(case vtbl (info This) of None \<Rightarrow> None | Some v \<Rightarrow> next_dispid v) = Some next"
    and nx: "next cur = (S_OK, c)" and cu: "is_custom_dispid c" and w: "walks next c cs"
    by (auto split: option.splits)
  have r: "next_custom_or_dynamic This cur = ((S_OK, Some c), This)"
    using hk nx by (simp add: next_custom_or_dynamic_def)
  have call: "DispatchEx_GetNextDispID This c = next_custom_or_dynamic This c"
    using px cu custom_not_dynamic [OF cu] by (simp add: DispatchEx_GetNextDispID_def)
  have "collect_next (enumerate_ids (length (cs @ ?dyn))) (next_custom_or_dynamic This c)
         = Some (cs @ ?dyn, Some DISPID_STARTENUM)"
    using hk w by (intro Cons.IH) simp
  then have "enumerate_ids (Suc (length (cs @ ?dyn))) This c = Some (cs @ ?dyn, Some DISPID_STARTENUM)"
    using call by simp
  then show ?case
    unfolding r by (simp add: collect_next_def del: enumerate_ids.simps(2))
qed

text \<open>The binary search finds every member of a table that is strictly sorted.\<close>

lemma get_builtin_func_loop_finds:
  assumes srt: "sorted_wrt (<) (map func_id fs)" and k: "k < length fs"
  shows "lo \<le> int k \<Longrightarrow> int k \<le> hi \<Longrightarrow> 0 \<le> lo \<Longrightarrow> hi < int (length fs) \<Longrightarrow>
         get_builtin_func_loop fs (func_id (fs ! k)) lo hi = (S_OK, Some k)"
proof (induction "nat (hi - lo + 1)" arbitrary: lo hi rule: less_induct)
  case less
  define n where "n = (lo + hi) div 2"
  have n: "lo \<le> n" "n \<le> hi" using less.prems by (auto simp: n_def)
  then have nn: "nat n < length fs" using less.prems by auto
  have mono: "func_id (fs ! i) < func_id (fs ! j)" if "i < j" "j < length fs" for i j
    using sorted_wrt_nth_less [OF srt, of i j] that by simp
  have unfold: "get_builtin_func_loop fs (func_id (fs ! k)) lo hi =
          (if func_id (fs ! nat n) = func_id (fs ! k) then (S_OK, Some (nat n))
           else if func_id (fs ! nat n) < func_id (fs ! k)
                then get_builtin_func_loop fs (func_id (fs ! k)) (n + 1) hi
                else get_builtin_func_loop fs (func_id (fs ! k)) lo (n - 1))"
    using n by (subst get_builtin_func_loop.simps) (simp add: n_def Let_def)
  consider (eq) "nat n = k" | (lt) "nat n < k" | (gt) "k < nat n" by linarith
  then show ?case
  proof cases
    case eq
    then show ?thesis using unfold by simp
  next
    case lt
    then have "func_id (fs ! nat n) < func_id (fs ! k)" using mono k by simp
    moreover have "get_builtin_func_loop fs (func_id (fs ! k)) (n + 1) hi = (S_OK, Some k)"
      using lt n less.prems by (intro less.hyps) auto
    ultimately show ?thesis using unfold by simp
  next
    case gt
    then have "func_id (fs ! k) < func_id (fs ! nat n)" using mono nn by simp
    moreover have "get_builtin_func_loop fs (func_id (fs ! k)) lo (n - 1) = (S_OK, Some k)"
      using gt n less.prems by (intro less.hyps) auto
    ultimately show ?thesis using unfold by simp
  qed
qed

lemma get_builtin_func_finds:
  assumes "sorted_wrt (<) (map func_id (funcs data))" and "k < length (funcs data)"
  shows "get_builtin_func data (func_id (funcs data ! k)) = (S_OK, Some k)"
  unfolding get_builtin_func_def func_cnt_def
  using assms by (intro get_builtin_func_loop_finds) auto

lemma next_builtin_None: "next_builtin fs = None \<Longrightarrow> enumerable_builtins fs = []"
  by (induction fs) (auto simp: enumerable_builtins_def split: if_splits)

lemma next_builtin_Some:
  "next_builtin fs = Some d \<Longrightarrow>
     \<exists>j < length fs. d = func_id (fs ! j)
                 \<and> enumerable_builtins fs = d # enumerable_builtins (drop (Suc j) fs)"
proof (induction fs)
  case Nil
  then show ?case by simp
next
  case (Cons f fs)
  show ?case
  proof (cases "func_disp_idx f = - 1")
    case True
    then have "d = func_id f" using Cons.prems by simp
    then have "d = func_id ((f # fs) ! 0) \<and>
               enumerable_builtins (f # fs) = d # enumerable_builtins (drop (Suc 0) (f # fs))"
      using True by (simp add: enumerable_builtins_def)
    then show ?thesis by blast
  next
    case False
    then have "next_builtin fs = Some d" using Cons.prems by simp
    from Cons.IH [OF this] obtain j where "j < length fs" "d = func_id (fs ! j)"
      "enumerable_builtins fs = d # enumerable_builtins (drop (Suc j) fs)" by blast
    then have "Suc j < length (f # fs) \<and> d = func_id ((f # fs) ! Suc j) \<and>
               enumerable_builtins (f # fs) = d # enumerable_builtins (drop (Suc (Suc j)) (f # fs))"
      using False by (simp add: enumerable_builtins_def)
    then show ?thesis by blast
  qed
qed

lemma builtin_phase:
  assumes px: "proxy This = None"
    and srt: "sorted_wrt (<) (map func_id (funcs (info This)))"
    and bi: "\<forall>f \<in> set (funcs (info This)).
               get_dispid_type (func_id f) = DISPEXPROP_BUILTIN \<and> func_id f \<noteq> DISPID_STARTENUM"
    and cm: "custom_members This cs"
    and len: "length (the_props (get_dynamic_data This)) \<le> 0x10000000"
  shows "k \<le> length (funcs (info This)) \<Longrightarrow>
         collect_next
           (enumerate_ids (length (enumerable_builtins (drop k (funcs (info This))) @ cs
                                   @ enumerable_dynamics (the_props (get_dynamic_data This)) 0)))
           (case next_builtin (drop k (funcs (info This))) of
              Some next_id \<Rightarrow> ((S_OK, Some next_id), This)
            | None \<Rightarrow> next_custom_or_dynamic This DISPID_STARTENUM)
         = Some (enumerable_builtins (drop k (funcs (info This))) @ cs
                 @ enumerable_dynamics (the_props (get_dynamic_data This)) 0, Some DISPID_STARTENUM)"
proof (induction "length (funcs (info This)) - k" arbitrary: k rule: less_induct)
  case less
  let ?fs = "funcs (info This)"
  let ?tail = "cs @ enumerable_dynamics (the_props (get_dynamic_data This)) 0"
  show ?case
  proof (cases "next_builtin (drop k ?fs)")
    case None
    have "collect_next (enumerate_ids (length ?tail)) (next_custom_or_dynamic This DISPID_STARTENUM)
            = Some (?tail, Some DISPID_STARTENUM)"
      using cm by (intro custom_phase [OF px len]) (simp add: custom_members_def)
    then show ?thesis using None next_builtin_None [OF None] by simp
  next
    case (Some d)
    from next_builtin_Some [OF Some] obtain j where
      j: "j < length (drop k ?fs)" and d: "d = func_id (drop k ?fs ! j)"
      and e: "enumerable_builtins (drop k ?fs) = d # enumerable_builtins (drop (Suc j) (drop k ?fs))"
      by blast
    define m where "m = k + j"
    have m: "m < length ?fs" using j by (simp add: m_def)
    have dm: "d = func_id (?fs ! m)" using d j by (simp add: m_def)
    have e': "enumerable_builtins (drop k ?fs) = d # enumerable_builtins (drop (Suc m) ?fs)"
      using e by (simp add: m_def add.commute)
    have mem: "?fs ! m \<in> set ?fs" using m by simp
    with bi have ty: "get_dispid_type d = DISPEXPROP_BUILTIN" and ns: "d \<noteq> DISPID_STARTENUM"
      unfolding dm by blast+
    have nd: "\<not> is_dynamic_dispid d" and nc: "\<not> is_custom_dispid d"
      using ty by (auto simp: get_dispid_type_def split: if_splits)
    have find: "get_builtin_func (info This) d = (S_OK, Some m)"
      unfolding dm using srt m by (rule get_builtin_func_finds)
    have call: "DispatchEx_GetNextDispID This d =
                  (case next_builtin (drop (Suc m) ?fs) of
                     Some next_id \<Rightarrow> ((S_OK, Some next_id), This)
                   | None \<Rightarrow> next_custom_or_dynamic This DISPID_STARTENUM)"
      using px nd nc ns find by (simp add: DispatchEx_GetNextDispID_def FAILED_def)
    have "length ?fs - Suc m < length ?fs - k" using m by (simp add: m_def)
    moreover have "Suc m \<le> length ?fs" using m by simp
    ultimately have ih: "collect_next
           (enumerate_ids (length (enumerable_builtins (drop (Suc m) ?fs) @ ?tail)))
           (case next_builtin (drop (Suc m) ?fs) of
              Some next_id \<Rightarrow> ((S_OK, Some next_id), This)
            | None \<Rightarrow> next_custom_or_dynamic This DISPID_STARTENUM)
         = Some (enumerable_builtins (drop (Suc m) ?fs) @ ?tail, Some DISPID_STARTENUM)"
      by (rule less.hyps)
    have "enumerate_ids (Suc (length (enumerable_builtins (drop (Suc m) ?fs) @ ?tail))) This d
            = Some (enumerable_builtins (drop (Suc m) ?fs) @ ?tail, Some DISPID_STARTENUM)"
      using ih call by simp
    then show ?thesis
      unfolding Some e' by (simp add: collect_next_def del: enumerate_ids.simps(2))
  qed
qed

text \<open>
  C8. An object without proxy whose table is strictly sorted by identifier, with builtin
  identifiers only and none of them \<^verbatim>\<open>DISPID_STARTENUM\<close>, whose hook walks the custom
  members \<open>cs\<close>, and with at most \<open>2 ^ 28\<close> dynamic slots. A caller that starts at
  \<^verbatim>\<open>DISPID_STARTENUM\<close> and asks on from each answer gets, in one call more than there are
  members: the builtin members with \<^verbatim>\<open>func_disp_idx\<close> \<open>-1\<close> in the order of the table (that
  is by ascending identifier, not by declaration), then \<open>cs\<close>, then the dynamic slots that
  are not flagged \<^verbatim>\<open>DYNPROP_DELETED\<close>, \<^verbatim>\<open>DYNPROP_HIDDEN\<close> or \<^verbatim>\<open>DYNPROP_PROTREF\<close> in the order
  of the store, and at the end \<^verbatim>\<open>S_FALSE\<close> with \<^verbatim>\<open>DISPID_STARTENUM\<close>.
\<close>

theorem GetNextDispID_enumerates:
  assumes "proxy This = None"
    and "sorted_wrt (<) (map func_id (funcs (info This)))"
    and "\<forall>f \<in> set (funcs (info This)).
           get_dispid_type (func_id f) = DISPEXPROP_BUILTIN \<and> func_id f \<noteq> DISPID_STARTENUM"
    and "custom_members This cs"
    and "length (the_props (get_dynamic_data This)) \<le> 0x10000000"
  shows "enumerate_ids (Suc (length (enumeration This cs))) This DISPID_STARTENUM
           = Some (enumeration This cs, Some DISPID_STARTENUM)"
proof -
  have call: "DispatchEx_GetNextDispID This DISPID_STARTENUM =
                (case next_builtin (drop 0 (funcs (info This))) of
                   Some next_id \<Rightarrow> ((S_OK, Some next_id), This)
                 | None \<Rightarrow> next_custom_or_dynamic This DISPID_STARTENUM)"
    using assms(1)
    by (simp add: DispatchEx_GetNextDispID_def FAILED_def is_dynamic_dispid_def is_custom_dispid_def)
  from builtin_phase [OF assms, of 0] show ?thesis
    unfolding enumeration_def using call by simp
qed

text \<open>
  The table of Gallery: the method has the function slot 0, the hidden property is
  marked \<open>-2\<close>, and the entries are in the order of their identifiers.
\<close>

lemma gallery_funcs:
  "funcs gallery_info =
     [\<lparr>func_id = 1, func_name = ''load'', tid = 1, hook = None, call_vtbl_off = 8, put_vtbl_off = 0,
       get_vtbl_off = 0, func_disp_idx = 0, argc = 0, default_value_cnt = 0, prop_vt = VT_VOID,
       arg_types = [], arg_info = []\<rparr>,
      \<lparr>func_id = 2, func_name = ''count'', tid = 1, hook = None, call_vtbl_off = 0, put_vtbl_off = 0,
       get_vtbl_off = 10, func_disp_idx = - 1, argc = 0, default_value_cnt = 0, prop_vt = VT_I4,
       arg_types = [], arg_info = []\<rparr>,
      \<lparr>func_id = 3, func_name = ''title'', tid = 1, hook = None, call_vtbl_off = 0, put_vtbl_off = 0,
       get_vtbl_off = 7, func_disp_idx = - 1, argc = 0, default_value_cnt = 0, prop_vt = VT_I4,
       arg_types = [], arg_info = []\<rparr>,
      \<lparr>func_id = 4, func_name = ''secret'', tid = 1, hook = None, call_vtbl_off = 0, put_vtbl_off = 0,
       get_vtbl_off = 9, func_disp_idx = - 2, argc = 0, default_value_cnt = 0, prop_vt = VT_I4,
       arg_types = [], arg_info = []\<rparr>]"
  apply (simp add: gallery_info_def ensure_dispex_info_def preprocess_dispex_data_def gallery_class_def
      gallery_typelib_def no_tables_def FAILED_def process_interface_def gallery_members_def
      add_func_info_def fill_func_info_def Let_def func_cnt_def cParams_def MAX_ARGS_def
      sizeof_ptr_def)
  apply (simp add: qsort_def dispid_cmp_def wrap32_def)
  done

lemma gallery_vtbl: "vtbl gallery_info = desc_vtbl gallery_class"
  by (simp add: gallery_info_def ensure_dispex_info_def preprocess_dispex_data_def gallery_class_def
      gallery_typelib_def no_tables_def FAILED_def process_interface_def gallery_members_def
      add_func_info_def fill_func_info_def Let_def func_cnt_def cParams_def MAX_ARGS_def
      sizeof_ptr_def)

text \<open>
  The enumeration of \<open>gallery\<close>: \<open>count\<close> and \<open>title\<close>, the two custom members, the first
  and the fifth dynamic property.
\<close>

theorem GetNextDispID_enumerates_witness:
  "proxy gallery = None
   \<and> sorted_wrt (<) (map func_id (funcs (info gallery)))
   \<and> custom_members gallery [MSHTML_DISPID_CUSTOM_MIN, MSHTML_DISPID_CUSTOM_MIN + 1]
   \<and> enumerate_ids 7 gallery DISPID_STARTENUM
       = Some ([2, 3, MSHTML_DISPID_CUSTOM_MIN, MSHTML_DISPID_CUSTOM_MIN + 1,
                DISPID_DYNPROP_0, DISPID_DYNPROP_0 + 4], Some DISPID_STARTENUM)"
proof -
  let ?cs = "[MSHTML_DISPID_CUSTOM_MIN, MSHTML_DISPID_CUSTOM_MIN + 1]"
  have px: "proxy gallery = None" by (simp add: gallery_def)
  have srt: "sorted_wrt (<) (map func_id (funcs (info gallery)))"
    by (simp add: gallery_def gallery_funcs)
  have bi: "\<forall>f \<in> set (funcs (info gallery)).
              get_dispid_type (func_id f) = DISPEXPROP_BUILTIN \<and> func_id f \<noteq> DISPID_STARTENUM"
    by (simp add: gallery_def gallery_funcs get_dispid_type_def is_dynamic_dispid_def is_custom_dispid_def)
  have cm: "custom_members gallery ?cs"
    by (simp add: custom_members_def gallery_def gallery_vtbl gallery_class_def gallery_next_dispid_def
        is_custom_dispid_def)
  have len: "length (the_props (get_dynamic_data gallery)) \<le> 0x10000000"
    by (simp add: gallery_def get_dynamic_data_def the_props_def)
  have upt: "[0 ..< 5] = [0, 1, 2, 3, 4]" by code_simp
  have e: "enumeration gallery ?cs
             = [2, 3, MSHTML_DISPID_CUSTOM_MIN, MSHTML_DISPID_CUSTOM_MIN + 1,
                DISPID_DYNPROP_0, DISPID_DYNPROP_0 + 4]"
    by (simp add: enumeration_def enumerable_builtins_def enumerable_dynamics_def visible_def
        gallery_def gallery_funcs get_dynamic_data_def the_props_def ref_prop_def upt)
  from GetNextDispID_enumerates [OF px srt bi cm len]
  have "enumerate_ids (Suc (length (enumeration gallery ?cs))) gallery DISPID_STARTENUM
           = Some (enumeration gallery ?cs, Some DISPID_STARTENUM)" .
  then have "enumerate_ids 7 gallery DISPID_STARTENUM
       = Some ([2, 3, MSHTML_DISPID_CUSTOM_MIN, MSHTML_DISPID_CUSTOM_MIN + 1,
                DISPID_DYNPROP_0, DISPID_DYNPROP_0 + 4], Some DISPID_STARTENUM)"
    unfolding e by (simp add: eval_nat_numeral del: enumerate_ids.simps)
  with px srt cm show ?thesis by blast
qed

text \<open>
  The interface declares \<open>title\<close> (3) before \<open>count\<close> (2); the enumeration yields \<open>count\<close>
  first and \<open>title\<close> after it.
\<close>

theorem enumeration_in_table_order_counterexample:
  "map memid gallery_members = [3, 1, 4, 2]
   \<and> fst (DispatchEx_GetNextDispID gallery DISPID_STARTENUM) = (S_OK, Some 2)
   \<and> fst (DispatchEx_GetNextDispID gallery 2) = (S_OK, Some 3)"
  by (simp add: gallery_members_def DispatchEx_GetNextDispID_def gallery_def gallery_funcs
      get_builtin_func_def get_builtin_func_loop.simps func_cnt_def is_dynamic_dispid_def
      is_custom_dispid_def FAILED_def)

end
